theory Spec2Isabelle
  imports Main "HOL-Library.Sublist"
begin

section \<open>Values and errors of the JavaScript program\<close>

text \<open>
  The downloader of \<^verbatim>\<open>src/index.cjs\<close> works on the result of \<^verbatim>\<open>JSON.parse\<close>, so a value is
  one of the JSON shapes, or \<^verbatim>\<open>undefined\<close> (what reading an absent property gives).
  An object is the list of its own properties. Numbers are only ever tested for being
  zero, so integers stand for them.
\<close>

datatype jsval =
    Undefined
  | Null
  | Bool bool
  | Num int
  | Str string
  | Arr "jsval list"
  | Obj "(string \<times> jsval) list"

text \<open>
  What the program can throw: a \<^verbatim>\<open>TypeError\<close> of the runtime (a property of \<^verbatim>\<open>null\<close> or
  \<^verbatim>\<open>undefined\<close> is read, or a value that is not a function is called), or an
  \<^verbatim>\<open>Error\<close> with a message.
\<close>

datatype js_error = TypeError | Error string

text \<open>JavaScript's truthiness, as the \<^verbatim>\<open>if (x)\<close> and \<^verbatim>\<open>a && b\<close> of the source read it.\<close>

fun truthy :: "jsval \<Rightarrow> bool" where
  "truthy Undefined = False"
| "truthy Null = False"
| "truthy (Bool b) = b"
| "truthy (Num n) = (n \<noteq> 0)"
| "truthy (Str s) = (s \<noteq> [])"
| "truthy (Arr xs) = True"
| "truthy (Obj kvs) = True"

text \<open>
  The property read \<^verbatim>\<open>v.k\<close>. On \<^verbatim>\<open>null\<close> and \<^verbatim>\<open>undefined\<close> it throws; on an object it
  gives the property or \<^verbatim>\<open>undefined\<close>; a boolean, a number, a string or an array has none
  of the properties this program reads (\<^verbatim>\<open>video\<close>, \<^verbatim>\<open>downloadAddr\<close>, \<^verbatim>\<open>playAddrH264\<close>,
  \<^verbatim>\<open>playAddr\<close>, \<^verbatim>\<open>bitrateInfo\<close>, \<^verbatim>\<open>PlayAddr\<close>, \<^verbatim>\<open>UrlList\<close>, \<^verbatim>\<open>QualityType\<close>).
\<close>

fun get_prop :: "jsval \<Rightarrow> string \<Rightarrow> js_error + jsval" where
  "get_prop Undefined k = Inl TypeError"
| "get_prop Null k = Inl TypeError"
| "get_prop (Obj kvs) k = (case map_of kvs k of Some v \<Rightarrow> Inr v | None \<Rightarrow> Inr Undefined)"
| "get_prop v k = Inr Undefined"

text \<open>A number in a template literal: the decimal digits of an array index or a status code.\<close>

definition digit :: "nat \<Rightarrow> char" where
  "digit d = ''0123456789'' ! d"

function show_nat :: "nat \<Rightarrow> string" where
  "show_nat n = (if n < 10 then [digit n] else show_nat (n div 10) @ [digit (n mod 10)])"
  by pat_completeness auto
termination
  by (relation "measure id") auto

declare show_nat.simps [simp del]

section \<open>Collecting the video sources (findBestVideoUrl, lines 73 to 119)\<close>

text \<open>
  An entry of \<^verbatim>\<open>videoSources\<close>. Only the entries made from \<^verbatim>\<open>bitrateInfo\<close> have a
  \<^verbatim>\<open>quality\<close> property; it is \<^verbatim>\<open>undefined\<close> in the others.
\<close>

record candidate =
  url :: jsval
  type :: string
  priority :: int
  quality :: jsval

text \<open>
  One of the three blocks \<^verbatim>\<open>if (videoData.video.F) videoSources.push({url:
  videoData.video.F, type: 'F', priority: p})\<close>.
\<close>

definition push_field :: "jsval \<Rightarrow> string \<Rightarrow> int \<Rightarrow> candidate list \<Rightarrow> js_error + candidate list" where
  "push_field video f p videoSources =
     (case get_prop video f of
        Inl e \<Rightarrow> Inl e
      | Inr v \<Rightarrow>
          if truthy v
          then Inr (videoSources @ [\<lparr>url = v, type = f, priority = p, quality = Undefined\<rparr>])
          else Inr videoSources)"

text \<open>
  The inner \<^verbatim>\<open>bitrate.PlayAddr.UrlList.forEach((url, urlIndex) => ...)\<close>, from position
  \<open>urlIndex\<close> on: every element is pushed, whatever it is.
\<close>

fun forEach_url :: "jsval \<Rightarrow> nat \<Rightarrow> jsval list \<Rightarrow> nat \<Rightarrow> candidate list \<Rightarrow> js_error + candidate list" where
  "forEach_url bitrate index [] urlIndex videoSources = Inr videoSources"
| "forEach_url bitrate index (u # us) urlIndex videoSources =
     (case get_prop bitrate ''QualityType'' of
        Inl e \<Rightarrow> Inl e
      | Inr q \<Rightarrow>
          forEach_url bitrate index us (Suc urlIndex)
            (videoSources @
              [\<lparr>url = u,
                type = ''bitrateInfo['' @ show_nat index @ '']['' @ show_nat urlIndex @ '']'',
                priority = 4 + int index,
                quality = q\<rparr>]))"

text \<open>
  The outer \<^verbatim>\<open>videoData.video.bitrateInfo.forEach((bitrate, index) => ...)\<close>, from position
  \<open>index\<close> on. \<^verbatim>\<open>UrlList.forEach\<close> is a function only when \<^verbatim>\<open>UrlList\<close> is an array.
\<close>

fun forEach_bitrate :: "jsval list \<Rightarrow> nat \<Rightarrow> candidate list \<Rightarrow> js_error + candidate list" where
  "forEach_bitrate [] index videoSources = Inr videoSources"
| "forEach_bitrate (bitrate # rest) index videoSources =
     (case get_prop bitrate ''PlayAddr'' of
        Inl e \<Rightarrow> Inl e
      | Inr playAddr \<Rightarrow>
          if truthy playAddr then
            (case get_prop playAddr ''UrlList'' of
               Inl e \<Rightarrow> Inl e
             | Inr urlList \<Rightarrow>
                 if truthy urlList then
                   (case urlList of
                      Arr us \<Rightarrow>
                        (case forEach_url bitrate index us 0 videoSources of
                           Inl e \<Rightarrow> Inl e
                         | Inr videoSources' \<Rightarrow> forEach_bitrate rest (Suc index) videoSources')
                    | _ \<Rightarrow> Inl TypeError)
                 else forEach_bitrate rest (Suc index) videoSources)
          else forEach_bitrate rest (Suc index) videoSources)"

text \<open>Lines 73 to 119: the sources in the order they are pushed.\<close>

definition collect_sources :: "jsval \<Rightarrow> js_error + candidate list" where
  "collect_sources videoData =
     (case get_prop videoData ''video'' of
        Inl e \<Rightarrow> Inl e
      | Inr video \<Rightarrow>
          if truthy video then
            (case push_field video ''downloadAddr'' 1 [] of
               Inl e \<Rightarrow> Inl e
             | Inr s1 \<Rightarrow>
            (case push_field video ''playAddrH264'' 2 s1 of
               Inl e \<Rightarrow> Inl e
             | Inr s2 \<Rightarrow>
            (case push_field video ''playAddr'' 3 s2 of
               Inl e \<Rightarrow> Inl e
             | Inr s3 \<Rightarrow>
            (case get_prop video ''bitrateInfo'' of
               Inl e \<Rightarrow> Inl e
             | Inr bitrateInfo \<Rightarrow>
                 (case bitrateInfo of
                    Arr bs \<Rightarrow> forEach_bitrate bs 0 s3
                  | _ \<Rightarrow> Inr s3)))))
          else Inr [])"

section \<open>The network and the file system\<close>

text \<open>
  What the program sees of the outside. A \<^verbatim>\<open>HEAD\<close> request (\<^verbatim>\<open>testVideoUrl\<close>) ends in a
  response with a status code, in an \<^verbatim>\<open>error\<close> event of the request, or in the timeout of
  3000 ms. A \<^verbatim>\<open>GET\<close> request (\<^verbatim>\<open>downloadVideo\<close>) ends in an \<^verbatim>\<open>error\<close> event of the request, or
  in a response with a status code, a \<^verbatim>\<open>location\<close> header or none, and a body: the body
  either ends after so many bytes, or stops after so many bytes without ending and
  without an \<^verbatim>\<open>error\<close> event of the request (the connection is closed early). During
  one run the outcome of a request is taken to depend on its address only (the headers,
  the cookie among them, are the same in every request of one kind).

  Before anything is sent, \<^verbatim>\<open>https.request\<close> and \<^verbatim>\<open>https.get\<close> parse the address they are
  given, and throw a \<^verbatim>\<open>TypeError\<close> when it is not a URL (\<^verbatim>\<open>ERR_INVALID_URL\<close>: the empty
  string, a relative address) or when its protocol is not \<^verbatim>\<open>https:\<close>
  (\<^verbatim>\<open>ERR_INVALID_PROTOCOL\<close>). \<open>accepts\<close> says of an address that they take it.
  \<open>opens\<close> says of a path that \<^verbatim>\<open>fs.createWriteStream\<close> can open the file for writing.
  The model has no limit on the number of open files, of connections or of pending
  promises.
\<close>

datatype head_outcome = HeadResponse nat | HeadError | HeadTimeout

datatype body = Finished nat | Aborted nat

datatype get_outcome = GetError js_error | GetResponse nat "string option" body

record net =
  accepts :: "string \<Rightarrow> bool"
  http_head :: "string \<Rightarrow> head_outcome"
  http_get :: "string \<Rightarrow> get_outcome"
  opens :: "string \<Rightarrow> bool"

text \<open>
  The state the program changes: the files on disk with their sizes in bytes, the
  addresses \<^verbatim>\<open>https.request\<close> (\<open>head_log\<close>) and \<^verbatim>\<open>https.get\<close> (\<open>get_log\<close>) have been
  called with so far, oldest first (a request is sent for those that are accepted), and
  what \<^verbatim>\<open>console.error\<close> has printed (the label and the error whose message follows it).
\<close>

record world =
  files :: "string \<rightharpoonup> nat"
  head_log :: "string list"
  get_log :: "string list"
  stderr :: "(string \<times> js_error) list"

definition console_error :: "string \<Rightarrow> js_error \<Rightarrow> world \<Rightarrow> world" where
  "console_error label e st = st\<lparr>stderr := stderr st @ [(label, e)]\<rparr>"

text \<open>The state before anything has happened.\<close>

definition st0 :: world where
  "st0 = \<lparr>files = Map.empty, head_log = [], get_log = [], stderr = []\<rparr>"

section \<open>Strings\<close>

text \<open>
  \<^verbatim>\<open>s.replace(/pat/g, rep)\<close> for a pattern that is a fixed, non-empty text: every
  occurrence, found from the left and not overlapping, is replaced.
\<close>

function replaceAll :: "string \<Rightarrow> string \<Rightarrow> string \<Rightarrow> string" where
  "replaceAll pat rep [] = []"
| "replaceAll pat rep (c # cs) =
     (if pat \<noteq> [] \<and> prefix pat (c # cs)
      then rep @ replaceAll pat rep (drop (length pat) (c # cs))
      else c # replaceAll pat rep cs)"
  by pat_completeness auto
termination
  by (relation "measure (\<lambda>(pat, rep, s). length s)") auto

text \<open>\<^verbatim>\<open>s.replace(pat, rep)\<close> for a pattern that is a string: the first occurrence only.\<close>

fun replaceFirst :: "string \<Rightarrow> string \<Rightarrow> string \<Rightarrow> string" where
  "replaceFirst pat rep [] = (if pat = [] then rep else [])"
| "replaceFirst pat rep (c # cs) =
     (if prefix pat (c # cs) then rep @ drop (length pat) (c # cs)
      else c # replaceFirst pat rep cs)"

text \<open>\<^verbatim>\<open>s.includes(pat)\<close>.\<close>

fun str_includes :: "string \<Rightarrow> string \<Rightarrow> bool" where
  "str_includes [] pat = (pat = [])"
| "str_includes (c # cs) pat = (prefix pat (c # cs) \<or> str_includes cs pat)"

text \<open>The text the regular expression \<^verbatim>\<open>/\\u0026/g\<close> matches: a backslash, then \<^verbatim>\<open>u0026\<close>.\<close>

definition escaped_amp :: string where
  "escaped_amp = CHR 0x5C # ''u0026''"

text \<open>
  \<^verbatim>\<open>source.url.replace(/\\u0026/g, '&')\<close>: only a string has the method \<^verbatim>\<open>replace\<close>.
\<close>

fun basicClean :: "jsval \<Rightarrow> js_error + string" where
  "basicClean (Str s) = Inr (replaceAll escaped_amp ''&'' s)"
| "basicClean v = Inl TypeError"

section \<open>Testing and selecting a source (findBestVideoUrl, lines 121 to 168)\<close>

text \<open>
  \<^verbatim>\<open>videoSources.sort((a, b) => a.priority - b.priority)\<close>. \<^verbatim>\<open>Array.prototype.sort\<close> is a
  stable sort by the sign of the comparison function; insertion from the right, each
  element put before the first one it does not come after, is such a sort.
\<close>

fun insert_sorted :: "('a \<Rightarrow> 'a \<Rightarrow> int) \<Rightarrow> 'a \<Rightarrow> 'a list \<Rightarrow> 'a list" where
  "insert_sorted cmp x [] = [x]"
| "insert_sorted cmp x (y # ys) =
     (if cmp x y \<le> 0 then x # y # ys else y # insert_sorted cmp x ys)"

definition array_sort :: "('a \<Rightarrow> 'a \<Rightarrow> int) \<Rightarrow> 'a list \<Rightarrow> 'a list" where
  "array_sort cmp xs = foldr (insert_sorted cmp) xs []"

definition by_priority :: "candidate \<Rightarrow> candidate \<Rightarrow> int" where
  "by_priority a b = priority a - priority b"

text \<open>
  \<^verbatim>\<open>testVideoUrl\<close>, lines 170 to 201: \<open>Inr b\<close> when the promise resolves to \<open>b\<close>, \<open>Inl e\<close>
  when it is rejected with \<open>e\<close>. \<^verbatim>\<open>https.request\<close> is called in the executor of the promise,
  outside any \<^verbatim>\<open>try\<close>: when it throws, the promise is rejected. Otherwise the request is
  sent, and the promise resolves to whether the status is 2xx or 3xx; an error and the
  timeout resolve it to \<^verbatim>\<open>false\<close>.
\<close>

fun isWorking :: "head_outcome \<Rightarrow> bool" where
  "isWorking (HeadResponse statusCode) =
     ((statusCode \<ge> 200 \<and> statusCode < 300) \<or> (statusCode \<ge> 300 \<and> statusCode < 400))"
| "isWorking HeadError = False"
| "isWorking HeadTimeout = False"

definition testVideoUrl :: "net \<Rightarrow> string \<Rightarrow> world \<Rightarrow> (js_error + bool) \<times> world" where
  "testVideoUrl net u st =
     (if accepts net u
      then (Inr (isWorking (http_head net u)), st\<lparr>head_log := head_log st @ [u]\<rparr>)
      else (Inl TypeError, st\<lparr>head_log := head_log st @ [u]\<rparr>))"

text \<open>The object \<^verbatim>\<open>findBestVideoUrl\<close> returns.\<close>

record resolved =
  originalUrl :: string
  rtype :: string
  rpriority :: int

text \<open>
  The loop \<^verbatim>\<open>for (const source of videoSources)\<close> of lines 134 to 154: \<open>Inr (Some r)\<close> when
  it returns \<open>r\<close>, \<open>Inr None\<close> when it runs to its end, \<open>Inl e\<close> when \<^verbatim>\<open>replace\<close> throws or
  the \<^verbatim>\<open>await\<close> of line 140 throws what the promise was rejected with.
\<close>

fun test_sources :: "net \<Rightarrow> candidate list \<Rightarrow> world \<Rightarrow> (js_error + resolved option) \<times> world" where
  "test_sources net [] st = (Inr None, st)"
| "test_sources net (source # rest) st =
     (case basicClean (url source) of
        Inl e \<Rightarrow> (Inl e, st)
      | Inr basicCleanUrl \<Rightarrow>
          (case testVideoUrl net basicCleanUrl st of
             (Inl e, st') \<Rightarrow> (Inl e, st')
           | (Inr isAccessible, st') \<Rightarrow>
               if isAccessible
               then (Inr (Some \<lparr>originalUrl = basicCleanUrl, rtype = type source,
                                rpriority = priority source\<rparr>), st')
               else test_sources net rest st'))"

text \<open>Lines 125 to 167, on the sources collected: sort, test, fall back.\<close>

definition select_source :: "net \<Rightarrow> candidate list \<Rightarrow> world \<Rightarrow> (js_error + resolved) \<times> world" where
  "select_source net videoSources st =
     (let sorted = array_sort by_priority videoSources in
      case test_sources net sorted st of
        (Inl e, st') \<Rightarrow> (Inl e, st')
      | (Inr (Some r), st') \<Rightarrow> (Inr r, st')
      | (Inr None, st') \<Rightarrow>
          (case find (\<lambda>s. type s = ''playAddr'') sorted of
             Some fallback \<Rightarrow>
               (case basicClean (url fallback) of
                  Inl e \<Rightarrow> (Inl e, st')
                | Inr u \<Rightarrow>
                    (Inr \<lparr>originalUrl = u, rtype = ''playAddr (fallback)'',
                          rpriority = priority fallback\<rparr>, st'))
           | None \<Rightarrow> (Inl (Error ''No accessible video URLs found''), st')))"

definition findBestVideoUrl :: "net \<Rightarrow> jsval \<Rightarrow> world \<Rightarrow> (js_error + resolved) \<times> world" where
  "findBestVideoUrl net videoData st =
     (case collect_sources videoData of
        Inl e \<Rightarrow> (Inl e, st)
      | Inr videoSources \<Rightarrow>
          if length videoSources = 0 then (Inl (Error ''No video sources found''), st)
          else select_source net videoSources st)"

section \<open>Downloading (tryMultipleDownloads, downloadVideo)\<close>

text \<open>
  An entry of \<^verbatim>\<open>attempts\<close> (its \<^verbatim>\<open>url\<close>, \<^verbatim>\<open>name\<close> and \<^verbatim>\<open>suffix\<close> are \<open>aurl\<close>, \<open>aname\<close> and
  \<open>asuffix\<close> here) and an
  entry of \<^verbatim>\<open>results\<close> (its \<^verbatim>\<open>type\<close>, \<^verbatim>\<open>path\<close>, \<^verbatim>\<open>size\<close> and \<^verbatim>\<open>url\<close> are \<open>dtype\<close>, \<open>dpath\<close>,
  \<open>dsize\<close> and \<open>durl\<close>).
\<close>

record attempt =
  aurl :: string
  aname :: string
  asuffix :: string

record download =
  dtype :: string
  dpath :: string
  dsize :: nat
  durl :: string

text \<open>Lines 204 to 229: the attempts planned for a source.\<close>

definition plan_attempts :: "resolved \<Rightarrow> attempt list" where
  "plan_attempts videoInfo =
     [\<lparr>aurl = originalUrl videoInfo, aname = ''Original'', asuffix = ''_original''\<rparr>,
      \<lparr>aurl = replaceAll ''watermark=1'' ''watermark=0'' (originalUrl videoInfo),
       aname = ''Watermark Modified'', asuffix = ''_no_watermark''\<rparr>]
     @ (if str_includes (originalUrl videoInfo) ''watermark=1''
        then [\<lparr>aurl = replaceAll ''logo=1'' ''logo=0''
                        (replaceAll ''watermark=1'' ''watermark=0'' (originalUrl videoInfo)),
               aname = ''Full Parameter Modified'', asuffix = ''_full_modified''\<rparr>]
        else [])"

text \<open>
  The file operations. \<^verbatim>\<open>fs.createWriteStream\<close> opens the file for writing: it exists
  from then on and is empty, and what is piped into the stream is its content. When the
  file cannot be opened the stream emits an \<^verbatim>\<open>error\<close> event; the program has no handler
  for it, so the process ends there (\<open>None\<close>).
  \<^verbatim>\<open>fs.unlink\<close> and \<^verbatim>\<open>fs.unlinkSync\<close> remove the file. \<^verbatim>\<open>fs.statSync\<close> throws when there
  is no such file. \<^verbatim>\<open>path.join('./videos', filename)\<close> is the file \<open>filename\<close> of the
  directory \<^verbatim>\<open>videos\<close> (making the directory is not part of the model).
\<close>

definition path_join_videos :: "string \<Rightarrow> string" where
  "path_join_videos filename = ''videos/'' @ filename"

definition createWriteStream :: "net \<Rightarrow> string \<Rightarrow> world \<Rightarrow> world option" where
  "createWriteStream net filePath st =
     (if opens net filePath then Some (st\<lparr>files := (files st)(filePath \<mapsto> 0)\<rparr>) else None)"

definition pipe_body :: "string \<Rightarrow> nat \<Rightarrow> world \<Rightarrow> world" where
  "pipe_body filePath n st = st\<lparr>files := (files st)(filePath \<mapsto> n)\<rparr>"

definition unlink :: "string \<Rightarrow> world \<Rightarrow> world" where
  "unlink filePath st = st\<lparr>files := (files st)(filePath := None)\<rparr>"

definition statSync :: "string \<Rightarrow> world \<Rightarrow> js_error + nat" where
  "statSync filePath st =
     (case files st filePath of
        None \<Rightarrow> Inl (Error ''ENOENT: no such file or directory'')
      | Some n \<Rightarrow> Inr n)"

text \<open>
  The test of line 327: the status is in the range 300 to 399 and the response has a
  (non-empty) \<^verbatim>\<open>location\<close> header.
\<close>

definition redirect_target :: "nat \<Rightarrow> string option \<Rightarrow> string option" where
  "redirect_target statusCode location =
     (case location of
        None \<Rightarrow> None
      | Some l \<Rightarrow> if statusCode \<ge> 300 \<and> statusCode < 400 \<and> l \<noteq> [] then Some l else None)"

text \<open>
  \<^verbatim>\<open>downloadVideo\<close>, lines 305 to 361. The result is \<open>None\<close> when the promise is never
  settled, \<open>Some (Inl e, st)\<close> when it is rejected with \<open>e\<close>, and \<open>Some (Inr filePath, st)\<close>
  when it is resolved. The write stream is made before \<^verbatim>\<open>https.get\<close> is called; when the
  file cannot be opened the process ends, and the promise is never settled. When
  \<^verbatim>\<open>https.get\<close> throws, in the executor of the promise, the promise is rejected and the
  file stays as the stream made it. An \<^verbatim>\<open>error\<close> event of the request removes the file and
  rejects. A redirect makes the function call itself on the target, with the same file
  name, whatever the target is and however many redirects came before. Any other status
  than 200 rejects. Otherwise the body is piped into the file, and the promise is
  resolved by the \<^verbatim>\<open>finish\<close> event of the file, which comes when the body has ended; no
  handler is there for a body that does not end.
\<close>

partial_function (option) downloadVideo ::
    "net \<Rightarrow> string \<Rightarrow> string \<Rightarrow> world \<Rightarrow> ((js_error + string) \<times> world) option" where
  "downloadVideo net videoUrl filename st =
     (let filePath = path_join_videos filename
      in case createWriteStream net filePath st of
           None \<Rightarrow> None
         | Some opened \<Rightarrow>
             (let st1 = opened\<lparr>get_log := get_log st @ [videoUrl]\<rparr>
              in if \<not> accepts net videoUrl then Some (Inl TypeError, st1)
                 else
                   (case http_get net videoUrl of
                      GetError err \<Rightarrow> Some (Inl err, unlink filePath st1)
                    | GetResponse statusCode location body \<Rightarrow>
                        (case redirect_target statusCode location of
                           Some target \<Rightarrow> downloadVideo net target filename st1
                         | None \<Rightarrow>
                             if statusCode \<noteq> 200
                             then Some (Inl (Error (''Video download failed with status code ''
                                                     @ show_nat statusCode)), st1)
                             else
                               (case body of
                                  Finished n \<Rightarrow> Some (Inr filePath, pipe_body filePath n st1)
                                | Aborted n \<Rightarrow> None)))))"

declare downloadVideo.simps [code]

text \<open>
  The body of the loop of lines 233 to 261, for one attempt: \<^verbatim>\<open>try\<close> the download, keep the
  file when it is larger than 1024 bytes, delete it otherwise; \<^verbatim>\<open>catch\<close> whatever is
  thrown and go on.
\<close>

definition attempt_download ::
    "net \<Rightarrow> string \<Rightarrow> attempt \<Rightarrow> download list \<Rightarrow> world \<Rightarrow> (download list \<times> world) option" where
  "attempt_download net filename a results st =
     (let baseFilename = replaceFirst ''.mp4'' [] filename;
          attemptFilename = baseFilename @ asuffix a @ ''.mp4''
      in case downloadVideo net (aurl a) attemptFilename st of
           None \<Rightarrow> None
         | Some (Inl e, st') \<Rightarrow> Some (results, st')
         | Some (Inr filePath, st') \<Rightarrow>
             (case statSync filePath st' of
                Inl e \<Rightarrow> Some (results, st')
              | Inr stats_size \<Rightarrow>
                  if stats_size > 1024
                  then Some (results @
                         [\<lparr>dtype = aname a, dpath = filePath, dsize = stats_size, durl = aurl a\<rparr>], st')
                  else Some (results, unlink filePath st')))"

text \<open>The loop \<^verbatim>\<open>for (const attempt of attempts)\<close>, and \<^verbatim>\<open>tryMultipleDownloads\<close> as a whole.\<close>

fun download_attempts ::
    "net \<Rightarrow> string \<Rightarrow> attempt list \<Rightarrow> download list \<Rightarrow> world \<Rightarrow> (download list \<times> world) option" where
  "download_attempts net filename [] results st = Some (results, st)"
| "download_attempts net filename (a # rest) results st =
     (case attempt_download net filename a results st of
        None \<Rightarrow> None
      | Some (results', st') \<Rightarrow> download_attempts net filename rest results' st')"

definition tryMultipleDownloads ::
    "net \<Rightarrow> resolved \<Rightarrow> string \<Rightarrow> world \<Rightarrow> (download list \<times> world) option" where
  "tryMultipleDownloads net videoInfo filename st =
     download_attempts net filename (plan_attempts videoInfo) [] st"

section \<open>The whole run (getVideoId, getDownloadAddr, run)\<close>

text \<open>\<^verbatim>\<open>url.split('/')\<close> and its last part.\<close>

fun split_slash :: "string \<Rightarrow> string list" where
  "split_slash [] = [[]]"
| "split_slash (c # cs) =
     (if c = CHR ''/'' then [] # split_slash cs
      else (case split_slash cs of
              p # ps \<Rightarrow> (c # p) # ps
            | [] \<Rightarrow> [[c]]))"

definition getVideoId :: "string \<Rightarrow> string" where
  "getVideoId pageUrl = last (split_slash pageUrl)"

text \<open>
  \<^verbatim>\<open>getDownloadAddr\<close>. Fetching the page and finding \<^verbatim>\<open>videoData\<close> in it (lines 20 to 55) is
  given as \<open>fetched\<close>: the error thrown there, or \<^verbatim>\<open>videoData\<close>. Every error is caught,
  printed, and turned into \<^verbatim>\<open>null\<close> (here \<open>None\<close>).
\<close>

definition getDownloadAddr ::
    "net \<Rightarrow> js_error + jsval \<Rightarrow> world \<Rightarrow> resolved option \<times> world" where
  "getDownloadAddr net fetched st =
     (case fetched of
        Inl e \<Rightarrow> (None, console_error ''Error getting download address:'' e st)
      | Inr videoData \<Rightarrow>
          if \<not> truthy videoData
          then (None, console_error ''Error getting download address:''
                        (Error ''Video data not found in JSON'') st)
          else
            (case findBestVideoUrl net videoData st of
               (Inl e, st') \<Rightarrow> (None, console_error ''Error getting download address:'' e st')
             | (Inr results, st') \<Rightarrow> (Some results, st')))"

text \<open>
  \<^verbatim>\<open>run\<close>: \<open>Some (Some videoId, st)\<close> when it returns the video id, \<open>Some (None, st)\<close> when
  it returns \<^verbatim>\<open>null\<close>, \<open>None\<close> when it never returns, a download never being settled.
\<close>

definition run ::
    "net \<Rightarrow> js_error + jsval \<Rightarrow> string \<Rightarrow> world \<Rightarrow> (string option \<times> world) option" where
  "run net fetched pageUrl st =
     (case getDownloadAddr net fetched st of
        (None, st1) \<Rightarrow>
          Some (None, console_error ''Error in TikTok downloader:''
                        (Error ''Failed to get video URLs'') st1)
      | (Some videoInfo, st1) \<Rightarrow>
          (case tryMultipleDownloads net videoInfo (getVideoId pageUrl @ ''.mp4'') st1 of
             None \<Rightarrow> None
           | Some (results, st2) \<Rightarrow>
               if length results = 0
               then Some (None, console_error ''Error in TikTok downloader:''
                                  (Error ''All download attempts failed'') st2)
               else Some (Some (getVideoId pageUrl), st2)))"

section \<open>Reading the metadata\<close>

text \<open>
  Functions the statements below use to say what the metadata holds. \<open>field v k\<close> is
  the property \<open>k\<close> of \<open>v\<close>, and \<^verbatim>\<open>undefined\<close> where \<open>v\<close> has no properties;
  \<open>elements v\<close> are the elements of an array, and none for any other value.
\<close>

definition field :: "jsval \<Rightarrow> string \<Rightarrow> jsval" where
  "field v k = (case get_prop v k of Inl e \<Rightarrow> Undefined | Inr x \<Rightarrow> x)"

fun isArray :: "jsval \<Rightarrow> bool" where
  "isArray (Arr xs) = True"
| "isArray v = False"

fun elements :: "jsval \<Rightarrow> jsval list" where
  "elements (Arr xs) = xs"
| "elements v = []"

text \<open>The source a field of \<^verbatim>\<open>video\<close> stands for: one when the field is truthy, none otherwise.\<close>

definition field_source :: "jsval \<Rightarrow> string \<Rightarrow> int \<Rightarrow> candidate list" where
  "field_source video f p =
     (if truthy (field video f)
      then [\<lparr>url = field video f, type = f, priority = p, quality = Undefined\<rparr>]
      else [])"

text \<open>The mirror addresses of an entry of \<^verbatim>\<open>bitrateInfo\<close>: its \<^verbatim>\<open>PlayAddr.UrlList\<close>, if any.\<close>

definition mirror_urls :: "jsval \<Rightarrow> jsval list" where
  "mirror_urls bitrate =
     (if truthy (field bitrate ''PlayAddr'')
      then elements (field (field bitrate ''PlayAddr'') ''UrlList'')
      else [])"

text \<open>
  An entry of \<^verbatim>\<open>bitrateInfo\<close> the loop can read: it is not \<^verbatim>\<open>null\<close>, and its
  \<^verbatim>\<open>PlayAddr.UrlList\<close>, when it has one, is an array.
\<close>

definition well_shaped :: "jsval \<Rightarrow> bool" where
  "well_shaped bitrate =
     (bitrate \<noteq> Null \<and> bitrate \<noteq> Undefined \<and>
      (truthy (field bitrate ''PlayAddr'') \<and> truthy (field (field bitrate ''PlayAddr'') ''UrlList'')
         \<longrightarrow> isArray (field (field bitrate ''PlayAddr'') ''UrlList'')))"

definition bitrate_source :: "nat \<Rightarrow> jsval \<Rightarrow> nat \<Rightarrow> jsval \<Rightarrow> candidate" where
  "bitrate_source index bitrate urlIndex u =
     \<lparr>url = u,
      type = ''bitrateInfo['' @ show_nat index @ '']['' @ show_nat urlIndex @ '']'',
      priority = 4 + int index,
      quality = field bitrate ''QualityType''\<rparr>"

text \<open>
  A source whose \<^verbatim>\<open>url\<close> is a string, the string itself, and the address that is tested
  for it: the string with the escaped ampersands replaced.
\<close>

fun isString :: "jsval \<Rightarrow> bool" where
  "isString (Str s) = True"
| "isString v = False"

definition address :: "candidate \<Rightarrow> string" where
  "address c = (case url c of Str s \<Rightarrow> s | _ \<Rightarrow> [])"

definition cleaned :: "candidate \<Rightarrow> string" where
  "cleaned c = replaceAll escaped_amp ''&'' (address c)"

text \<open>
  What the promise of \<^verbatim>\<open>testVideoUrl\<close> is settled with for an address: \<open>Inr True\<close> and
  \<open>Inr False\<close> when it resolves, \<open>Inl e\<close> when it is rejected.
\<close>

definition probe :: "net \<Rightarrow> string \<Rightarrow> js_error + bool" where
  "probe net u = fst (testVideoUrl net u st0)"

section \<open>Describing downloads\<close>

text \<open>
  Functions the statements below use. \<open>effect filePath content requests\<close> is a change
  of the state: the file has the content given (\<open>None\<close>: there is no such file), and the
  addresses \<^verbatim>\<open>https.get\<close> was called with are added to its log.
\<close>

definition effect :: "string \<Rightarrow> nat option \<Rightarrow> string list \<Rightarrow> world \<Rightarrow> world" where
  "effect filePath content requests st =
     st\<lparr>files := (files st)(filePath := content), get_log := get_log st @ requests\<rparr>"

text \<open>The file an attempt writes.\<close>

definition attempt_path :: "string \<Rightarrow> attempt \<Rightarrow> string" where
  "attempt_path filename a =
     path_join_videos (replaceFirst ''.mp4'' [] filename @ asuffix a @ ''.mp4'')"

text \<open>
  What an attempt adds to the results when it runs on its own, from the initial state:
  \<open>None\<close> when its download never settles, \<open>Some []\<close> when it fails, and the record of
  the file when it succeeds.
\<close>

definition alone :: "net \<Rightarrow> string \<Rightarrow> attempt \<Rightarrow> download list option" where
  "alone net filename a = map_option fst (attempt_download net filename a [] st0)"

text \<open>
  Redirects. \<open>next_hop net u\<close> is the address the response at \<open>u\<close> redirects to, if \<open>u\<close> is
  accepted and answered with a redirect. \<open>chain net n u\<close> are the addresses \<^verbatim>\<open>https.get\<close> is
  called with when \<open>n\<close> redirects are followed from \<open>u\<close>: \<open>u\<close> and the \<open>n\<close> targets; it is
  empty when there are fewer than \<open>n\<close> redirects.
  \<open>stalls net u\<close>: \<open>u\<close> is accepted and the response has status 200 and a body that does
  not end.
  \<open>ends net us\<close>: at the last address of \<open>us\<close> the download is rejected or resolved: the
  address is not accepted, or the request ends in an error, or the response is not a
  redirect and has another status than 200 or a body that ends.
\<close>

definition next_hop :: "net \<Rightarrow> string \<Rightarrow> string option" where
  "next_hop net u =
     (if accepts net u
      then (case http_get net u of
              GetError e \<Rightarrow> None
            | GetResponse statusCode location body \<Rightarrow> redirect_target statusCode location)
      else None)"

fun chain :: "net \<Rightarrow> nat \<Rightarrow> string \<Rightarrow> string list" where
  "chain net 0 u = [u]"
| "chain net (Suc n) u =
     (case next_hop net u of
        None \<Rightarrow> []
      | Some target \<Rightarrow> (case chain net n target of [] \<Rightarrow> [] | us \<Rightarrow> u # us))"

definition stalls :: "net \<Rightarrow> string \<Rightarrow> bool" where
  "stalls net u =
     (accepts net u \<and>
      (case http_get net u of
         GetResponse statusCode location (Aborted n) \<Rightarrow> statusCode = 200
       | _ \<Rightarrow> False))"

definition ends :: "net \<Rightarrow> string list \<Rightarrow> bool" where
  "ends net us = (us \<noteq> [] \<and> next_hop net (last us) = None \<and> \<not> stalls net (last us))"

section \<open>Example inputs\<close>

text \<open>
  In the networks below an address is accepted when it begins with \<^verbatim>\<open>https://\<close> and goes
  on after it; every such address used here is a URL with the protocol \<^verbatim>\<open>https:\<close>, and the
  others used here (\<^verbatim>\<open>http://a/d\<close>, \<^verbatim>\<open>http://a/h\<close>, \<^verbatim>\<open>http://m/0\<close>, \<^verbatim>\<open>/cdn/a\<close>) make
  \<^verbatim>\<open>https.request\<close> and \<^verbatim>\<open>https.get\<close> throw. Every file can be opened.
\<close>

definition https_address :: "string \<Rightarrow> bool" where
  "https_address u = (prefix ''https://'' u \<and> u \<noteq> ''https://'')"

text \<open>
  Metadata with no download address (an empty string), both play addresses, and three
  entries of \<^verbatim>\<open>bitrateInfo\<close>, the second without addresses.
\<close>

definition md0 :: jsval where
  "md0 = Obj [(''id'', Str ''7''),
     (''video'', Obj [
        (''playAddrH264'', Str ''https://a/h''),
        (''playAddr'', Str ''https://a/p''),
        (''downloadAddr'', Str []),
        (''bitrateInfo'', Arr [
           Obj [(''QualityType'', Num 20),
                (''PlayAddr'', Obj [(''UrlList'', Arr [Str ''https://m/0'', Str ''https://m/1''])])],
           Obj [(''QualityType'', Num 14)],
           Obj [(''PlayAddr'', Obj [(''UrlList'', Arr [Str ''https://n/0''])])]])])]"

text \<open>An address with two escaped ampersands, as the page's JSON has them.\<close>

definition amp_url :: string where
  "amp_url = ''https://a/p?x=1'' @ escaped_amp @ ''y=2'' @ escaped_amp @ ''z=3''"

text \<open>Sources out of order, two of them with priority 3.\<close>

definition cands0 :: "candidate list" where
  "cands0 =
     [\<lparr>url = Str ''https://m/0'', type = ''bitrateInfo[0][0]'', priority = 4, quality = Num 20\<rparr>,
      \<lparr>url = Str amp_url, type = ''playAddr'', priority = 3, quality = Undefined\<rparr>,
      \<lparr>url = Str ''https://a/d'', type = ''downloadAddr'', priority = 1, quality = Undefined\<rparr>,
      \<lparr>url = Str ''https://a/q'', type = ''other'', priority = 3, quality = Undefined\<rparr>,
      \<lparr>url = Str ''https://a/h'', type = ''playAddrH264'', priority = 2, quality = Undefined\<rparr>]"

text \<open>Sources out of order, the second best with the protocol \<^verbatim>\<open>http:\<close>.\<close>

definition cands_http :: "candidate list" where
  "cands_http =
     [\<lparr>url = Str ''https://a/q'', type = ''playAddr'', priority = 3, quality = Undefined\<rparr>,
      \<lparr>url = Str ''https://a/d'', type = ''downloadAddr'', priority = 1, quality = Undefined\<rparr>,
      \<lparr>url = Str ''http://a/h'', type = ''playAddrH264'', priority = 2, quality = Undefined\<rparr>]"

text \<open>Metadata with the three address fields and no \<^verbatim>\<open>bitrateInfo\<close>.\<close>

definition md1 :: jsval where
  "md1 = Obj [(''video'', Obj [(''playAddr'', Str amp_url),
                               (''downloadAddr'', Str ''https://a/d''),
                               (''playAddrH264'', Str ''https://a/h'')])]"

text \<open>
  Metadata with a play address and a \<^verbatim>\<open>bitrateInfo\<close> whose one entry is \<^verbatim>\<open>null\<close>, and
  metadata where the \<^verbatim>\<open>UrlList\<close> of the entry is a string.
\<close>

definition md_null_entry :: jsval where
  "md_null_entry =
     Obj [(''video'', Obj [(''playAddr'', Str ''https://a/p''), (''bitrateInfo'', Arr [Null])])]"

definition md_string_list :: jsval where
  "md_string_list =
     Obj [(''video'', Obj [(''playAddr'', Str ''https://a/p''),
                          (''bitrateInfo'',
                             Arr [Obj [(''PlayAddr'', Obj [(''UrlList'', Str ''https://m/0'')])]])])]"

text \<open>
  Metadata whose download address has the protocol \<^verbatim>\<open>http:\<close>, and metadata with a play
  address and one mirror address that has the protocol \<^verbatim>\<open>http:\<close>.
\<close>

definition md_http :: jsval where
  "md_http = Obj [(''video'', Obj [(''downloadAddr'', Str ''http://a/d''),
                                   (''playAddrH264'', Str ''https://a/h''),
                                   (''playAddr'', Str ''https://a/q'')])]"

definition md_http_mirror :: jsval where
  "md_http_mirror =
     Obj [(''video'', Obj [(''playAddr'', Str ''https://a/p''),
                          (''bitrateInfo'',
                             Arr [Obj [(''QualityType'', Num 20),
                                       (''PlayAddr'', Obj [(''UrlList'', Arr [Str ''http://m/0''])])]])])]"

text \<open>
  A network where the two addresses with priority 3 pass the test, the test of the
  download address is answered with status 403, the test of the H264 address runs into
  the timeout, and no download works.
\<close>

definition net0 :: net where
  "net0 = \<lparr>accepts = https_address,
            http_head = (\<lambda>u. if u = ''https://a/p?x=1&y=2&z=3'' then HeadResponse 206
                              else if u = ''https://a/q'' then HeadResponse 302
                              else if u = ''https://a/d'' then HeadResponse 403
                              else if u = ''https://a/h'' then HeadTimeout
                              else HeadError),
            http_get = (\<lambda>u. GetError (Error ''ECONNREFUSED'')),
            opens = (\<lambda>p. True)\<rparr>"

text \<open>Metadata without a \<^verbatim>\<open>video\<close> object, and metadata whose \<^verbatim>\<open>video\<close> has no address at all.\<close>

definition md_no_video :: jsval where
  "md_no_video = Obj [(''id'', Str ''7535517022529047830''), (''desc'', Str ''clip'')]"

definition md_empty_video :: jsval where
  "md_empty_video =
     Obj [(''video'', Obj [(''playAddr'', Str []), (''downloadAddr'', Null),
                          (''bitrateInfo'', Arr [Obj [(''QualityType'', Num 20)],
                                                  Obj [(''PlayAddr'', Obj [(''UrlList'', Arr [])])]])])]"

text \<open>A network where every request fails, and sources none of which is the play address.\<close>

definition net_down :: net where
  "net_down = \<lparr>accepts = https_address,
                http_head = (\<lambda>u. HeadError),
                http_get = (\<lambda>u. GetError (Error ''ECONNREFUSED'')),
                opens = (\<lambda>p. True)\<rparr>"

definition cands_no_playAddr :: "candidate list" where
  "cands_no_playAddr =
     [\<lparr>url = Str ''https://m/0'', type = ''bitrateInfo[0][0]'', priority = 4, quality = Num 20\<rparr>,
      \<lparr>url = Str ''https://a/d'', type = ''downloadAddr'', priority = 1, quality = Undefined\<rparr>]"

text \<open>
  Networks for the downloads: one where every address redirects to one address for ever;
  one with bodies of 1025, 1024 and 1000 bytes; one where the original address is
  redirected to a body of 2000 bytes, the address without watermark is answered with
  status 403, and every other request fails; one where every request for a download
  fails; and one with a chain of three redirects.
\<close>

definition net_loop :: net where
  "net_loop = \<lparr>accepts = https_address,
                http_head = (\<lambda>u. HeadResponse 200),
                http_get = (\<lambda>u. GetResponse 302 (Some ''https://cdn/a'') (Finished 0)),
                opens = (\<lambda>p. True)\<rparr>"

definition net_sizes :: net where
  "net_sizes = \<lparr>accepts = https_address,
                 http_head = (\<lambda>u. HeadResponse 200),
                 http_get = (\<lambda>u. if u = ''https://v/big'' then GetResponse 200 None (Finished 1025)
                                  else if u = ''https://v/edge'' then GetResponse 200 None (Finished 1024)
                                  else GetResponse 200 None (Finished 1000)),
                 opens = (\<lambda>p. True)\<rparr>"

definition net1 :: net where
  "net1 = \<lparr>accepts = https_address,
            http_head = (\<lambda>u. HeadResponse 200),
            http_get = (\<lambda>u. if u = ''https://v/a?watermark=1&logo=1''
                               then GetResponse 302 (Some ''https://cdn/a'') (Finished 0)
                             else if u = ''https://cdn/a'' then GetResponse 200 None (Finished 2000)
                             else if u = ''https://v/a?watermark=0&logo=1''
                               then GetResponse 403 None (Finished 0)
                             else GetError (Error ''ECONNRESET'')),
            opens = (\<lambda>p. True)\<rparr>"

definition net_refused :: net where
  "net_refused = \<lparr>accepts = https_address,
                   http_head = (\<lambda>u. HeadResponse 200),
                   http_get = (\<lambda>u. GetError (Error ''ECONNREFUSED'')),
                   opens = (\<lambda>p. True)\<rparr>"

definition net_chain :: net where
  "net_chain = \<lparr>accepts = https_address,
                 http_head = (\<lambda>u. HeadResponse 200),
                 http_get = (\<lambda>u. if u = ''https://v/0'' then GetResponse 302 (Some ''https://v/1'') (Finished 0)
                                  else if u = ''https://v/1'' then GetResponse 301 (Some ''https://v/2'') (Finished 0)
                                  else if u = ''https://v/2'' then GetResponse 307 (Some ''https://cdn/a'') (Finished 0)
                                  else GetResponse 200 None (Finished 2000)),
                 opens = (\<lambda>p. True)\<rparr>"

text \<open>
  A network where the body of the response to the original address is cut off after 500
  bytes, and every other download gives 2000 bytes.
\<close>

definition net_cut :: net where
  "net_cut = \<lparr>accepts = https_address,
               http_head = (\<lambda>u. HeadResponse 200),
               http_get = (\<lambda>u. if u = ''https://v/a?watermark=1&logo=1''
                                  then GetResponse 200 None (Aborted 500)
                                else GetResponse 200 None (Finished 2000)),
               opens = (\<lambda>p. True)\<rparr>"

text \<open>Metadata with one address, the source selected for it, and the attempts planned.\<close>

definition md2 :: jsval where
  "md2 = Obj [(''video'', Obj [(''playAddr'', Str ''https://v/a?watermark=1&logo=1'')])]"

definition info2 :: resolved where
  "info2 = \<lparr>originalUrl = ''https://v/a?watermark=1&logo=1'', rtype = ''playAddr'', rpriority = 3\<rparr>"

definition attempts2 :: "attempt list" where
  "attempts2 =
     [\<lparr>aurl = ''https://v/a?watermark=1&logo=1'', aname = ''Original'', asuffix = ''_original''\<rparr>,
      \<lparr>aurl = ''https://v/a?watermark=0&logo=1'', aname = ''Watermark Modified'',
       asuffix = ''_no_watermark''\<rparr>,
      \<lparr>aurl = ''https://v/a?watermark=0&logo=0'', aname = ''Full Parameter Modified'',
       asuffix = ''_full_modified''\<rparr>]"

section \<open>Properties\<close>

lemma truthy_not_Null: "truthy v \<Longrightarrow> v \<noteq> Null \<and> v \<noteq> Undefined"
  by (cases v) auto

subsection \<open>Strings\<close>

lemma str_includes_sublist: "str_includes s pat = sublist pat s"
proof (induction s)
  case Nil
  then show ?case by simp
next
  case (Cons c cs)
  then show ?case by (simp add: sublist_Cons_right)
qed

lemma replaceAll_absent: "\<not> sublist pat s \<Longrightarrow> replaceAll pat rep s = s"
proof (induction s)
  case Nil
  then show ?case by simp
next
  case (Cons c cs)
  then show ?case by (auto simp: sublist_Cons_right)
qed

lemma replaceAll_prefix_copied:
  "rep = r # r' \<Longrightarrow> r \<notin> set q \<Longrightarrow> prefix q (replaceAll pat rep t) \<Longrightarrow> prefix q t"
proof (induction t arbitrary: q)
  case Nil
  then show ?case by simp
next
  case (Cons d ds)
  show ?case
  proof (cases "pat \<noteq> [] \<and> prefix pat (d # ds)")
    case True
    with Cons.prems have "prefix q (r # r' @ replaceAll pat rep (drop (length pat) (d # ds)))"
      by simp
    with Cons.prems(2) have "q = []"
      by (cases q) auto
    then show ?thesis by simp
  next
    case False
    with Cons.prems have p: "prefix q (d # replaceAll pat rep ds)"
      by auto
    show ?thesis
    proof (cases q)
      case Nil
      then show ?thesis by simp
    next
      case (Cons x q')
      with p have "x = d" "prefix q' (replaceAll pat rep ds)"
        by simp_all
      moreover from Cons Cons.prems(2) have "r \<notin> set q'"
        by simp
      ultimately show ?thesis
        using Cons.IH [OF Cons.prems(1)] Cons by simp
    qed
  qed
qed

lemma replaceAll_none_left:
  assumes pat: "pat = h # p'" "h \<notin> set p'"
      and rep: "rep = r # r'" "r \<notin> set p'" "h \<notin> set r'"
      and inc: "\<not> prefix pat rep" "\<not> prefix rep pat"
  shows "\<not> sublist pat (replaceAll pat rep s)"
proof (induction s rule: length_induct)
  case (1 s)
  show ?case
  proof (cases s)
    case Nil
    then show ?thesis using pat by simp
  next
    case (Cons c cs)
    show ?thesis
    proof (cases "prefix pat (c # cs)")
      case True
      let ?rest = "replaceAll pat rep (drop (length pat) (c # cs))"
      have "length (drop (length pat) (c # cs)) < length s"
        using Cons pat by simp
      with 1 have ih: "\<not> sublist pat ?rest"
        by blast
      have out: "replaceAll pat rep s = rep @ ?rest"
        using True Cons pat by simp
      have no_start: "\<not> prefix pat (ys @ ?rest)" if "suffix ys rep" for ys
      proof (cases "ys = rep")
        case True
        show ?thesis
        proof
          assume "prefix pat (ys @ ?rest)"
          then have "prefix pat rep \<or> prefix rep pat"
            using True by (metis prefix_append prefixI)
          with inc show False by simp
        qed
      next
        case False
        with that obtain zs where zs: "rep = zs @ ys" "zs \<noteq> []"
          by (auto simp: suffix_def)
        then have "set ys \<subseteq> set r'"
          using rep(1) by (cases zs) auto
        with rep(3) have hn: "h \<notin> set ys"
          by blast
        show ?thesis
        proof (cases ys)
          case Nil
          with ih show ?thesis
            by auto
        next
          case (Cons y ys')
          with hn pat show ?thesis by auto
        qed
      qed
      have "\<not> sublist pat (ys @ ?rest)" if "suffix ys rep" for ys
        using that
      proof (induction ys)
        case Nil
        then show ?case using ih by simp
      next
        case (Cons y ys)
        from Cons.prems have "suffix ys rep"
          by (rule suffix_ConsD)
        with Cons.IH have "\<not> sublist pat (ys @ ?rest)" .
        moreover have "\<not> prefix pat ((y # ys) @ ?rest)"
          using no_start [OF Cons.prems] .
        ultimately show ?case
          by (simp add: sublist_Cons_right)
      qed
      from this [of rep] out show ?thesis by simp
    next
      case False
      have "length cs < length s" using Cons by simp
      with 1 have ih: "\<not> sublist pat (replaceAll pat rep cs)" by blast
      have out: "replaceAll pat rep s = c # replaceAll pat rep cs"
        using False Cons by simp
      have "\<not> prefix pat (c # replaceAll pat rep cs)"
      proof
        assume "prefix pat (c # replaceAll pat rep cs)"
        with pat have "c = h" "prefix p' (replaceAll pat rep cs)"
          by auto
        with replaceAll_prefix_copied [OF rep(1) rep(2)] have "prefix p' cs"
          by blast
        with \<open>c = h\<close> pat False show False by simp
      qed
      with ih out show ?thesis
        by (simp add: sublist_Cons_right)
    qed
  qed
qed

subsection \<open>Collecting the sources\<close>

lemma get_prop_field: "v \<noteq> Null \<Longrightarrow> v \<noteq> Undefined \<Longrightarrow> get_prop v k = Inr (field v k)"
  by (cases v) (auto simp: field_def split: option.splits)

lemma push_field_eq:
  "video \<noteq> Null \<Longrightarrow> video \<noteq> Undefined \<Longrightarrow>
   push_field video f p acc = Inr (acc @ field_source video f p)"
  by (simp add: push_field_def get_prop_field field_source_def)

lemma forEach_url_eq:
  "bitrate \<noteq> Null \<Longrightarrow> bitrate \<noteq> Undefined \<Longrightarrow>
   forEach_url bitrate index us urlIndex acc =
     Inr (acc @ map (\<lambda>(j, u). bitrate_source index bitrate j u) (enumerate urlIndex us))"
  by (induction us arbitrary: urlIndex acc) (simp_all add: get_prop_field bitrate_source_def)

lemma forEach_bitrate_eq:
  "\<forall>b\<in>set bs. well_shaped b \<Longrightarrow>
   forEach_bitrate bs index acc =
     Inr (acc @ concat (map (\<lambda>(i, b). map (\<lambda>(j, u). bitrate_source i b j u)
                                          (enumerate 0 (mirror_urls b)))
                        (enumerate index bs)))"
proof (induction bs arbitrary: index acc)
  case Nil
  then show ?case by simp
next
  case (Cons b bs)
  from Cons.prems have wb: "well_shaped b" and rest: "\<forall>b\<in>set bs. well_shaped b"
    by simp_all
  from wb have nn: "b \<noteq> Null" "b \<noteq> Undefined"
    by (simp_all add: well_shaped_def)
  show ?case
  proof (cases "truthy (field b ''PlayAddr'')")
    case False
    then show ?thesis
      using Cons.IH [OF rest] nn by (simp add: get_prop_field mirror_urls_def)
  next
    case True
    then have pn: "field b ''PlayAddr'' \<noteq> Null" "field b ''PlayAddr'' \<noteq> Undefined"
      using truthy_not_Null by blast+
    show ?thesis
    proof (cases "truthy (field (field b ''PlayAddr'') ''UrlList'')")
      case False
      then have "elements (field (field b ''PlayAddr'') ''UrlList'') = []"
        by (cases "field (field b ''PlayAddr'') ''UrlList''") simp_all
      with False True show ?thesis
        using Cons.IH [OF rest] nn pn by (simp add: get_prop_field mirror_urls_def)
    next
      case t: True
      with True wb obtain us where us: "field (field b ''PlayAddr'') ''UrlList'' = Arr us"
        by (cases "field (field b ''PlayAddr'') ''UrlList''") (auto simp: well_shaped_def)
      show ?thesis
        using Cons.IH [OF rest] nn pn True us
        by (simp add: get_prop_field mirror_urls_def forEach_url_eq)
    qed
  qed
qed

lemma collect_sources_eq:
  assumes "truthy videoData"
      and "\<forall>bitrate\<in>set (elements (field (field videoData ''video'') ''bitrateInfo'')).
             well_shaped bitrate"
  shows "collect_sources videoData =
           Inr (if truthy (field videoData ''video'')
                then field_source (field videoData ''video'') ''downloadAddr'' 1
                   @ field_source (field videoData ''video'') ''playAddrH264'' 2
                   @ field_source (field videoData ''video'') ''playAddr'' 3
                   @ concat (map (\<lambda>(i, b). map (\<lambda>(j, u). bitrate_source i b j u)
                                               (enumerate 0 (mirror_urls b)))
                               (enumerate 0
                                  (elements (field (field videoData ''video'') ''bitrateInfo''))))
                else [])"
proof -
  let ?video = "field videoData ''video''"
  from assms(1) have vd: "videoData \<noteq> Null" "videoData \<noteq> Undefined"
    using truthy_not_Null by blast+
  show ?thesis
  proof (cases "truthy ?video")
    case False
    then show ?thesis
      using vd by (simp add: collect_sources_def get_prop_field)
  next
    case True
    then have v: "?video \<noteq> Null" "?video \<noteq> Undefined"
      using truthy_not_Null by blast+
    have loop: "(case field ?video ''bitrateInfo'' of
                   Arr bs \<Rightarrow> forEach_bitrate bs 0 acc
                 | _ \<Rightarrow> Inr acc) =
                Inr (acc @ concat (map (\<lambda>(i, b). map (\<lambda>(j, u). bitrate_source i b j u)
                                                    (enumerate 0 (mirror_urls b)))
                                    (enumerate 0 (elements (field ?video ''bitrateInfo'')))))"
      for acc
      using assms(2)
      by (cases "field ?video ''bitrateInfo''") (simp_all add: forEach_bitrate_eq)
    show ?thesis
      using True vd v
      by (simp add: collect_sources_def get_prop_field push_field_eq loop)
  qed
qed

text \<open>
  Claim C2, as amended. For all metadata whose \<^verbatim>\<open>bitrateInfo\<close> entries the loop can read
  (no entry is \<^verbatim>\<open>null\<close>, and a \<^verbatim>\<open>PlayAddr.UrlList\<close> that is there is an array), the sources
  are collected in a fixed order and with fixed priorities: the field \<^verbatim>\<open>downloadAddr\<close>
  with priority 1, \<^verbatim>\<open>playAddrH264\<close> with priority 2, \<^verbatim>\<open>playAddr\<close> with priority 3, then for
  the entry at position \<open>index\<close> of \<^verbatim>\<open>bitrateInfo\<close> one source for each of its mirror
  addresses, all with priority \<open>4 + index\<close>, the quality label of the entry, and the tag
  \<^verbatim>\<open>bitrateInfo[index][urlIndex]\<close>. A field that is missing (or falsy) contributes
  nothing, and nothing is thrown.
\<close>

theorem collect_sources_priorities:
  assumes "truthy videoData"
      and "\<forall>bitrate\<in>set (elements (field (field videoData ''video'') ''bitrateInfo'')).
             well_shaped bitrate"
  shows "collect_sources videoData =
           Inr (if truthy (field videoData ''video'')
                then field_source (field videoData ''video'') ''downloadAddr'' 1
                   @ field_source (field videoData ''video'') ''playAddrH264'' 2
                   @ field_source (field videoData ''video'') ''playAddr'' 3
                   @ concat (map (\<lambda>(index, bitrate).
                                 map (\<lambda>(urlIndex, u).
                                        \<lparr>url = u,
                                         type = ''bitrateInfo['' @ show_nat index @ ''][''
                                                  @ show_nat urlIndex @ '']'',
                                         priority = 4 + int index,
                                         quality = field bitrate ''QualityType''\<rparr>)
                                     (enumerate 0 (mirror_urls bitrate)))
                               (enumerate 0
                                  (elements (field (field videoData ''video'') ''bitrateInfo''))))
                else [])"
proof -
  let ?video = "field videoData ''video''"
  from assms(1) have vd: "videoData \<noteq> Null" "videoData \<noteq> Undefined"
    using truthy_not_Null by blast+
  show ?thesis
  proof (cases "truthy ?video")
    case False
    then show ?thesis
      using vd by (simp add: collect_sources_def get_prop_field)
  next
    case True
    then have v: "?video \<noteq> Null" "?video \<noteq> Undefined"
      using truthy_not_Null by blast+
    have loop: "(case field ?video ''bitrateInfo'' of
                   Arr bs \<Rightarrow> forEach_bitrate bs 0 acc
                 | _ \<Rightarrow> Inr acc) =
                Inr (acc @ concat (map (\<lambda>(i, b). map (\<lambda>(j, u). bitrate_source i b j u)
                                                    (enumerate 0 (mirror_urls b)))
                                    (enumerate 0 (elements (field ?video ''bitrateInfo'')))))"
      for acc
      using assms(2)
      by (cases "field ?video ''bitrateInfo''") (simp_all add: forEach_bitrate_eq)
    show ?thesis
      using True vd v
      by (simp add: collect_sources_def get_prop_field push_field_eq loop bitrate_source_def)
  qed
qed

theorem collect_sources_priorities_witness:
  "truthy md0 \<and>
   well_shaped (Obj [(''QualityType'', Num 20),
                     (''PlayAddr'', Obj [(''UrlList'', Arr [Str ''https://m/0'', Str ''https://m/1''])])]) \<and>
   well_shaped (Obj [(''QualityType'', Num 14)]) \<and>
   well_shaped (Obj [(''PlayAddr'', Obj [(''UrlList'', Arr [Str ''https://n/0''])])]) \<and>
   collect_sources md0 =
     Inr [\<lparr>url = Str ''https://a/h'', type = ''playAddrH264'', priority = 2, quality = Undefined\<rparr>,
          \<lparr>url = Str ''https://a/p'', type = ''playAddr'', priority = 3, quality = Undefined\<rparr>,
          \<lparr>url = Str ''https://m/0'', type = ''bitrateInfo[0][0]'', priority = 4, quality = Num 20\<rparr>,
          \<lparr>url = Str ''https://m/1'', type = ''bitrateInfo[0][1]'', priority = 4, quality = Num 20\<rparr>,
          \<lparr>url = Str ''https://n/0'', type = ''bitrateInfo[2][0]'', priority = 6, quality = Undefined\<rparr>]"
proof -
  have t: "truthy md0"
    by (simp add: md0_def)
  have w: "\<forall>bitrate\<in>set (elements (field (field md0 ''video'') ''bitrateInfo'')). well_shaped bitrate"
    by (simp add: md0_def field_def well_shaped_def)
  show ?thesis
    using collect_sources_priorities [OF t w]
    by (simp add: md0_def field_def well_shaped_def field_source_def mirror_urls_def
          show_nat.simps digit_def enumerate_eq_zip)
qed

text \<open>
  The claim as stated, for every metadata object, fails: collecting throws a
  \<^verbatim>\<open>TypeError\<close>, and gives no source at all, when an entry of \<^verbatim>\<open>bitrateInfo\<close> is \<^verbatim>\<open>null\<close> and
  when a \<^verbatim>\<open>PlayAddr.UrlList\<close> is a string, although the metadata has a play address;
  \<^verbatim>\<open>run\<close> prints the error and returns \<^verbatim>\<open>null\<close>.
\<close>

theorem unreadable_entry_throws:
  "collect_sources md_null_entry = Inl TypeError \<and>
   collect_sources md_string_list = Inl TypeError \<and>
   run net0 (Inr md_null_entry) ''https://www.tiktok.com/@u/video/7'' st0 =
     Some (None, \<lparr>files = Map.empty, head_log = [], get_log = [],
                  stderr = [(''Error getting download address:'', TypeError),
                            (''Error in TikTok downloader:'', Error ''Failed to get video URLs'')]\<rparr>)"
  by (simp add: md_null_entry_def md_string_list_def collect_sources_def push_field_def run_def
        getDownloadAddr_def findBestVideoUrl_def console_error_def st0_def)

subsection \<open>Sorting, testing and selecting\<close>

lemma insert_sorted_by_priority: "insert_sorted by_priority x ys = insort_key priority x ys"
  by (induction ys) (simp_all add: by_priority_def)

lemma array_sort_by_priority: "array_sort by_priority xs = sort_key priority xs"
  by (induction xs) (simp_all add: array_sort_def insert_sorted_by_priority)

lemma array_sort_sorted: "sorted (map priority (array_sort by_priority xs))"
  by (simp add: array_sort_by_priority)

lemma array_sort_stable:
  "filter (\<lambda>c. priority c = k) (array_sort by_priority xs) = filter (\<lambda>c. priority c = k) xs"
  by (simp add: array_sort_by_priority sort_key_stable)

lemma array_sort_set: "set (array_sort by_priority xs) = set xs"
  by (simp add: array_sort_by_priority)

lemma testVideoUrl_probe:
  "testVideoUrl net u st = (probe net u, st\<lparr>head_log := head_log st @ [u]\<rparr>)"
  by (simp add: testVideoUrl_def probe_def)

lemma probe_cases:
  "probe net u = Inr b \<longleftrightarrow> accepts net u \<and> isWorking (http_head net u) = b"
  "probe net u = Inl e \<longleftrightarrow> \<not> accepts net u \<and> e = TypeError"
  by (auto simp: testVideoUrl_def probe_def)

lemma test_sources_fail:
  "map url pre = map Str before \<Longrightarrow>
   \<forall>b\<in>set before. probe net (replaceAll escaped_amp ''&'' b) = Inr False \<Longrightarrow>
   test_sources net (pre @ rest) st =
     test_sources net rest (st\<lparr>head_log := head_log st @ map (replaceAll escaped_amp ''&'') before\<rparr>)"
proof (induction pre arbitrary: before st)
  case Nil
  then show ?case by simp
next
  case (Cons c pre)
  then obtain b bs where b: "before = b # bs" "url c = Str b" "map url pre = map Str bs"
    by (cases before) auto
  with Cons.prems have f: "probe net (replaceAll escaped_amp ''&'' b) = Inr False"
    and r: "\<forall>b\<in>set bs. probe net (replaceAll escaped_amp ''&'' b) = Inr False"
    by simp_all
  show ?case
    using Cons.IH [OF b(3) r] b f by (simp add: testVideoUrl_probe del: replaceAll.simps)
qed

lemma test_sources_hit:
  "url source = Str s \<Longrightarrow> probe net (replaceAll escaped_amp ''&'' s) = Inr True \<Longrightarrow>
   test_sources net (source # post) st =
     (Inr (Some \<lparr>originalUrl = replaceAll escaped_amp ''&'' s, rtype = type source,
                 rpriority = priority source\<rparr>),
      st\<lparr>head_log := head_log st @ [replaceAll escaped_amp ''&'' s]\<rparr>)"
  by (simp add: testVideoUrl_probe del: replaceAll.simps)

lemma test_sources_throw:
  "url source = Str s \<Longrightarrow> probe net (replaceAll escaped_amp ''&'' s) = Inl e \<Longrightarrow>
   test_sources net (source # post) st =
     (Inl e, st\<lparr>head_log := head_log st @ [replaceAll escaped_amp ''&'' s]\<rparr>)"
  by (simp add: testVideoUrl_probe del: replaceAll.simps)

lemma bitrate_sources_sorted:
  "sorted (map priority (concat (map (\<lambda>(i, b). map (\<lambda>(j, u). bitrate_source i b j u)
                                                    (enumerate 0 (mirror_urls b)))
                                      (enumerate n bs)))) \<and>
   (\<forall>c\<in>set (concat (map (\<lambda>(i, b). map (\<lambda>(j, u). bitrate_source i b j u)
                                                    (enumerate 0 (mirror_urls b)))
                                      (enumerate n bs))). 4 + int n \<le> priority c)"
proof (induction bs arbitrary: n)
  case Nil
  then show ?case by simp
next
  case (Cons b bs)
  have here: "\<forall>c\<in>set (map (\<lambda>(j, u). bitrate_source n b j u) (enumerate 0 (mirror_urls b))).
                priority c = 4 + int n"
    by (auto simp: bitrate_source_def)
  then have s1: "sorted (map priority (map (\<lambda>(j, u). bitrate_source n b j u) (enumerate 0 (mirror_urls b))))"
    by (simp add: sorted_wrt_iff_nth_less sorted_map)
  from Cons.IH [of "Suc n"] have s2: "sorted (map priority (concat (map (\<lambda>(i, b). map (\<lambda>(j, u). bitrate_source i b j u)
                                                    (enumerate 0 (mirror_urls b)))
                                      (enumerate (Suc n) bs))))"
    and ge: "\<forall>c\<in>set (concat (map (\<lambda>(i, b). map (\<lambda>(j, u). bitrate_source i b j u)
                                                    (enumerate 0 (mirror_urls b)))
                                      (enumerate (Suc n) bs))). 4 + int (Suc n) \<le> priority c"
    by simp_all
  show ?case
    using here s1 s2 ge by (fastforce simp: sorted_append)
qed

lemma select_source_hit:
  assumes "array_sort by_priority videoSources = pre @ source # post"
      and "map url pre = map Str before"
      and "\<forall>b\<in>set before. probe net (replaceAll escaped_amp ''&'' b) = Inr False"
      and "url source = Str s"
      and "probe net (replaceAll escaped_amp ''&'' s) = Inr True"
  shows "select_source net videoSources st =
           (Inr \<lparr>originalUrl = replaceAll escaped_amp ''&'' s, rtype = type source,
                 rpriority = priority source\<rparr>,
            st\<lparr>head_log := head_log st @ map (replaceAll escaped_amp ''&'') before
                                       @ [replaceAll escaped_amp ''&'' s]\<rparr>)"
  by (simp add: select_source_def assms(1) test_sources_fail [OF assms(2) assms(3)]
        test_sources_hit [OF assms(4) assms(5)] del: replaceAll.simps test_sources.simps)

lemma select_source_throw:
  assumes "array_sort by_priority videoSources = pre @ source # post"
      and "map url pre = map Str before"
      and "\<forall>b\<in>set before. probe net (replaceAll escaped_amp ''&'' b) = Inr False"
      and "url source = Str s"
      and "probe net (replaceAll escaped_amp ''&'' s) = Inl e"
  shows "select_source net videoSources st =
           (Inl e, st\<lparr>head_log := head_log st @ map (replaceAll escaped_amp ''&'') before
                                       @ [replaceAll escaped_amp ''&'' s]\<rparr>)"
  by (simp add: select_source_def assms(1) test_sources_fail [OF assms(2) assms(3)]
        test_sources_throw [OF assms(4) assms(5)] del: replaceAll.simps test_sources.simps)

lemma three_fields_playAddr:
  assumes vd: "truthy videoData"
      and ws: "\<forall>bitrate\<in>set (elements (field (field videoData ''video'') ''bitrateInfo'')).
             well_shaped bitrate"
      and d: "field (field videoData ''video'') ''downloadAddr'' = Str d" "d \<noteq> []"
      and h: "field (field videoData ''video'') ''playAddrH264'' = Str h" "h \<noteq> []"
      and p: "field (field videoData ''video'') ''playAddr'' = Str p" "p \<noteq> []"
      and nd: "probe net (replaceAll escaped_amp ''&'' d) = Inr False"
      and nh: "probe net (replaceAll escaped_amp ''&'' h) = Inr False"
      and yp: "probe net (replaceAll escaped_amp ''&'' p) = Inr True"
  shows "findBestVideoUrl net videoData st =
           (Inr \<lparr>originalUrl = replaceAll escaped_amp ''&'' p, rtype = ''playAddr'', rpriority = 3\<rparr>,
            st\<lparr>head_log := head_log st @ [replaceAll escaped_amp ''&'' d,
                                            replaceAll escaped_amp ''&'' h,
                                            replaceAll escaped_amp ''&'' p]\<rparr>)"
proof -
  let ?video = "field videoData ''video''"
  let ?bs = "concat (map (\<lambda>(i, b). map (\<lambda>(j, u). bitrate_source i b j u)
                                               (enumerate 0 (mirror_urls b)))
                               (enumerate 0 (elements (field ?video ''bitrateInfo''))))"
  let ?c1 = "\<lparr>url = Str d, type = ''downloadAddr'', priority = 1, quality = Undefined\<rparr>"
  let ?c2 = "\<lparr>url = Str h, type = ''playAddrH264'', priority = 2, quality = Undefined\<rparr>"
  let ?c3 = "\<lparr>url = Str p, type = ''playAddr'', priority = 3, quality = Undefined\<rparr>"
  have tv: "truthy ?video"
  proof (rule ccontr)
    assume "\<not> truthy ?video"
    then have "field ?video ''downloadAddr'' = Undefined"
      by (cases ?video) (simp_all add: field_def)
    with d show False by simp
  qed
  have cs: "collect_sources videoData = Inr (?c1 # ?c2 # ?c3 # ?bs)"
    using collect_sources_eq [OF vd ws] tv d h p by (simp add: field_source_def)
  have "sorted (map priority (?c1 # ?c2 # ?c3 # ?bs))"
    using bitrate_sources_sorted [of 0 "elements (field ?video ''bitrateInfo'')"]
    by fastforce
  then have srt: "array_sort by_priority (?c1 # ?c2 # ?c3 # ?bs) = [?c1, ?c2] @ ?c3 # ?bs"
    by (simp only: array_sort_by_priority sort_key_id_if_sorted append_Cons append_Nil)
  have "select_source net (?c1 # ?c2 # ?c3 # ?bs) st =
          (Inr \<lparr>originalUrl = replaceAll escaped_amp ''&'' p, rtype = type ?c3, rpriority = priority ?c3\<rparr>,
            st\<lparr>head_log := head_log st @ map (replaceAll escaped_amp ''&'') [d, h]
                                       @ [replaceAll escaped_amp ''&'' p]\<rparr>)"
    by (rule select_source_hit [OF srt]) (simp_all add: nd nh yp)
  then show ?thesis
    by (simp add: findBestVideoUrl_def cs)
qed

text \<open>
  Selection when the tests are settled. The sources are sorted by priority, ascending and
  stably (the sources of one priority keep their order), and tested in that order: when
  the sorted sources are \<open>pre @ source # post\<close>, the tests of the addresses of \<open>pre\<close>
  resolve to \<^verbatim>\<open>false\<close> and the test of the address of \<open>source\<close> resolves to \<^verbatim>\<open>true\<close>, the
  result is \<open>source\<close>, and \<^verbatim>\<open>https.request\<close> has been called for \<open>pre\<close> and \<open>source\<close>, in
  this order. The address tested and returned is the address of the source with every
  \<^verbatim>\<open>\u0026\<close> replaced by \<^verbatim>\<open>&\<close>, and none is left in it. In particular, for readable
  metadata with \<^verbatim>\<open>downloadAddr\<close>, \<^verbatim>\<open>playAddrH264\<close> and \<^verbatim>\<open>playAddr\<close>, where the tests of the
  first two resolve to \<^verbatim>\<open>false\<close> and the test of the last to \<^verbatim>\<open>true\<close>,
  \<^verbatim>\<open>findBestVideoUrl\<close> returns the \<^verbatim>\<open>playAddr\<close> source after testing the other two.
\<close>

theorem select_source_first_accessible:
  "sorted (map priority (array_sort by_priority videoSources)) \<and>
   (\<forall>k. filter (\<lambda>c. priority c = k) (array_sort by_priority videoSources)
          = filter (\<lambda>c. priority c = k) videoSources) \<and>
   (array_sort by_priority videoSources = pre @ source # post \<and>
    map url pre = map Str before \<and>
    (\<forall>b\<in>set before. probe net (replaceAll escaped_amp ''&'' b) = Inr False) \<and>
    url source = Str s \<and>
    probe net (replaceAll escaped_amp ''&'' s) = Inr True
    \<longrightarrow> select_source net videoSources st =
          (Inr \<lparr>originalUrl = replaceAll escaped_amp ''&'' s, rtype = type source,
                rpriority = priority source\<rparr>,
           st\<lparr>head_log := head_log st @ map (replaceAll escaped_amp ''&'') before
                                      @ [replaceAll escaped_amp ''&'' s]\<rparr>)) \<and>
   \<not> sublist escaped_amp (replaceAll escaped_amp ''&'' s) \<and>
   (truthy videoData \<and>
    (\<forall>bitrate\<in>set (elements (field (field videoData ''video'') ''bitrateInfo'')).
        well_shaped bitrate) \<and>
    field (field videoData ''video'') ''downloadAddr'' = Str d \<and> d \<noteq> [] \<and>
    field (field videoData ''video'') ''playAddrH264'' = Str h \<and> h \<noteq> [] \<and>
    field (field videoData ''video'') ''playAddr'' = Str p \<and> p \<noteq> [] \<and>
    probe net (replaceAll escaped_amp ''&'' d) = Inr False \<and>
    probe net (replaceAll escaped_amp ''&'' h) = Inr False \<and>
    probe net (replaceAll escaped_amp ''&'' p) = Inr True
    \<longrightarrow> findBestVideoUrl net videoData st =
          (Inr \<lparr>originalUrl = replaceAll escaped_amp ''&'' p, rtype = ''playAddr'', rpriority = 3\<rparr>,
           st\<lparr>head_log := head_log st @ [replaceAll escaped_amp ''&'' d,
                                           replaceAll escaped_amp ''&'' h,
                                           replaceAll escaped_amp ''&'' p]\<rparr>))"
proof (intro conjI impI allI)
  show "sorted (map priority (array_sort by_priority videoSources))"
    by (rule array_sort_sorted)
next
  fix k
  show "filter (\<lambda>c. priority c = k) (array_sort by_priority videoSources)
          = filter (\<lambda>c. priority c = k) videoSources"
    by (rule array_sort_stable)
next
  assume "array_sort by_priority videoSources = pre @ source # post \<and>
    map url pre = map Str before \<and>
    (\<forall>b\<in>set before. probe net (replaceAll escaped_amp ''&'' b) = Inr False) \<and>
    url source = Str s \<and>
    probe net (replaceAll escaped_amp ''&'' s) = Inr True"
  then show "select_source net videoSources st =
          (Inr \<lparr>originalUrl = replaceAll escaped_amp ''&'' s, rtype = type source,
                rpriority = priority source\<rparr>,
           st\<lparr>head_log := head_log st @ map (replaceAll escaped_amp ''&'') before
                                      @ [replaceAll escaped_amp ''&'' s]\<rparr>)"
    using select_source_hit by blast
next
  show "\<not> sublist escaped_amp (replaceAll escaped_amp ''&'' s)"
    unfolding escaped_amp_def
    by (rule replaceAll_none_left [where h = "CHR 0x5C" and p' = "''u0026''"
          and r = "CHR ''&''" and r' = "[]"]) simp_all
next
  assume "truthy videoData \<and>
    (\<forall>bitrate\<in>set (elements (field (field videoData ''video'') ''bitrateInfo'')).
        well_shaped bitrate) \<and>
    field (field videoData ''video'') ''downloadAddr'' = Str d \<and> d \<noteq> [] \<and>
    field (field videoData ''video'') ''playAddrH264'' = Str h \<and> h \<noteq> [] \<and>
    field (field videoData ''video'') ''playAddr'' = Str p \<and> p \<noteq> [] \<and>
    probe net (replaceAll escaped_amp ''&'' d) = Inr False \<and>
    probe net (replaceAll escaped_amp ''&'' h) = Inr False \<and>
    probe net (replaceAll escaped_amp ''&'' p) = Inr True"
  then show "findBestVideoUrl net videoData st =
          (Inr \<lparr>originalUrl = replaceAll escaped_amp ''&'' p, rtype = ''playAddr'', rpriority = 3\<rparr>,
           st\<lparr>head_log := head_log st @ [replaceAll escaped_amp ''&'' d,
                                           replaceAll escaped_amp ''&'' h,
                                           replaceAll escaped_amp ''&'' p]\<rparr>)"
    using three_fields_playAddr by blast
qed

lemma cands0_sorted:
  "array_sort by_priority cands0 =
     [\<lparr>url = Str ''https://a/d'', type = ''downloadAddr'', priority = 1, quality = Undefined\<rparr>,
      \<lparr>url = Str ''https://a/h'', type = ''playAddrH264'', priority = 2, quality = Undefined\<rparr>]
     @ \<lparr>url = Str amp_url, type = ''playAddr'', priority = 3, quality = Undefined\<rparr>
     # [\<lparr>url = Str ''https://a/q'', type = ''other'', priority = 3, quality = Undefined\<rparr>,
        \<lparr>url = Str ''https://m/0'', type = ''bitrateInfo[0][0]'', priority = 4, quality = Num 20\<rparr>]"
  by (simp add: cands0_def array_sort_def by_priority_def)

lemma unescape_amp_url: "replaceAll escaped_amp ''&'' amp_url = ''https://a/p?x=1&y=2&z=3''"
  by (simp add: amp_url_def escaped_amp_def)

lemma net0_probes:
  "probe net0 ''https://a/d'' = Inr False"
  "probe net0 ''https://a/h'' = Inr False"
  "probe net0 ''https://a/p?x=1&y=2&z=3'' = Inr True"
  "probe net0 ''https://a/q'' = Inr True"
  "probe net0 ''http://a/d'' = Inl TypeError"
  by (simp_all add: probe_def testVideoUrl_def net0_def https_address_def)

theorem select_source_first_accessible_witness:
  "array_sort by_priority cands0 =
     [\<lparr>url = Str ''https://a/d'', type = ''downloadAddr'', priority = 1, quality = Undefined\<rparr>,
      \<lparr>url = Str ''https://a/h'', type = ''playAddrH264'', priority = 2, quality = Undefined\<rparr>,
      \<lparr>url = Str amp_url, type = ''playAddr'', priority = 3, quality = Undefined\<rparr>,
      \<lparr>url = Str ''https://a/q'', type = ''other'', priority = 3, quality = Undefined\<rparr>,
      \<lparr>url = Str ''https://m/0'', type = ''bitrateInfo[0][0]'', priority = 4, quality = Num 20\<rparr>] \<and>
   probe net0 ''https://a/d'' = Inr False \<and>
   probe net0 ''https://a/h'' = Inr False \<and>
   probe net0 ''https://a/p?x=1&y=2&z=3'' = Inr True \<and>
   probe net0 ''https://a/q'' = Inr True \<and>
   select_source net0 cands0 st0 =
     (Inr \<lparr>originalUrl = ''https://a/p?x=1&y=2&z=3'', rtype = ''playAddr'', rpriority = 3\<rparr>,
      st0\<lparr>head_log := [''https://a/d'', ''https://a/h'', ''https://a/p?x=1&y=2&z=3'']\<rparr>) \<and>
   findBestVideoUrl net0 md1 st0 =
     (Inr \<lparr>originalUrl = ''https://a/p?x=1&y=2&z=3'', rtype = ''playAddr'', rpriority = 3\<rparr>,
      st0\<lparr>head_log := [''https://a/d'', ''https://a/h'', ''https://a/p?x=1&y=2&z=3'']\<rparr>)"
proof -
  let ?d = "\<lparr>url = Str ''https://a/d'', type = ''downloadAddr'', priority = 1, quality = Undefined\<rparr>"
  let ?h = "\<lparr>url = Str ''https://a/h'', type = ''playAddrH264'', priority = 2, quality = Undefined\<rparr>"
  let ?p = "\<lparr>url = Str amp_url, type = ''playAddr'', priority = 3, quality = Undefined\<rparr>"
  let ?q = "\<lparr>url = Str ''https://a/q'', type = ''other'', priority = 3, quality = Undefined\<rparr>"
  let ?m = "\<lparr>url = Str ''https://m/0'', type = ''bitrateInfo[0][0]'', priority = 4, quality = Num 20\<rparr>"
  note T = select_source_first_accessible [where videoSources = cands0
      and pre = "[?d, ?h]" and source = ?p and post = "[?q, ?m]"
      and before = "[''https://a/d'', ''https://a/h'']"
      and s = amp_url and net = net0 and st = st0 and videoData = md1
      and d = "''https://a/d''" and h = "''https://a/h''" and p = amp_url]
  have ud: "replaceAll escaped_amp ''&'' ''https://a/d'' = ''https://a/d''"
    by (simp add: escaped_amp_def)
  have uh: "replaceAll escaped_amp ''&'' ''https://a/h'' = ''https://a/h''"
    by (simp add: escaped_amp_def)
  note nd = net0_probes(1) and nh = net0_probes(2) and yp = net0_probes(3) and yq = net0_probes(4)
  have h1: "array_sort by_priority cands0 = [?d, ?h] @ ?p # [?q, ?m] \<and>
    map url [?d, ?h] = map Str [''https://a/d'', ''https://a/h''] \<and>
    (\<forall>b\<in>set [''https://a/d'', ''https://a/h''].
        probe net0 (replaceAll escaped_amp ''&'' b) = Inr False) \<and>
    url ?p = Str amp_url \<and>
    probe net0 (replaceAll escaped_amp ''&'' amp_url) = Inr True"
    using cands0_sorted by (simp add: ud uh nd nh yp unescape_amp_url del: replaceAll.simps)
  have amp_ne: "amp_url \<noteq> []"
    by (simp add: amp_url_def)
  have h2: "truthy md1 \<and>
    (\<forall>bitrate\<in>set (elements (field (field md1 ''video'') ''bitrateInfo'')).
        well_shaped bitrate) \<and>
    field (field md1 ''video'') ''downloadAddr'' = Str ''https://a/d'' \<and> ''https://a/d'' \<noteq> [] \<and>
    field (field md1 ''video'') ''playAddrH264'' = Str ''https://a/h'' \<and> ''https://a/h'' \<noteq> [] \<and>
    field (field md1 ''video'') ''playAddr'' = Str amp_url \<and> amp_url \<noteq> [] \<and>
    probe net0 (replaceAll escaped_amp ''&'' ''https://a/d'') = Inr False \<and>
    probe net0 (replaceAll escaped_amp ''&'' ''https://a/h'') = Inr False \<and>
    probe net0 (replaceAll escaped_amp ''&'' amp_url) = Inr True"
    by (simp add: md1_def field_def amp_ne ud uh nd nh yp unescape_amp_url del: replaceAll.simps)
  have sel: "select_source net0 cands0 st0 =
     (Inr \<lparr>originalUrl = ''https://a/p?x=1&y=2&z=3'', rtype = ''playAddr'', rpriority = 3\<rparr>,
      st0\<lparr>head_log := [''https://a/d'', ''https://a/h'', ''https://a/p?x=1&y=2&z=3'']\<rparr>)"
    using T [THEN conjunct2, THEN conjunct2, THEN conjunct1, THEN mp, OF h1]
    by (simp add: ud uh unescape_amp_url st0_def del: replaceAll.simps)
  have fnd: "findBestVideoUrl net0 md1 st0 =
     (Inr \<lparr>originalUrl = ''https://a/p?x=1&y=2&z=3'', rtype = ''playAddr'', rpriority = 3\<rparr>,
      st0\<lparr>head_log := [''https://a/d'', ''https://a/h'', ''https://a/p?x=1&y=2&z=3'']\<rparr>)"
    using T [THEN conjunct2, THEN conjunct2, THEN conjunct2, THEN conjunct2, THEN mp, OF h2]
    by (simp add: ud uh unescape_amp_url st0_def del: replaceAll.simps)
  show ?thesis
    using cands0_sorted nd nh yp yq sel fnd by simp
qed

text \<open>
  A test that is rejected ends the selection. When the sorted sources are
  \<open>pre @ source # post\<close>, the tests of the addresses of \<open>pre\<close> resolve to \<^verbatim>\<open>false\<close> and
  \<^verbatim>\<open>https.request\<close> does not accept the address of \<open>source\<close>, a \<^verbatim>\<open>TypeError\<close> is thrown: no
  source of \<open>post\<close> is tested, and there is no fallback.
\<close>

theorem rejected_probe_stops_selection:
  "array_sort by_priority videoSources = pre @ source # post \<and>
   map url pre = map Str before \<and>
   (\<forall>b\<in>set before. probe net (replaceAll escaped_amp ''&'' b) = Inr False) \<and>
   url source = Str s \<and>
   \<not> accepts net (replaceAll escaped_amp ''&'' s)
   \<longrightarrow> select_source net videoSources st =
         (Inl TypeError,
          st\<lparr>head_log := head_log st @ map (replaceAll escaped_amp ''&'') before
                                     @ [replaceAll escaped_amp ''&'' s]\<rparr>)"
proof
  assume a: "array_sort by_priority videoSources = pre @ source # post \<and>
   map url pre = map Str before \<and>
   (\<forall>b\<in>set before. probe net (replaceAll escaped_amp ''&'' b) = Inr False) \<and>
   url source = Str s \<and>
   \<not> accepts net (replaceAll escaped_amp ''&'' s)"
  then have "probe net (replaceAll escaped_amp ''&'' s) = Inl TypeError"
    by (simp add: probe_cases del: replaceAll.simps)
  with a show "select_source net videoSources st =
         (Inl TypeError,
          st\<lparr>head_log := head_log st @ map (replaceAll escaped_amp ''&'') before
                                     @ [replaceAll escaped_amp ''&'' s]\<rparr>)"
    using select_source_throw by blast
qed

theorem rejected_probe_stops_selection_witness:
  "array_sort by_priority cands_http =
     [\<lparr>url = Str ''https://a/d'', type = ''downloadAddr'', priority = 1, quality = Undefined\<rparr>,
      \<lparr>url = Str ''http://a/h'', type = ''playAddrH264'', priority = 2, quality = Undefined\<rparr>,
      \<lparr>url = Str ''https://a/q'', type = ''playAddr'', priority = 3, quality = Undefined\<rparr>] \<and>
   probe net0 ''https://a/d'' = Inr False \<and>
   \<not> accepts net0 ''http://a/h'' \<and>
   probe net0 ''https://a/q'' = Inr True \<and>
   select_source net0 cands_http st0 =
     (Inl TypeError, st0\<lparr>head_log := [''https://a/d'', ''http://a/h'']\<rparr>)"
proof -
  let ?d = "\<lparr>url = Str ''https://a/d'', type = ''downloadAddr'', priority = 1, quality = Undefined\<rparr>"
  let ?h = "\<lparr>url = Str ''http://a/h'', type = ''playAddrH264'', priority = 2, quality = Undefined\<rparr>"
  let ?q = "\<lparr>url = Str ''https://a/q'', type = ''playAddr'', priority = 3, quality = Undefined\<rparr>"
  have srt: "array_sort by_priority cands_http = [?d] @ ?h # [?q]"
    by (simp add: cands_http_def array_sort_def by_priority_def)
  have ud: "replaceAll escaped_amp ''&'' ''https://a/d'' = ''https://a/d''"
    by (simp add: escaped_amp_def)
  have uh: "replaceAll escaped_amp ''&'' ''http://a/h'' = ''http://a/h''"
    by (simp add: escaped_amp_def)
  have n: "\<not> accepts net0 ''http://a/h''"
    by (simp add: net0_def https_address_def)
  have h: "array_sort by_priority cands_http = [?d] @ ?h # [?q] \<and>
   map url [?d] = map Str [''https://a/d''] \<and>
   (\<forall>b\<in>set [''https://a/d'']. probe net0 (replaceAll escaped_amp ''&'' b) = Inr False) \<and>
   url ?h = Str ''http://a/h'' \<and>
   \<not> accepts net0 (replaceAll escaped_amp ''&'' ''http://a/h'')"
    using srt by (simp add: ud uh n net0_probes del: replaceAll.simps)
  have "select_source net0 cands_http st0 =
     (Inl TypeError, st0\<lparr>head_log := [''https://a/d'', ''http://a/h'']\<rparr>)"
    using rejected_probe_stops_selection [where videoSources = cands_http and pre = "[?d]"
            and source = ?h and post = "[?q]" and before = "[''https://a/d'']"
            and s = "''http://a/h''" and net = net0 and st = st0, THEN mp, OF h]
    by (simp add: ud uh st0_def del: replaceAll.simps)
  with srt n net0_probes show ?thesis
    by simp
qed

text \<open>
  Claim C1 does not hold of the code. The metadata has the three address fields, and only
  the play address can be reached: the download address has the protocol \<^verbatim>\<open>http:\<close>, and
  the test of the H264 address runs into the timeout. For the download address
  \<^verbatim>\<open>https.request\<close> throws, the promise of \<^verbatim>\<open>testVideoUrl\<close> is rejected, and the \<^verbatim>\<open>await\<close> of
  line 140 throws: \<^verbatim>\<open>findBestVideoUrl\<close> ends with a \<^verbatim>\<open>TypeError\<close> after this one call,
  the play address is never tested, and \<^verbatim>\<open>run\<close> prints the error and returns \<^verbatim>\<open>null\<close>.
\<close>

theorem unaccepted_address_stops_selection:
  "collect_sources md_http =
     Inr [\<lparr>url = Str ''http://a/d'', type = ''downloadAddr'', priority = 1, quality = Undefined\<rparr>,
          \<lparr>url = Str ''https://a/h'', type = ''playAddrH264'', priority = 2, quality = Undefined\<rparr>,
          \<lparr>url = Str ''https://a/q'', type = ''playAddr'', priority = 3, quality = Undefined\<rparr>] \<and>
   probe net0 ''http://a/d'' = Inl TypeError \<and>
   probe net0 ''https://a/h'' = Inr False \<and>
   probe net0 ''https://a/q'' = Inr True \<and>
   findBestVideoUrl net0 md_http st0 = (Inl TypeError, st0\<lparr>head_log := [''http://a/d'']\<rparr>) \<and>
   run net0 (Inr md_http) ''https://www.tiktok.com/@u/video/7'' st0 =
     Some (None, \<lparr>files = Map.empty, head_log = [''http://a/d''], get_log = [],
                  stderr = [(''Error getting download address:'', TypeError),
                            (''Error in TikTok downloader:'', Error ''Failed to get video URLs'')]\<rparr>)"
proof -
  have c: "collect_sources md_http =
     Inr [\<lparr>url = Str ''http://a/d'', type = ''downloadAddr'', priority = 1, quality = Undefined\<rparr>,
          \<lparr>url = Str ''https://a/h'', type = ''playAddrH264'', priority = 2, quality = Undefined\<rparr>,
          \<lparr>url = Str ''https://a/q'', type = ''playAddr'', priority = 3, quality = Undefined\<rparr>]"
    by (simp add: md_http_def collect_sources_def push_field_def)
  have f: "findBestVideoUrl net0 md_http st0 = (Inl TypeError, st0\<lparr>head_log := [''http://a/d'']\<rparr>)"
    by (simp add: findBestVideoUrl_def c select_source_def array_sort_def by_priority_def
          testVideoUrl_def net0_def https_address_def st0_def escaped_amp_def)
  have t: "truthy md_http"
    by (simp add: md_http_def)
  have r: "run net0 (Inr md_http) ''https://www.tiktok.com/@u/video/7'' st0 =
     Some (None, \<lparr>files = Map.empty, head_log = [''http://a/d''], get_log = [],
                  stderr = [(''Error getting download address:'', TypeError),
                            (''Error in TikTok downloader:'', Error ''Failed to get video URLs'')]\<rparr>)"
    by (simp add: run_def getDownloadAddr_def t f [unfolded st0_def] console_error_def st0_def)
  show ?thesis
    using c f r net0_probes by simp
qed

subsection \<open>Planning the attempts\<close>

text \<open>
  Claim C4. For an address that contains \<^verbatim>\<open>watermark=1\<close> three attempts are planned
  (original, watermark modified, full parameter modified), for any other address two.
  The first attempt has the address as it is; the second has it with every
  \<^verbatim>\<open>watermark=1\<close> replaced by \<^verbatim>\<open>watermark=0\<close>, so that none is left, which is the address
  itself when it has no such marker.
\<close>

theorem plan_attempts_variants:
  "plan_attempts videoInfo =
     (if sublist ''watermark=1'' (originalUrl videoInfo)
      then [\<lparr>aurl = originalUrl videoInfo, aname = ''Original'', asuffix = ''_original''\<rparr>,
            \<lparr>aurl = replaceAll ''watermark=1'' ''watermark=0'' (originalUrl videoInfo),
             aname = ''Watermark Modified'', asuffix = ''_no_watermark''\<rparr>,
            \<lparr>aurl = replaceAll ''logo=1'' ''logo=0''
                      (replaceAll ''watermark=1'' ''watermark=0'' (originalUrl videoInfo)),
             aname = ''Full Parameter Modified'', asuffix = ''_full_modified''\<rparr>]
      else [\<lparr>aurl = originalUrl videoInfo, aname = ''Original'', asuffix = ''_original''\<rparr>,
            \<lparr>aurl = originalUrl videoInfo,
             aname = ''Watermark Modified'', asuffix = ''_no_watermark''\<rparr>]) \<and>
   \<not> sublist ''watermark=1'' (replaceAll ''watermark=1'' ''watermark=0'' (originalUrl videoInfo))"
proof
  show "plan_attempts videoInfo =
     (if sublist ''watermark=1'' (originalUrl videoInfo)
      then [\<lparr>aurl = originalUrl videoInfo, aname = ''Original'', asuffix = ''_original''\<rparr>,
            \<lparr>aurl = replaceAll ''watermark=1'' ''watermark=0'' (originalUrl videoInfo),
             aname = ''Watermark Modified'', asuffix = ''_no_watermark''\<rparr>,
            \<lparr>aurl = replaceAll ''logo=1'' ''logo=0''
                      (replaceAll ''watermark=1'' ''watermark=0'' (originalUrl videoInfo)),
             aname = ''Full Parameter Modified'', asuffix = ''_full_modified''\<rparr>]
      else [\<lparr>aurl = originalUrl videoInfo, aname = ''Original'', asuffix = ''_original''\<rparr>,
            \<lparr>aurl = originalUrl videoInfo,
             aname = ''Watermark Modified'', asuffix = ''_no_watermark''\<rparr>])"
    by (simp add: plan_attempts_def str_includes_sublist replaceAll_absent)
  show "\<not> sublist ''watermark=1'' (replaceAll ''watermark=1'' ''watermark=0'' (originalUrl videoInfo))"
    by (rule replaceAll_none_left [where h = "CHR ''w''" and p' = "''atermark=1''"
          and r = "CHR ''w''" and r' = "''atermark=0''"]) simp_all
qed

theorem plan_attempts_variants_witness:
  "plan_attempts \<lparr>originalUrl = ''https://v/a?watermark=1&logo=1&w=watermark=1'',
                  rtype = ''playAddr'', rpriority = 3\<rparr> =
     [\<lparr>aurl = ''https://v/a?watermark=1&logo=1&w=watermark=1'',
       aname = ''Original'', asuffix = ''_original''\<rparr>,
      \<lparr>aurl = ''https://v/a?watermark=0&logo=1&w=watermark=0'',
       aname = ''Watermark Modified'', asuffix = ''_no_watermark''\<rparr>,
      \<lparr>aurl = ''https://v/a?watermark=0&logo=0&w=watermark=0'',
       aname = ''Full Parameter Modified'', asuffix = ''_full_modified''\<rparr>] \<and>
   plan_attempts \<lparr>originalUrl = ''https://v/a?logo=1'', rtype = ''playAddr'', rpriority = 3\<rparr> =
     [\<lparr>aurl = ''https://v/a?logo=1'', aname = ''Original'', asuffix = ''_original''\<rparr>,
      \<lparr>aurl = ''https://v/a?logo=1'', aname = ''Watermark Modified'', asuffix = ''_no_watermark''\<rparr>]"
proof -
  have a: "sublist ''watermark=1'' ''https://v/a?watermark=1&logo=1&w=watermark=1''"
    by (simp add: str_includes_sublist [symmetric])
  have b: "\<not> sublist ''watermark=1'' ''https://v/a?logo=1''"
    by (simp add: str_includes_sublist [symmetric])
  have c: "replaceAll ''watermark=1'' ''watermark=0'' ''https://v/a?watermark=1&logo=1&w=watermark=1''
             = ''https://v/a?watermark=0&logo=1&w=watermark=0''"
    by simp
  have d: "replaceAll ''logo=1'' ''logo=0'' ''https://v/a?watermark=0&logo=1&w=watermark=0''
             = ''https://v/a?watermark=0&logo=0&w=watermark=0''"
    by simp
  show ?thesis
    using plan_attempts_variants
            [of "\<lparr>originalUrl = ''https://v/a?watermark=1&logo=1&w=watermark=1'',
                   rtype = ''playAddr'', rpriority = 3\<rparr>", THEN conjunct1]
          plan_attempts_variants
            [of "\<lparr>originalUrl = ''https://v/a?logo=1'', rtype = ''playAddr'', rpriority = 3\<rparr>",
             THEN conjunct1]
    by (simp add: a b c d del: replaceAll.simps)
qed

subsection \<open>No sources\<close>

lemma no_sources_fails:
  assumes "truthy videoData" "collect_sources videoData = Inr []"
  shows "findBestVideoUrl net videoData st = (Inl (Error ''No video sources found''), st)"
    and "run net (Inr videoData) pageUrl st =
           Some (None, st\<lparr>stderr := stderr st @
                   [(''Error getting download address:'', Error ''No video sources found''),
                    (''Error in TikTok downloader:'', Error ''Failed to get video URLs'')]\<rparr>)"
  using assms
  by (simp_all add: findBestVideoUrl_def run_def getDownloadAddr_def console_error_def)

lemma no_mirrors_concat:
  "\<forall>b\<in>set bs. mirror_urls b = [] \<Longrightarrow>
   concat (map (\<lambda>(i, b). map (\<lambda>(j, u). bitrate_source i b j u) (enumerate 0 (mirror_urls b)))
               (enumerate n bs)) = []"
  by (induction bs arbitrary: n) simp_all

text \<open>
  Claim C9. For metadata without a \<^verbatim>\<open>video\<close> object, and for metadata whose \<^verbatim>\<open>video\<close> has
  none of the address fields and only \<^verbatim>\<open>bitrateInfo\<close> entries without addresses, no source
  is collected and nothing is thrown while collecting. Whenever no source is collected,
  \<^verbatim>\<open>findBestVideoUrl\<close> throws the error \<^verbatim>\<open>No video sources found\<close> without sending a
  request, and \<^verbatim>\<open>run\<close> prints it and returns \<^verbatim>\<open>null\<close>.
\<close>

theorem no_video_no_sources:
  "truthy videoData \<longrightarrow>
     (\<not> truthy (field videoData ''video'') \<longrightarrow> collect_sources videoData = Inr []) \<and>
     (\<not> truthy (field (field videoData ''video'') ''downloadAddr'') \<and>
      \<not> truthy (field (field videoData ''video'') ''playAddrH264'') \<and>
      \<not> truthy (field (field videoData ''video'') ''playAddr'') \<and>
      (\<forall>bitrate\<in>set (elements (field (field videoData ''video'') ''bitrateInfo'')).
          well_shaped bitrate \<and> mirror_urls bitrate = [])
      \<longrightarrow> collect_sources videoData = Inr []) \<and>
     (collect_sources videoData = Inr [] \<longrightarrow>
        findBestVideoUrl net videoData st = (Inl (Error ''No video sources found''), st) \<and>
        run net (Inr videoData) pageUrl st =
          Some (None, st\<lparr>stderr := stderr st @
                  [(''Error getting download address:'', Error ''No video sources found''),
                   (''Error in TikTok downloader:'', Error ''Failed to get video URLs'')]\<rparr>))"
proof (intro impI conjI)
  assume t: "truthy videoData"
  {
    assume "\<not> truthy (field videoData ''video'')"
    moreover from this have "elements (field (field videoData ''video'') ''bitrateInfo'') = []"
      by (cases "field videoData ''video''") (simp_all add: field_def)
    ultimately show "collect_sources videoData = Inr []"
      using collect_sources_eq [OF t] by simp
  next
    assume a: "\<not> truthy (field (field videoData ''video'') ''downloadAddr'') \<and>
      \<not> truthy (field (field videoData ''video'') ''playAddrH264'') \<and>
      \<not> truthy (field (field videoData ''video'') ''playAddr'') \<and>
      (\<forall>bitrate\<in>set (elements (field (field videoData ''video'') ''bitrateInfo'')).
          well_shaped bitrate \<and> mirror_urls bitrate = [])"
    then have "collect_sources videoData =
      Inr (if truthy (field videoData ''video'')
                then field_source (field videoData ''video'') ''downloadAddr'' 1
                   @ field_source (field videoData ''video'') ''playAddrH264'' 2
                   @ field_source (field videoData ''video'') ''playAddr'' 3
                   @ concat (map (\<lambda>(i, b). map (\<lambda>(j, u). bitrate_source i b j u)
                                               (enumerate 0 (mirror_urls b)))
                               (enumerate 0
                                  (elements (field (field videoData ''video'') ''bitrateInfo''))))
                else [])"
      using collect_sources_eq [OF t] by blast
    with a show "collect_sources videoData = Inr []"
      by (simp add: field_source_def no_mirrors_concat)
  next
    assume "collect_sources videoData = Inr []"
    with t show "findBestVideoUrl net videoData st = (Inl (Error ''No video sources found''), st)"
      and "run net (Inr videoData) pageUrl st =
          Some (None, st\<lparr>stderr := stderr st @
                  [(''Error getting download address:'', Error ''No video sources found''),
                   (''Error in TikTok downloader:'', Error ''Failed to get video URLs'')]\<rparr>)"
      by (rule no_sources_fails)+
  }
qed

theorem no_video_no_sources_witness:
  "truthy md_no_video \<and> \<not> truthy (field md_no_video ''video'') \<and>
   collect_sources md_no_video = Inr [] \<and>
   collect_sources md_empty_video = Inr [] \<and>
   findBestVideoUrl net0 md_no_video st0 = (Inl (Error ''No video sources found''), st0) \<and>
   run net0 (Inr md_no_video) ''https://www.tiktok.com/@u/video/7'' st0 =
     Some (None, st0\<lparr>stderr :=
             [(''Error getting download address:'', Error ''No video sources found''),
              (''Error in TikTok downloader:'', Error ''Failed to get video URLs'')]\<rparr>)"
proof -
  note T = no_video_no_sources [where videoData = md_no_video and net = net0 and st = st0
             and pageUrl = "''https://www.tiktok.com/@u/video/7''"]
  note E = no_video_no_sources [where videoData = md_empty_video and net = net0 and st = st0
             and pageUrl = "''https://www.tiktok.com/@u/video/7''"]
  have t: "truthy md_no_video" and nv: "\<not> truthy (field md_no_video ''video'')"
    by (simp_all add: md_no_video_def field_def)
  have c: "collect_sources md_no_video = Inr []"
    using T [THEN mp, OF t, THEN conjunct1, THEN mp, OF nv] .
  have te: "truthy md_empty_video"
    by (simp add: md_empty_video_def)
  have he: "\<not> truthy (field (field md_empty_video ''video'') ''downloadAddr'') \<and>
      \<not> truthy (field (field md_empty_video ''video'') ''playAddrH264'') \<and>
      \<not> truthy (field (field md_empty_video ''video'') ''playAddr'') \<and>
      (\<forall>bitrate\<in>set (elements (field (field md_empty_video ''video'') ''bitrateInfo'')).
          well_shaped bitrate \<and> mirror_urls bitrate = [])"
    by (simp add: md_empty_video_def field_def well_shaped_def mirror_urls_def)
  have ce: "collect_sources md_empty_video = Inr []"
    using E [THEN mp, OF te, THEN conjunct2, THEN conjunct1, THEN mp, OF he] .
  have r: "findBestVideoUrl net0 md_no_video st0 = (Inl (Error ''No video sources found''), st0) \<and>
        run net0 (Inr md_no_video) ''https://www.tiktok.com/@u/video/7'' st0 =
          Some (None, st0\<lparr>stderr := stderr st0 @
                  [(''Error getting download address:'', Error ''No video sources found''),
                   (''Error in TikTok downloader:'', Error ''Failed to get video URLs'')]\<rparr>)"
    using T [THEN mp, OF t, THEN conjunct2, THEN conjunct2, THEN mp, OF c] .
  have s: "stderr st0 = []"
    by (simp add: st0_def)
  show ?thesis
    using t nv c ce r by (simp add: s)
qed

subsection \<open>The fallback\<close>

lemma basicClean_cleaned: "isString (url c) \<Longrightarrow> basicClean (url c) = Inr (cleaned c)"
  by (cases "url c") (simp_all add: cleaned_def address_def)

lemma testVideoUrl_cleaned:
  "testVideoUrl net (cleaned c) st = (probe net (cleaned c), st\<lparr>head_log := head_log st @ [cleaned c]\<rparr>)"
  by (rule testVideoUrl_probe)

lemma test_sources_all_fail:
  "\<forall>c\<in>set cs. isString (url c) \<Longrightarrow>
   \<forall>c\<in>set cs. probe net (cleaned c) = Inr False \<Longrightarrow>
   test_sources net cs st = (Inr None, st\<lparr>head_log := head_log st @ map cleaned cs\<rparr>)"
  by (induction cs arbitrary: st) (simp_all add: basicClean_cleaned testVideoUrl_cleaned)

lemma test_sources_some_other:
  "\<forall>c\<in>set cs. isString (url c) \<Longrightarrow>
   \<exists>c\<in>set cs. probe net (cleaned c) \<noteq> Inr False \<Longrightarrow>
   \<exists>st'. (\<exists>r. test_sources net cs st = (Inr (Some r), st')) \<or>
          test_sources net cs st = (Inl TypeError, st')"
proof (induction cs arbitrary: st)
  case Nil
  then show ?case by simp
next
  case (Cons c cs)
  from Cons.prems have b: "basicClean (url c) = Inr (cleaned c)"
    by (simp add: basicClean_cleaned)
  show ?case
  proof (cases "probe net (cleaned c)")
    case (Inl e)
    then have "e = TypeError"
      by (simp add: probe_cases)
    with Inl b show ?thesis
      by (simp add: testVideoUrl_cleaned)
  next
    case (Inr ok)
    show ?thesis
    proof (cases ok)
      case True
      with Inr b show ?thesis
        by (simp add: testVideoUrl_cleaned)
    next
      case False
      with Inr Cons.prems have "\<exists>c\<in>set cs. probe net (cleaned c) \<noteq> Inr False"
        by auto
      with Cons.IH Cons.prems Inr False b show ?thesis
        by (simp add: testVideoUrl_cleaned)
    qed
  qed
qed

lemma find_playAddr_sorted:
  "(find (\<lambda>s. type s = ''playAddr'') (array_sort by_priority videoSources) = None)
     = (\<forall>c\<in>set videoSources. type c \<noteq> ''playAddr'')"
  by (simp only: find_None_iff array_sort_set) blast

lemma select_source_all_fail:
  assumes "\<forall>c\<in>set videoSources. isString (url c)"
      and "\<forall>c\<in>set videoSources. probe net (cleaned c) = Inr False"
  shows "select_source net videoSources st =
           (case find (\<lambda>s. type s = ''playAddr'') (array_sort by_priority videoSources) of
              Some fallback \<Rightarrow>
                Inr \<lparr>originalUrl = cleaned fallback, rtype = ''playAddr (fallback)'',
                     rpriority = priority fallback\<rparr>
            | None \<Rightarrow> Inl (Error ''No accessible video URLs found''),
            st\<lparr>head_log := head_log st @ map cleaned (array_sort by_priority videoSources)\<rparr>)"
proof -
  let ?sorted = "array_sort by_priority videoSources"
  from assms have s: "\<forall>c\<in>set ?sorted. isString (url c)"
    and f: "\<forall>c\<in>set ?sorted. probe net (cleaned c) = Inr False"
    by (simp_all only: array_sort_set)
  have loop: "test_sources net ?sorted st = (Inr None, st\<lparr>head_log := head_log st @ map cleaned ?sorted\<rparr>)"
    by (rule test_sources_all_fail [OF s f])
  show ?thesis
  proof (cases "find (\<lambda>s. type s = ''playAddr'') ?sorted")
    case None
    then show ?thesis
      by (simp add: select_source_def loop)
  next
    case (Some fallback)
    then have "fallback \<in> set ?sorted"
      by (auto simp: find_Some_iff)
    with s have "basicClean (url fallback) = Inr (cleaned fallback)"
      by (simp add: basicClean_cleaned)
    with Some show ?thesis
      by (simp add: select_source_def loop)
  qed
qed

lemma select_source_fails_iff:
  assumes "\<forall>c\<in>set videoSources. isString (url c)"
  shows "(fst (select_source net videoSources st) = Inl (Error ''No accessible video URLs found''))
           = ((\<forall>c\<in>set videoSources. probe net (cleaned c) = Inr False) \<and>
              (\<forall>c\<in>set videoSources. type c \<noteq> ''playAddr''))"
proof (cases "\<forall>c\<in>set videoSources. probe net (cleaned c) = Inr False")
  case True
  show ?thesis
    using True find_playAddr_sorted [of videoSources]
    by (auto simp: select_source_all_fail [OF assms True] split: option.splits)
next
  case False
  let ?sorted = "array_sort by_priority videoSources"
  from assms have s: "\<forall>c\<in>set ?sorted. isString (url c)"
    by (simp only: array_sort_set)
  from False have "\<exists>c\<in>set ?sorted. probe net (cleaned c) \<noteq> Inr False"
    by (simp only: array_sort_set) blast
  from test_sources_some_other [OF s this] obtain st' where
    "(\<exists>r. test_sources net ?sorted st = (Inr (Some r), st')) \<or>
     test_sources net ?sorted st = (Inl TypeError, st')"
    by blast
  then have "fst (select_source net videoSources st) \<noteq> Inl (Error ''No accessible video URLs found'')"
    by (auto simp: select_source_def)
  with False show ?thesis by simp
qed

text \<open>
  The fallback when the tests are settled. When the addresses of the sources are strings
  and the test of every one of them resolves to \<^verbatim>\<open>false\<close>, every source is tested, in the
  sorted order, and then the first source of type \<^verbatim>\<open>playAddr\<close> is returned, with its
  address cleaned, if there is one; if there is none, the error
  \<^verbatim>\<open>No accessible video URLs found\<close> is thrown. That error is thrown if and only if the
  test of every source resolves to \<^verbatim>\<open>false\<close> and no source has the type \<^verbatim>\<open>playAddr\<close>.
\<close>

theorem select_source_fallback:
  "(\<forall>c\<in>set videoSources. isString (url c)) \<longrightarrow>
     ((\<forall>c\<in>set videoSources. probe net (cleaned c) = Inr False) \<longrightarrow>
        select_source net videoSources st =
          (case find (\<lambda>s. type s = ''playAddr'') (array_sort by_priority videoSources) of
             Some fallback \<Rightarrow>
               Inr \<lparr>originalUrl = cleaned fallback, rtype = ''playAddr (fallback)'',
                    rpriority = priority fallback\<rparr>
           | None \<Rightarrow> Inl (Error ''No accessible video URLs found''),
           st\<lparr>head_log := head_log st @ map cleaned (array_sort by_priority videoSources)\<rparr>)) \<and>
     ((find (\<lambda>s. type s = ''playAddr'') (array_sort by_priority videoSources) = None)
        = (\<forall>c\<in>set videoSources. type c \<noteq> ''playAddr'')) \<and>
     ((fst (select_source net videoSources st) = Inl (Error ''No accessible video URLs found''))
        = ((\<forall>c\<in>set videoSources. probe net (cleaned c) = Inr False) \<and>
           (\<forall>c\<in>set videoSources. type c \<noteq> ''playAddr'')))"
proof (intro impI conjI)
  assume strings: "\<forall>c\<in>set videoSources. isString (url c)"
  {
    assume "\<forall>c\<in>set videoSources. probe net (cleaned c) = Inr False"
    with strings show "select_source net videoSources st =
          (case find (\<lambda>s. type s = ''playAddr'') (array_sort by_priority videoSources) of
             Some fallback \<Rightarrow>
               Inr \<lparr>originalUrl = cleaned fallback, rtype = ''playAddr (fallback)'',
                    rpriority = priority fallback\<rparr>
           | None \<Rightarrow> Inl (Error ''No accessible video URLs found''),
           st\<lparr>head_log := head_log st @ map cleaned (array_sort by_priority videoSources)\<rparr>)"
      by (rule select_source_all_fail)
  next
    show "(find (\<lambda>s. type s = ''playAddr'') (array_sort by_priority videoSources) = None)
        = (\<forall>c\<in>set videoSources. type c \<noteq> ''playAddr'')"
      by (rule find_playAddr_sorted)
  next
    from strings
    show "(fst (select_source net videoSources st) = Inl (Error ''No accessible video URLs found''))
        = ((\<forall>c\<in>set videoSources. probe net (cleaned c) = Inr False) \<and>
           (\<forall>c\<in>set videoSources. type c \<noteq> ''playAddr''))"
      by (rule select_source_fails_iff)
  }
qed

lemma cleaned_simple [simp]:
  "cleaned \<lparr>url = Str ''https://a/d'', type = t, priority = p, quality = q\<rparr> = ''https://a/d''"
  "cleaned \<lparr>url = Str ''https://a/h'', type = t, priority = p, quality = q\<rparr> = ''https://a/h''"
  "cleaned \<lparr>url = Str ''https://a/q'', type = t, priority = p, quality = q\<rparr> = ''https://a/q''"
  "cleaned \<lparr>url = Str ''https://m/0'', type = t, priority = p, quality = q\<rparr> = ''https://m/0''"
  "cleaned \<lparr>url = Str amp_url, type = t, priority = p, quality = q\<rparr> = ''https://a/p?x=1&y=2&z=3''"
  by (simp_all add: cleaned_def address_def escaped_amp_def amp_url_def)

lemma net_down_probes:
  "probe net_down ''https://a/d'' = Inr False"
  "probe net_down ''https://a/h'' = Inr False"
  "probe net_down ''https://a/p?x=1&y=2&z=3'' = Inr False"
  "probe net_down ''https://a/q'' = Inr False"
  "probe net_down ''https://m/0'' = Inr False"
  "probe net_down ''https://a/p'' = Inr False"
  "probe net_down ''http://m/0'' = Inl TypeError"
  by (simp_all add: probe_def testVideoUrl_def net_down_def https_address_def)

theorem select_source_fallback_witness:
  "select_source net_down cands0 st0 =
     (Inr \<lparr>originalUrl = ''https://a/p?x=1&y=2&z=3'', rtype = ''playAddr (fallback)'', rpriority = 3\<rparr>,
      st0\<lparr>head_log := [''https://a/d'', ''https://a/h'', ''https://a/p?x=1&y=2&z=3'',
                        ''https://a/q'', ''https://m/0'']\<rparr>) \<and>
   select_source net_down cands_no_playAddr st0 =
     (Inl (Error ''No accessible video URLs found''),
      st0\<lparr>head_log := [''https://a/d'', ''https://m/0'']\<rparr>)"
proof -
  have s1: "\<forall>c\<in>set cands0. isString (url c)"
    by (simp add: cands0_def)
  have f1: "\<forall>c\<in>set cands0. probe net_down (cleaned c) = Inr False"
    by (simp add: cands0_def net_down_probes)
  have s2: "\<forall>c\<in>set cands_no_playAddr. isString (url c)"
    by (simp add: cands_no_playAddr_def)
  have f2: "\<forall>c\<in>set cands_no_playAddr. probe net_down (cleaned c) = Inr False"
    by (simp add: cands_no_playAddr_def net_down_probes)
  have srt: "array_sort by_priority cands_no_playAddr =
     [\<lparr>url = Str ''https://a/d'', type = ''downloadAddr'', priority = 1, quality = Undefined\<rparr>,
      \<lparr>url = Str ''https://m/0'', type = ''bitrateInfo[0][0]'', priority = 4, quality = Num 20\<rparr>]"
    by (simp add: cands_no_playAddr_def array_sort_def by_priority_def)
  have h: "head_log st0 = []"
    by (simp add: st0_def)
  have a: "select_source net_down cands0 st0 =
     (Inr \<lparr>originalUrl = ''https://a/p?x=1&y=2&z=3'', rtype = ''playAddr (fallback)'', rpriority = 3\<rparr>,
      st0\<lparr>head_log := [''https://a/d'', ''https://a/h'', ''https://a/p?x=1&y=2&z=3'',
                        ''https://a/q'', ''https://m/0'']\<rparr>)"
    using select_source_fallback [where videoSources = cands0 and net = net_down and st = st0,
            THEN mp, OF s1, THEN conjunct1, THEN mp, OF f1]
    by (simp add: cands0_sorted h)
  have b: "select_source net_down cands_no_playAddr st0 =
     (Inl (Error ''No accessible video URLs found''),
      st0\<lparr>head_log := [''https://a/d'', ''https://m/0'']\<rparr>)"
    using select_source_fallback [where videoSources = cands_no_playAddr and net = net_down and st = st0,
            THEN mp, OF s2, THEN conjunct1, THEN mp, OF f2]
    by (simp add: srt h)
  show ?thesis
    using a b by simp
qed

text \<open>
  Claim C3 does not hold of the code. The metadata has a play address and one mirror
  address, with the protocol \<^verbatim>\<open>http:\<close>, and no request gets through. The test of the play
  address resolves to \<^verbatim>\<open>false\<close>; for the mirror address \<^verbatim>\<open>https.request\<close> throws, the
  promise of \<^verbatim>\<open>testVideoUrl\<close> is rejected, and the \<^verbatim>\<open>await\<close> of line 140 throws. So no test
  succeeds and there is a \<^verbatim>\<open>playAddr\<close> source, yet \<^verbatim>\<open>findBestVideoUrl\<close> does not fall back
  to it: it ends with a \<^verbatim>\<open>TypeError\<close>, and \<^verbatim>\<open>run\<close> prints the error and returns \<^verbatim>\<open>null\<close>.
\<close>

theorem unaccepted_address_prevents_fallback:
  "collect_sources md_http_mirror =
     Inr [\<lparr>url = Str ''https://a/p'', type = ''playAddr'', priority = 3, quality = Undefined\<rparr>,
          \<lparr>url = Str ''http://m/0'', type = ''bitrateInfo[0][0]'', priority = 4, quality = Num 20\<rparr>] \<and>
   probe net_down ''https://a/p'' = Inr False \<and>
   probe net_down ''http://m/0'' = Inl TypeError \<and>
   findBestVideoUrl net_down md_http_mirror st0 =
     (Inl TypeError, st0\<lparr>head_log := [''https://a/p'', ''http://m/0'']\<rparr>) \<and>
   run net_down (Inr md_http_mirror) ''https://www.tiktok.com/@u/video/7'' st0 =
     Some (None, \<lparr>files = Map.empty, head_log = [''https://a/p'', ''http://m/0''], get_log = [],
                  stderr = [(''Error getting download address:'', TypeError),
                            (''Error in TikTok downloader:'', Error ''Failed to get video URLs'')]\<rparr>)"
proof -
  have c: "collect_sources md_http_mirror =
     Inr [\<lparr>url = Str ''https://a/p'', type = ''playAddr'', priority = 3, quality = Undefined\<rparr>,
          \<lparr>url = Str ''http://m/0'', type = ''bitrateInfo[0][0]'', priority = 4, quality = Num 20\<rparr>]"
    by (simp add: md_http_mirror_def collect_sources_def push_field_def show_nat.simps digit_def)
  have f: "findBestVideoUrl net_down md_http_mirror st0 =
     (Inl TypeError, st0\<lparr>head_log := [''https://a/p'', ''http://m/0'']\<rparr>)"
    by (simp add: findBestVideoUrl_def c select_source_def array_sort_def by_priority_def
          testVideoUrl_def net_down_def https_address_def st0_def escaped_amp_def)
  have t: "truthy md_http_mirror"
    by (simp add: md_http_mirror_def)
  have r: "run net_down (Inr md_http_mirror) ''https://www.tiktok.com/@u/video/7'' st0 =
     Some (None, \<lparr>files = Map.empty, head_log = [''https://a/p'', ''http://m/0''], get_log = [],
                  stderr = [(''Error getting download address:'', TypeError),
                            (''Error in TikTok downloader:'', Error ''Failed to get video URLs'')]\<rparr>)"
    by (simp add: run_def getDownloadAddr_def t f [unfolded st0_def] console_error_def st0_def)
  show ?thesis
    using c f r net_down_probes by simp
qed

subsection \<open>The label of the fallback\<close>

lemma push_field_types:
  "push_field video f p acc = Inr r \<Longrightarrow> f \<noteq> l \<Longrightarrow> \<forall>c\<in>set acc. type c \<noteq> l \<Longrightarrow>
   \<forall>c\<in>set r. type c \<noteq> l"
  by (auto simp: push_field_def split: sum.splits if_splits)

lemma forEach_url_types:
  "forEach_url bitrate index us urlIndex acc = Inr r \<Longrightarrow>
   \<forall>c\<in>set acc. type c \<noteq> ''playAddr (fallback)'' \<Longrightarrow>
   \<forall>c\<in>set r. type c \<noteq> ''playAddr (fallback)''"
proof (induction us arbitrary: urlIndex acc)
  case Nil
  then show ?case by simp
next
  case (Cons u us)
  from Cons.prems(1) obtain q where
    "forEach_url bitrate index us (Suc urlIndex)
       (acc @ [\<lparr>url = u,
                 type = ''bitrateInfo['' @ show_nat index @ '']['' @ show_nat urlIndex @ '']'',
                 priority = 4 + int index, quality = q\<rparr>]) = Inr r"
    by (auto split: sum.splits)
  moreover have "\<forall>c\<in>set (acc @ [\<lparr>url = u,
                 type = ''bitrateInfo['' @ show_nat index @ '']['' @ show_nat urlIndex @ '']'',
                 priority = 4 + int index, quality = q\<rparr>]). type c \<noteq> ''playAddr (fallback)''"
    using Cons.prems(2) by simp
  ultimately show ?case
    by (rule Cons.IH)
qed

lemma forEach_bitrate_types:
  "forEach_bitrate bs index acc = Inr r \<Longrightarrow>
   \<forall>c\<in>set acc. type c \<noteq> ''playAddr (fallback)'' \<Longrightarrow>
   \<forall>c\<in>set r. type c \<noteq> ''playAddr (fallback)''"
proof (induction bs arbitrary: index acc)
  case Nil
  then show ?case by simp
next
  case (Cons b bs)
  from Cons.prems(1) consider
      (skip) "forEach_bitrate bs (Suc index) acc = Inr r"
    | (urls) us acc' where "forEach_url b index us 0 acc = Inr acc'"
        "forEach_bitrate bs (Suc index) acc' = Inr r"
    by (auto split: sum.splits if_splits jsval.splits)
  then show ?case
  proof cases
    case skip
    then show ?thesis using Cons.prems(2) by (rule Cons.IH)
  next
    case urls
    from urls(1) Cons.prems(2) have "\<forall>c\<in>set acc'. type c \<noteq> ''playAddr (fallback)''"
      by (rule forEach_url_types)
    with urls(2) show ?thesis by (rule Cons.IH)
  qed
qed

lemma collect_sources_types:
  assumes "collect_sources videoData = Inr cs"
  shows "\<forall>c\<in>set cs. type c \<noteq> ''playAddr (fallback)''"
proof (cases "get_prop videoData ''video''")
  case (Inl e)
  with assms show ?thesis by (simp add: collect_sources_def)
next
  case (Inr video)
  show ?thesis
  proof (cases "truthy video")
    case False
    with Inr assms show ?thesis by (simp add: collect_sources_def)
  next
    case True
    with Inr assms obtain s1 s2 s3 bitrateInfo where
      p1: "push_field video ''downloadAddr'' 1 [] = Inr s1" and
      p2: "push_field video ''playAddrH264'' 2 s1 = Inr s2" and
      p3: "push_field video ''playAddr'' 3 s2 = Inr s3" and
      bi: "get_prop video ''bitrateInfo'' = Inr bitrateInfo" and
      fin: "(case bitrateInfo of Arr bs \<Rightarrow> forEach_bitrate bs 0 s3 | _ \<Rightarrow> Inr s3) = Inr cs"
      by (auto simp: collect_sources_def split: sum.splits)
    from p1 have t1: "\<forall>c\<in>set s1. type c \<noteq> ''playAddr (fallback)''"
      by (rule push_field_types) simp_all
    from p2 have t2: "\<forall>c\<in>set s2. type c \<noteq> ''playAddr (fallback)''"
      by (rule push_field_types) (simp_all add: t1)
    from p3 have t3: "\<forall>c\<in>set s3. type c \<noteq> ''playAddr (fallback)''"
      by (rule push_field_types) (simp_all add: t2)
    show ?thesis
    proof (cases bitrateInfo)
      case (Arr bs)
      with fin have "forEach_bitrate bs 0 s3 = Inr cs" by simp
      then show ?thesis using t3 by (rule forEach_bitrate_types)
    qed (use fin t3 in simp_all)
  qed
qed

lemma test_sources_step:
  assumes "test_sources net (c # cs) st = (Inr found, st')"
  obtains u where "basicClean (url c) = Inr u" "accepts net u" "isWorking (http_head net u)"
      "found = Some \<lparr>originalUrl = u, rtype = type c, rpriority = priority c\<rparr>"
      "st' = st\<lparr>head_log := head_log st @ [u]\<rparr>"
    | u where "basicClean (url c) = Inr u" "accepts net u" "\<not> isWorking (http_head net u)"
      "test_sources net cs (st\<lparr>head_log := head_log st @ [u]\<rparr>) = (Inr found, st')"
proof -
  from assms obtain u where u: "basicClean (url c) = Inr u"
    by (auto split: sum.splits)
  with assms have a: "accepts net u"
    by (auto simp: testVideoUrl_def split: if_splits)
  show ?thesis
  proof (cases "isWorking (http_head net u)")
    case True
    with assms u a have "found = Some \<lparr>originalUrl = u, rtype = type c, rpriority = priority c\<rparr>"
      and "st' = st\<lparr>head_log := head_log st @ [u]\<rparr>"
      by (auto simp: testVideoUrl_def)
    with u a True show ?thesis
      by (rule that(1))
  next
    case False
    with assms u a have "test_sources net cs (st\<lparr>head_log := head_log st @ [u]\<rparr>) = (Inr found, st')"
      by (simp add: testVideoUrl_def)
    with u a False show ?thesis
      by (rule that(2))
  qed
qed

lemma test_sources_returns:
  "test_sources net cs st = (Inr (Some r), st') \<Longrightarrow>
   (\<exists>c\<in>set cs. rtype r = type c \<and> rpriority r = priority c \<and> basicClean (url c) = Inr (originalUrl r)) \<and>
   isWorking (http_head net (originalUrl r)) \<and>
   (\<exists>failed. head_log st' = head_log st @ failed @ [originalUrl r] \<and>
        (\<forall>u\<in>set failed. \<not> isWorking (http_head net u)))"
proof (induction cs arbitrary: st)
  case Nil
  then show ?case by simp
next
  case (Cons c cs)
  from Cons.prems show ?case
  proof (cases rule: test_sources_step)
    case (1 u)
    then show ?thesis by simp
  next
    case (2 u)
    from Cons.IH [OF 2(4)] obtain failed where
      c: "\<exists>c\<in>set cs. rtype r = type c \<and> rpriority r = priority c \<and> basicClean (url c) = Inr (originalUrl r)" and
      w: "isWorking (http_head net (originalUrl r))" and
      l: "head_log st' = head_log st @ (u # failed) @ [originalUrl r]" and
      f: "\<forall>u\<in>set failed. \<not> isWorking (http_head net u)"
      by auto
    from f 2(3) have "\<forall>v\<in>set (u # failed). \<not> isWorking (http_head net v)"
      by simp
    with c w l show ?thesis
      by (metis list.set_intros(2))
  qed
qed

lemma test_sources_runs_out:
  "test_sources net cs st = (Inr None, st') \<Longrightarrow>
   (\<exists>failed. map Inr failed = map (\<lambda>c. basicClean (url c)) cs \<and>
        head_log st' = head_log st @ failed \<and>
        (\<forall>u\<in>set failed. \<not> isWorking (http_head net u)))"
proof (induction cs arbitrary: st)
  case Nil
  then show ?case by simp
next
  case (Cons c cs)
  from Cons.prems show ?case
  proof (cases rule: test_sources_step)
    case (1 u)
    then show ?thesis by simp
  next
    case (2 u)
    from Cons.IH [OF 2(4)] obtain failed where
      "map Inr failed = map (\<lambda>c. basicClean (url c)) cs"
      "head_log st' = head_log st @ u # failed"
      "\<forall>u\<in>set failed. \<not> isWorking (http_head net u)"
      by auto
    with 2(1,3) show ?thesis
      by (intro exI [of _ "u # failed"]) simp
  qed
qed

text \<open>
  Claim C10. Whenever \<^verbatim>\<open>findBestVideoUrl\<close> returns a source, its \<^verbatim>\<open>type\<close> is
  \<^verbatim>\<open>playAddr (fallback)\<close> exactly when the address returned does not pass the test, which
  is exactly when every request of the run failed; no collected source has that type
  itself, so the result is then the \<^verbatim>\<open>playAddr\<close> source under another label, and in every
  other case it is a collected source under its own type.
\<close>

theorem fallback_label_distinct:
  "findBestVideoUrl net videoData st = (Inr r, st') \<longrightarrow>
     ((rtype r = ''playAddr (fallback)'') = (\<not> isWorking (http_head net (originalUrl r)))) \<and>
     (\<exists>probes. head_log st' = head_log st @ probes \<and> originalUrl r \<in> set probes \<and>
          ((rtype r = ''playAddr (fallback)'') = (\<forall>u\<in>set probes. \<not> isWorking (http_head net u)))) \<and>
     (\<exists>videoSources c. collect_sources videoData = Inr videoSources \<and> c \<in> set videoSources \<and>
          basicClean (url c) = Inr (originalUrl r) \<and> rpriority r = priority c \<and>
          (if rtype r = ''playAddr (fallback)'' then type c = ''playAddr'' else type c = rtype r))"
proof
  assume run: "findBestVideoUrl net videoData st = (Inr r, st')"
  then obtain cs where cs: "collect_sources videoData = Inr cs"
    and sel: "select_source net cs st = (Inr r, st')"
    by (auto simp: findBestVideoUrl_def split: sum.splits if_splits)
  let ?sorted = "array_sort by_priority cs"
  have own: "\<forall>c\<in>set ?sorted. type c \<noteq> ''playAddr (fallback)''"
    using collect_sources_types [OF cs] by (simp only: array_sort_set)
  obtain res st1 where loop: "test_sources net ?sorted st = (res, st1)"
    by (cases "test_sources net ?sorted st")
  show "((rtype r = ''playAddr (fallback)'') = (\<not> isWorking (http_head net (originalUrl r)))) \<and>
     (\<exists>probes. head_log st' = head_log st @ probes \<and> originalUrl r \<in> set probes \<and>
          ((rtype r = ''playAddr (fallback)'') = (\<forall>u\<in>set probes. \<not> isWorking (http_head net u)))) \<and>
     (\<exists>videoSources c. collect_sources videoData = Inr videoSources \<and> c \<in> set videoSources \<and>
          basicClean (url c) = Inr (originalUrl r) \<and> rpriority r = priority c \<and>
          (if rtype r = ''playAddr (fallback)'' then type c = ''playAddr'' else type c = rtype r))"
  proof (cases res)
    case (Inl e)
    with sel loop show ?thesis
      by (simp add: select_source_def)
  next
    case (Inr found)
    show ?thesis
    proof (cases found)
      case (Some r')
      with Inr sel loop have eq: "r' = r" "st1 = st'"
        by (simp_all add: select_source_def)
      from test_sources_returns [OF loop [unfolded Inr Some eq]] obtain c failed where
        c: "c \<in> set ?sorted" "rtype r = type c" "rpriority r = priority c"
           "basicClean (url c) = Inr (originalUrl r)" and
        w: "isWorking (http_head net (originalUrl r))" and
        l: "head_log st' = head_log st @ failed @ [originalUrl r]"
        by blast
      from c(1,2) own have nl: "rtype r \<noteq> ''playAddr (fallback)''"
        by auto
      from c(1) have cin: "c \<in> set cs"
        by (simp only: array_sort_set)
      have "\<exists>probes. head_log st' = head_log st @ probes \<and> originalUrl r \<in> set probes \<and>
          ((rtype r = ''playAddr (fallback)'') = (\<forall>u\<in>set probes. \<not> isWorking (http_head net u)))"
        using l w nl by (intro exI [of _ "failed @ [originalUrl r]"]) auto
      moreover have "\<exists>videoSources c. collect_sources videoData = Inr videoSources \<and> c \<in> set videoSources \<and>
          basicClean (url c) = Inr (originalUrl r) \<and> rpriority r = priority c \<and>
          (if rtype r = ''playAddr (fallback)'' then type c = ''playAddr'' else type c = rtype r)"
        using cs cin c nl by (intro exI [of _ cs] exI [of _ c]) simp
      ultimately show ?thesis
        using w nl by simp
    next
      case None
      with Inr sel loop obtain fb u where
        fb: "find (\<lambda>s. type s = ''playAddr'') ?sorted = Some fb" and
        u: "basicClean (url fb) = Inr u" and
        r: "r = \<lparr>originalUrl = u, rtype = ''playAddr (fallback)'', rpriority = priority fb\<rparr>" and
        st: "st1 = st'"
        by (auto simp: select_source_def split: option.splits sum.splits)
      from fb have fbin: "fb \<in> set ?sorted" and fbt: "type fb = ''playAddr''"
        by (auto simp: find_Some_iff)
      from test_sources_runs_out [OF loop [unfolded Inr None st]] obtain failed where
        m: "map Inr failed = map (\<lambda>c. basicClean (url c)) ?sorted" and
        l: "head_log st' = head_log st @ failed" and
        f: "\<forall>u\<in>set failed. \<not> isWorking (http_head net u)"
        by blast
      from fbin u have "Inr u \<in> set (map (\<lambda>c. basicClean (url c)) ?sorted)"
        by force
      with m have "Inr u \<in> set (map Inr failed :: (js_error + string) list)"
        by simp
      then have uin: "u \<in> set failed"
        by auto
      with f have nw: "\<not> isWorking (http_head net u)"
        by blast
      from fbin have fbcs: "fb \<in> set cs"
        by (simp only: array_sort_set)
      have "\<exists>probes. head_log st' = head_log st @ probes \<and> originalUrl r \<in> set probes \<and>
          ((rtype r = ''playAddr (fallback)'') = (\<forall>u\<in>set probes. \<not> isWorking (http_head net u)))"
        using l uin f r by (intro exI [of _ failed]) simp
      moreover have "\<exists>videoSources c. collect_sources videoData = Inr videoSources \<and> c \<in> set videoSources \<and>
          basicClean (url c) = Inr (originalUrl r) \<and> rpriority r = priority c \<and>
          (if rtype r = ''playAddr (fallback)'' then type c = ''playAddr'' else type c = rtype r)"
        using cs fbcs u fbt r by (intro exI [of _ cs] exI [of _ fb]) simp
      ultimately show ?thesis
        using nw r by simp
    qed
  qed
qed

lemma md1_collect:
  "collect_sources md1 =
     Inr [\<lparr>url = Str ''https://a/d'', type = ''downloadAddr'', priority = 1, quality = Undefined\<rparr>,
          \<lparr>url = Str ''https://a/h'', type = ''playAddrH264'', priority = 2, quality = Undefined\<rparr>,
          \<lparr>url = Str amp_url, type = ''playAddr'', priority = 3, quality = Undefined\<rparr>]"
  by (simp add: md1_def collect_sources_def push_field_def amp_url_def)

lemma md1_down:
  "findBestVideoUrl net_down md1 st0 =
     (Inr \<lparr>originalUrl = ''https://a/p?x=1&y=2&z=3'', rtype = ''playAddr (fallback)'', rpriority = 3\<rparr>,
      st0\<lparr>head_log := [''https://a/d'', ''https://a/h'', ''https://a/p?x=1&y=2&z=3'']\<rparr>)"
  by (simp add: findBestVideoUrl_def md1_collect select_source_def array_sort_def by_priority_def
        testVideoUrl_def net_down_def https_address_def st0_def amp_url_def escaped_amp_def)

lemma md1_up:
  "findBestVideoUrl net0 md1 st0 =
     (Inr \<lparr>originalUrl = ''https://a/p?x=1&y=2&z=3'', rtype = ''playAddr'', rpriority = 3\<rparr>,
      st0\<lparr>head_log := [''https://a/d'', ''https://a/h'', ''https://a/p?x=1&y=2&z=3'']\<rparr>)"
  by (simp add: findBestVideoUrl_def md1_collect select_source_def array_sort_def by_priority_def
        testVideoUrl_def net0_def https_address_def st0_def amp_url_def escaped_amp_def)

theorem fallback_label_distinct_witness:
  "findBestVideoUrl net_down md1 st0 =
     (Inr \<lparr>originalUrl = ''https://a/p?x=1&y=2&z=3'', rtype = ''playAddr (fallback)'', rpriority = 3\<rparr>,
      st0\<lparr>head_log := [''https://a/d'', ''https://a/h'', ''https://a/p?x=1&y=2&z=3'']\<rparr>) \<and>
   \<not> isWorking (http_head net_down ''https://a/p?x=1&y=2&z=3'') \<and>
   findBestVideoUrl net0 md1 st0 =
     (Inr \<lparr>originalUrl = ''https://a/p?x=1&y=2&z=3'', rtype = ''playAddr'', rpriority = 3\<rparr>,
      st0\<lparr>head_log := [''https://a/d'', ''https://a/h'', ''https://a/p?x=1&y=2&z=3'']\<rparr>) \<and>
   isWorking (http_head net0 ''https://a/p?x=1&y=2&z=3'')"
proof -
  have a: "\<not> isWorking (http_head net_down ''https://a/p?x=1&y=2&z=3'')"
    using fallback_label_distinct [THEN mp, OF md1_down, THEN conjunct1] by simp
  have b: "isWorking (http_head net0 ''https://a/p?x=1&y=2&z=3'')"
    using fallback_label_distinct [THEN mp, OF md1_up, THEN conjunct1] by simp
  show ?thesis
    using md1_down md1_up a b by simp
qed

subsection \<open>Downloads\<close>

lemma effect_effect:
  "effect p k us (effect p k' us' st) = effect p k (us' @ us) st"
  by (simp add: effect_def)

lemma unlink_effect: "unlink p (effect p k us st) = effect p None us st"
  by (simp add: effect_def unlink_def)

lemma pipe_body_effect: "pipe_body p n (effect p k us st) = effect p (Some n) us st"
  by (simp add: effect_def pipe_body_def)

lemma files_effect: "files (effect p k us st) p = k"
  by (simp add: effect_def)

lemma downloadVideo_unfold:
  "downloadVideo net videoUrl filename st =
     (if \<not> opens net (path_join_videos filename) then None
      else if \<not> accepts net videoUrl
      then Some (Inl TypeError, effect (path_join_videos filename) (Some 0) [videoUrl] st)
      else
        (case http_get net videoUrl of
           GetError err \<Rightarrow> Some (Inl err, effect (path_join_videos filename) None [videoUrl] st)
         | GetResponse statusCode location body \<Rightarrow>
             (case redirect_target statusCode location of
                Some target \<Rightarrow>
                  downloadVideo net target filename
                    (effect (path_join_videos filename) (Some 0) [videoUrl] st)
              | None \<Rightarrow>
                  if statusCode \<noteq> 200
                  then Some (Inl (Error (''Video download failed with status code ''
                                          @ show_nat statusCode)),
                             effect (path_join_videos filename) (Some 0) [videoUrl] st)
                  else
                    (case body of
                       Finished n \<Rightarrow>
                         Some (Inr (path_join_videos filename),
                               effect (path_join_videos filename) (Some n) [videoUrl] st)
                     | Aborted n \<Rightarrow> None))))"
proof -
  have started: "(st\<lparr>files := (files st)(path_join_videos filename \<mapsto> 0)\<rparr>)
                   \<lparr>get_log := get_log st @ [videoUrl]\<rparr>
                 = effect (path_join_videos filename) (Some 0) [videoUrl] st"
    by (simp add: effect_def)
  show ?thesis
    by (subst downloadVideo.simps)
       (simp add: Let_def createWriteStream_def started unlink_effect pipe_body_effect
          split: get_outcome.splits option.splits body.splits)
qed

lemma downloadVideo_effect:
  assumes "downloadVideo net videoUrl filename st = Some (r, st')"
  shows "\<exists>content requests.
           (\<forall>st2. downloadVideo net videoUrl filename st2 =
                    Some (r, effect (path_join_videos filename) content (videoUrl # requests) st2)) \<and>
           (case r of
              Inr filePath \<Rightarrow> filePath = path_join_videos filename \<and> (\<exists>n. content = Some n)
            | Inl e \<Rightarrow> content = None \<or> content = Some 0)"
proof -
  have "\<exists>content requests.
           (\<forall>st2. downloadVideo net videoUrl filename st2 =
                    Some (fst y, effect (path_join_videos filename) content (videoUrl # requests) st2)) \<and>
           (case fst y of
              Inr filePath \<Rightarrow> filePath = path_join_videos filename \<and> (\<exists>n. content = Some n)
            | Inl e \<Rightarrow> content = None \<or> content = Some 0)"
    if "downloadVideo net videoUrl filename st = Some y" for y
    using that
  proof (induction net videoUrl filename st y
           rule: downloadVideo.raw_induct [rotated 1, consumes 1, case_names step])
    case (step dl net videoUrl filename st y)
    let ?p = "path_join_videos filename"
    let ?st1 = "(st\<lparr>files := (files st)(?p \<mapsto> 0)\<rparr>)\<lparr>get_log := get_log st @ [videoUrl]\<rparr>"
    from step(2) have o: "opens net ?p"
      by (auto simp: Let_def createWriteStream_def split: if_splits)
    with step(2) have body: "(if \<not> accepts net videoUrl then Some (Inl TypeError, ?st1)
             else (case http_get net videoUrl of
                     GetError err \<Rightarrow> Some (Inl err, unlink ?p ?st1)
                   | GetResponse statusCode location body \<Rightarrow>
                       (case redirect_target statusCode location of
                          Some target \<Rightarrow> dl net target filename ?st1
                        | None \<Rightarrow>
                            if statusCode \<noteq> 200
                            then Some (Inl (Error (''Video download failed with status code ''
                                                    @ show_nat statusCode)), ?st1)
                            else (case body of
                                    Finished n \<Rightarrow> Some (Inr ?p, pipe_body ?p n ?st1)
                                  | Aborted n \<Rightarrow> None)))) = Some y"
      by (simp add: Let_def createWriteStream_def)
    show ?case
    proof (cases "accepts net videoUrl")
      case False
      with body have "fst y = Inl TypeError"
        by auto
      with False o show ?thesis
        by (intro exI [of _ "Some 0"] exI [of _ "[]"]) (simp add: downloadVideo_unfold)
    next
      case acc: True
      show ?thesis
      proof (cases "http_get net videoUrl")
        case (GetError err)
        with body acc have "fst y = Inl err"
          by auto
        with GetError acc o show ?thesis
          by (intro exI [of _ None] exI [of _ "[]"]) (simp add: downloadVideo_unfold)
      next
        case (GetResponse statusCode location body)
        show ?thesis
        proof (cases "redirect_target statusCode location")
          case (Some target)
          with GetResponse body acc have "dl net target filename ?st1 = Some y"
            by simp
          from step(1) [OF this] obtain content requests where
            a: "\<forall>st2. downloadVideo net target filename st2 =
                      Some (fst y, effect ?p content (target # requests) st2)" and
            b: "(case fst y of Inr filePath \<Rightarrow> filePath = ?p \<and> (\<exists>n. content = Some n)
                  | Inl e \<Rightarrow> content = None \<or> content = Some 0)"
            by blast
          have "\<forall>st2. downloadVideo net videoUrl filename st2 =
                      Some (fst y, effect ?p content (videoUrl # target # requests) st2)"
            using GetResponse Some a acc o
            by (simp add: downloadVideo_unfold [of net videoUrl] effect_effect)
          with b show ?thesis
            by blast
        next
          case None
          show ?thesis
          proof (cases "statusCode \<noteq> 200")
            case True
            with GetResponse None body acc have
              "fst y = Inl (Error (''Video download failed with status code '' @ show_nat statusCode))"
              by auto
            with GetResponse None True acc o show ?thesis
              by (intro exI [of _ "Some 0"] exI [of _ "[]"]) (simp add: downloadVideo_unfold)
          next
            case False
            with GetResponse None body acc obtain n where n: "body = Finished n" "fst y = Inr ?p"
              by (cases body) auto
            with GetResponse None False acc o show ?thesis
              by (intro exI [of _ "Some n"] exI [of _ "[]"]) (simp add: downloadVideo_unfold)
          qed
        qed
      qed
    qed
  qed
  from this [OF assms] show ?thesis by simp
qed

lemma attempt_download_None:
  "downloadVideo net (aurl a) (replaceFirst ''.mp4'' [] filename @ asuffix a @ ''.mp4'') st = None \<Longrightarrow>
   attempt_download net filename a results st2 = None"
proof (rule ccontr)
  assume n: "downloadVideo net (aurl a) (replaceFirst ''.mp4'' [] filename @ asuffix a @ ''.mp4'') st = None"
  assume "attempt_download net filename a results st2 \<noteq> None"
  then obtain r st' where
    "downloadVideo net (aurl a) (replaceFirst ''.mp4'' [] filename @ asuffix a @ ''.mp4'') st2 = Some (r, st')"
    by (auto simp: attempt_download_def Let_def split: option.splits)
  from downloadVideo_effect [OF this] n show False
    by auto
qed

lemma attempt_download_effect:
  assumes "downloadVideo net (aurl a) (replaceFirst ''.mp4'' [] filename @ asuffix a @ ''.mp4'') st
             = Some (r, st')"
  shows "\<exists>ds content requests.
           (\<forall>results st2. attempt_download net filename a results st2 =
               Some (results @ ds, effect (attempt_path filename a) content (aurl a # requests) st2)) \<and>
           (ds = [] \<and> (content = None \<or> content = Some 0) \<or>
            (\<exists>n. n > 1024 \<and> content = Some n \<and>
                 ds = [\<lparr>dtype = aname a, dpath = attempt_path filename a, dsize = n,
                        durl = aurl a\<rparr>]))"
proof -
  let ?f = "replaceFirst ''.mp4'' [] filename @ asuffix a @ ''.mp4''"
  let ?p = "attempt_path filename a"
  from downloadVideo_effect [OF assms] obtain content requests where
    d: "\<And>st2. downloadVideo net (aurl a) ?f st2 = Some (r, effect ?p content (aurl a # requests) st2)" and
    c: "(case r of Inr filePath \<Rightarrow> filePath = ?p \<and> (\<exists>n. content = Some n)
         | Inl e \<Rightarrow> content = None \<or> content = Some 0)"
    unfolding attempt_path_def by blast
  show ?thesis
  proof (cases r)
    case (Inl e)
    have "\<forall>results st2. attempt_download net filename a results st2 =
               Some (results @ [], effect ?p content (aurl a # requests) st2)"
      by (simp add: attempt_download_def d Inl)
    moreover have "content = None \<or> content = Some 0"
      using c Inl by simp
    ultimately show ?thesis by blast
  next
    case (Inr filePath)
    with c obtain n where n: "filePath = ?p" "content = Some n"
      by auto
    show ?thesis
    proof (cases "n > 1024")
      case True
      have "\<forall>results st2. attempt_download net filename a results st2 =
               Some (results @ [\<lparr>dtype = aname a, dpath = ?p, dsize = n, durl = aurl a\<rparr>],
                     effect ?p (Some n) (aurl a # requests) st2)"
        using True by (simp add: attempt_download_def d Inr n statSync_def files_effect)
      with True show ?thesis by blast
    next
      case False
      have "\<forall>results st2. attempt_download net filename a results st2 =
               Some (results @ [], effect ?p None (aurl a # requests) st2)"
        using False by (simp add: attempt_download_def d Inr n statSync_def files_effect unlink_effect)
      then show ?thesis by blast
    qed
  qed
qed

lemma alone_None:
  assumes "alone net filename a = None"
  shows "attempt_download net filename a results st = None"
proof -
  from assms have "downloadVideo net (aurl a) (replaceFirst ''.mp4'' [] filename @ asuffix a @ ''.mp4'') st0 = None"
    by (auto simp: alone_def attempt_download_def Let_def statSync_def split: option.splits sum.splits if_splits)
  then show ?thesis
    by (rule attempt_download_None)
qed

lemma alone_Some:
  assumes "alone net filename a = Some ds"
  shows "\<exists>content requests.
           (\<forall>results st. attempt_download net filename a results st =
               Some (results @ ds, effect (attempt_path filename a) content (aurl a # requests) st)) \<and>
           (ds = [] \<and> (content = None \<or> content = Some 0) \<or>
            (\<exists>n. n > 1024 \<and> content = Some n \<and>
                 ds = [\<lparr>dtype = aname a, dpath = attempt_path filename a, dsize = n,
                        durl = aurl a\<rparr>]))"
proof -
  from assms obtain r st' where
    "downloadVideo net (aurl a) (replaceFirst ''.mp4'' [] filename @ asuffix a @ ''.mp4'') st0 = Some (r, st')"
    by (auto simp: alone_def attempt_download_def Let_def split: option.splits)
  from attempt_download_effect [OF this] obtain ds' content requests where
    e: "\<forall>results st2. attempt_download net filename a results st2 =
               Some (results @ ds', effect (attempt_path filename a) content (aurl a # requests) st2)" and
    k: "ds' = [] \<and> (content = None \<or> content = Some 0) \<or>
            (\<exists>n. n > 1024 \<and> content = Some n \<and>
                 ds' = [\<lparr>dtype = aname a, dpath = attempt_path filename a, dsize = n,
                        durl = aurl a\<rparr>])"
    by blast
  from e assms have "ds' = ds"
    by (simp add: alone_def)
  with e k show ?thesis by blast
qed

lemma download_attempts_None:
  "\<exists>a\<in>set attempts. alone net filename a = None \<Longrightarrow>
   download_attempts net filename attempts results st = None"
proof (induction attempts arbitrary: results st)
  case Nil
  then show ?case by simp
next
  case (Cons a attempts)
  show ?case
  proof (cases "alone net filename a")
    case None
    then show ?thesis by (simp add: alone_None)
  next
    case (Some ds)
    with Cons.prems have "\<exists>a\<in>set attempts. alone net filename a = None"
      by auto
    with Cons.IH alone_Some [OF Some] show ?thesis
      by auto
  qed
qed

lemma download_attempts_Some:
  "\<forall>a\<in>set attempts. alone net filename a \<noteq> None \<Longrightarrow>
   \<exists>st'. download_attempts net filename attempts results st =
           Some (results @ concat (map (\<lambda>a. case alone net filename a of Some ds \<Rightarrow> ds | None \<Rightarrow> [])
                                       attempts), st') \<and>
         (\<forall>p. p \<notin> attempt_path filename ` set attempts \<longrightarrow> files st' p = files st p) \<and>
         stderr st' = stderr st \<and> head_log st' = head_log st \<and>
         (\<exists>requests. get_log st' = get_log st @ requests \<and> aurl ` set attempts \<subseteq> set requests)"
proof (induction attempts arbitrary: results st)
  case Nil
  then show ?case by simp
next
  case (Cons a attempts)
  then obtain ds where ds: "alone net filename a = Some ds"
    by auto
  from alone_Some [OF ds] obtain content requests where
    e: "\<And>results st. attempt_download net filename a results st =
               Some (results @ ds, effect (attempt_path filename a) content (aurl a # requests) st)"
    by blast
  let ?st1 = "effect (attempt_path filename a) content (aurl a # requests) st"
  from Cons.prems have "\<forall>a\<in>set attempts. alone net filename a \<noteq> None"
    by simp
  from Cons.IH [OF this, of "results @ ds" ?st1] obtain st' requests' where
    r: "download_attempts net filename attempts (results @ ds) ?st1 =
           Some ((results @ ds) @ concat (map (\<lambda>a. case alone net filename a of Some ds \<Rightarrow> ds | None \<Rightarrow> [])
                                       attempts), st')" and
    f: "\<forall>p. p \<notin> attempt_path filename ` set attempts \<longrightarrow> files st' p = files ?st1 p" and
    k: "stderr st' = stderr ?st1" "head_log st' = head_log ?st1" and
    l: "get_log st' = get_log ?st1 @ requests'" "aurl ` set attempts \<subseteq> set requests'"
    by blast
  have "download_attempts net filename (a # attempts) results st =
           Some (results @ concat (map (\<lambda>a. case alone net filename a of Some ds \<Rightarrow> ds | None \<Rightarrow> [])
                                       (a # attempts)), st')"
    using r by (simp add: e ds)
  moreover have "\<forall>p. p \<notin> attempt_path filename ` set (a # attempts) \<longrightarrow> files st' p = files st p"
    using f by (simp add: effect_def)
  moreover have "stderr st' = stderr st" "head_log st' = head_log st"
    using k by (simp_all add: effect_def)
  moreover have "get_log st' = get_log st @ (aurl a # requests @ requests')"
    using l(1) by (simp add: effect_def)
  moreover have "aurl ` set (a # attempts) \<subseteq> set (aurl a # requests @ requests')"
    using l(2) by auto
  ultimately show ?case
    by blast
qed

subsection \<open>Redirects\<close>

lemma chain_Suc:
  "next_hop net u = Some target \<Longrightarrow> chain net n target \<noteq> [] \<Longrightarrow>
   chain net (Suc n) u = u # chain net n target"
  by (cases "chain net n target") simp_all

lemma chain_Suc_ne:
  "chain net (Suc n) u \<noteq> [] \<Longrightarrow>
   \<exists>target. next_hop net u = Some target \<and> chain net n target \<noteq> []"
  by (auto split: option.splits list.splits)

lemma chain_length: "chain net n u \<noteq> [] \<Longrightarrow> length (chain net n u) = Suc n"
proof (induction n arbitrary: u)
  case 0
  then show ?case by simp
next
  case (Suc n)
  from chain_Suc_ne [OF Suc.prems] obtain target where
    t: "next_hop net u = Some target" "chain net n target \<noteq> []"
    by blast
  from Suc.IH [OF t(2)] show ?case
    by (simp add: chain_Suc [OF t] del: chain.simps)
qed

lemma next_hop_redirect:
  "accepts net u \<Longrightarrow> http_get net u = GetResponse statusCode location body \<Longrightarrow>
   300 \<le> statusCode \<Longrightarrow> statusCode < 400 \<Longrightarrow> location = Some target \<Longrightarrow> target \<noteq> [] \<Longrightarrow>
   next_hop net u = Some target"
  by (simp add: next_hop_def redirect_target_def)

lemma downloadVideo_hop:
  "opens net (path_join_videos filename) \<Longrightarrow> next_hop net u = Some target \<Longrightarrow>
   downloadVideo net u filename st =
     downloadVideo net target filename (effect (path_join_videos filename) (Some 0) [u] st)"
  by (subst downloadVideo_unfold) (auto simp: next_hop_def split: get_outcome.splits if_splits)

lemma downloadVideo_end:
  "opens net (path_join_videos filename) \<Longrightarrow> next_hop net u = None \<Longrightarrow> \<not> stalls net u \<Longrightarrow>
   \<exists>r content. downloadVideo net u filename st =
     Some (r, effect (path_join_videos filename) content [u] st)"
  by (subst downloadVideo_unfold)
     (auto simp: next_hop_def stalls_def split: get_outcome.splits body.splits if_splits)

lemma downloadVideo_restart:
  "downloadVideo net u filename (effect (path_join_videos filename) k [] st) =
   downloadVideo net u filename st"
proof (cases "downloadVideo net u filename st")
  case None
  show ?thesis
  proof (rule ccontr)
    assume "downloadVideo net u filename (effect (path_join_videos filename) k [] st) \<noteq>
            downloadVideo net u filename st"
    with None obtain r st' where
      "downloadVideo net u filename (effect (path_join_videos filename) k [] st) = Some (r, st')"
      by (cases "downloadVideo net u filename (effect (path_join_videos filename) k [] st)") auto
    from downloadVideo_effect [OF this] None show False
      by auto
  qed
next
  case (Some y)
  then have "downloadVideo net u filename st = Some (fst y, snd y)"
    by simp
  from downloadVideo_effect [OF this] obtain content requests where
    e: "\<And>st2. downloadVideo net u filename st2 =
          Some (fst y, effect (path_join_videos filename) content (u # requests) st2)"
    by blast
  show ?thesis
    by (simp add: e effect_effect)
qed

lemma downloadVideo_hops:
  "opens net (path_join_videos filename) \<Longrightarrow> chain net n u \<noteq> [] \<Longrightarrow>
   downloadVideo net u filename st =
     downloadVideo net (last (chain net n u)) filename
       (effect (path_join_videos filename) (Some 0) (butlast (chain net n u)) st)"
proof (induction n arbitrary: u st)
  case 0
  then show ?case
    by (simp add: downloadVideo_restart)
next
  case (Suc n)
  from chain_Suc_ne [OF Suc.prems(2)] obtain target where
    t: "next_hop net u = Some target" and ne: "chain net n target \<noteq> []"
    by blast
  note c = chain_Suc [OF t ne]
  have "downloadVideo net u filename st =
        downloadVideo net target filename (effect (path_join_videos filename) (Some 0) [u] st)"
    by (rule downloadVideo_hop [OF Suc.prems(1) t])
  also have "\<dots> = downloadVideo net (last (chain net n target)) filename
       (effect (path_join_videos filename) (Some 0) (butlast (chain net n target))
          (effect (path_join_videos filename) (Some 0) [u] st))"
    by (rule Suc.IH [OF Suc.prems(1) ne])
  finally show ?case
    using ne by (simp add: c effect_effect del: chain.simps)
qed

lemma downloadVideo_follows:
  "opens net (path_join_videos filename) \<Longrightarrow> ends net (chain net n u) \<Longrightarrow>
   \<exists>r content. downloadVideo net u filename st =
     Some (r, effect (path_join_videos filename) content (chain net n u) st)"
proof -
  assume o: "opens net (path_join_videos filename)" and e: "ends net (chain net n u)"
  let ?p = "path_join_videos filename"
  let ?c = "chain net n u"
  from e have ne: "?c \<noteq> []" and nh: "next_hop net (last ?c) = None" and ns: "\<not> stalls net (last ?c)"
    by (simp_all add: ends_def)
  from downloadVideo_end [OF o nh ns, where st = "effect ?p (Some 0) (butlast ?c) st"]
  obtain r content where
    "downloadVideo net (last ?c) filename (effect ?p (Some 0) (butlast ?c) st) =
       Some (r, effect ?p content [last ?c] (effect ?p (Some 0) (butlast ?c) st))"
    by blast
  then have "downloadVideo net u filename st = Some (r, effect ?p content (butlast ?c @ [last ?c]) st)"
    by (simp only: downloadVideo_hops [OF o ne, of st] effect_effect)
  with ne show ?thesis
    by auto
qed

lemma downloadVideo_settles_chain:
  assumes "downloadVideo net u filename st = Some y"
  shows "\<exists>n. ends net (chain net n u)"
  using assms
proof (induction net u filename st y
         rule: downloadVideo.raw_induct [rotated 1, consumes 1, case_names step])
  case (step dl net videoUrl filename st y)
  let ?p = "path_join_videos filename"
  let ?st1 = "(st\<lparr>files := (files st)(?p \<mapsto> 0)\<rparr>)\<lparr>get_log := get_log st @ [videoUrl]\<rparr>"
  from step(2) have o: "opens net ?p"
    by (auto simp: Let_def createWriteStream_def split: if_splits)
  show ?case
  proof (cases "next_hop net videoUrl")
    case None
    have "\<not> stalls net videoUrl"
      using step(2) None o
      by (auto simp: Let_def createWriteStream_def next_hop_def stalls_def
            split: get_outcome.splits body.splits if_splits)
    with None have "ends net (chain net 0 videoUrl)"
      by (simp add: ends_def)
    then show ?thesis by blast
  next
    case (Some target)
    with step(2) o have "dl net target filename ?st1 = Some y"
      by (auto simp: Let_def createWriteStream_def next_hop_def split: get_outcome.splits if_splits)
    from step(1) [OF this] obtain n where n: "ends net (chain net n target)"
      by blast
    then have ne: "chain net n target \<noteq> []"
      by (simp add: ends_def)
    from n ne have "ends net (chain net (Suc n) videoUrl)"
      unfolding chain_Suc [OF Some ne] by (simp add: ends_def)
    then show ?thesis by blast
  qed
qed

text \<open>
  Claim C7, as amended. Whenever the file can be opened, a response with a status from
  300 to 399 and a non-empty \<^verbatim>\<open>location\<close> header is followed by calling \<^verbatim>\<open>downloadVideo\<close> on
  the target, and the program sets no limit on the number of redirects followed: for every
  \<open>n\<close>, after \<open>n\<close> redirects the download goes on as the download of the last target,
  \<^verbatim>\<open>https.get\<close> having been called with the \<open>n\<close> addresses before it; and where the chain
  ends after \<open>n\<close> redirects (the last target is not accepted, or its request ends in an
  error, or it is answered with a status other than 200 that is no redirect, or with a
  body that ends), the download is settled there, after \<open>n + 1\<close> calls.
\<close>

theorem downloadVideo_follows_every_redirect:
  "opens net (path_join_videos filename) \<longrightarrow>
     (accepts net u \<and> http_get net u = GetResponse statusCode location body \<and>
      300 \<le> statusCode \<and> statusCode < 400 \<and> location = Some target \<and> target \<noteq> [] \<longrightarrow>
        downloadVideo net u filename st =
          downloadVideo net target filename
            (effect (path_join_videos filename) (Some 0) [u] st)) \<and>
     (chain net n u \<noteq> [] \<longrightarrow>
        length (chain net n u) = Suc n \<and>
        downloadVideo net u filename st =
          downloadVideo net (last (chain net n u)) filename
            (effect (path_join_videos filename) (Some 0) (butlast (chain net n u)) st)) \<and>
     (ends net (chain net n u) \<longrightarrow>
        (\<exists>r content. downloadVideo net u filename st =
            Some (r, effect (path_join_videos filename) content (chain net n u) st)))"
proof (intro conjI impI)
  assume o: "opens net (path_join_videos filename)"
  {
    assume "accepts net u \<and> http_get net u = GetResponse statusCode location body \<and>
      300 \<le> statusCode \<and> statusCode < 400 \<and> location = Some target \<and> target \<noteq> []"
    then have "next_hop net u = Some target"
      using next_hop_redirect by blast
    with o show "downloadVideo net u filename st =
          downloadVideo net target filename
            (effect (path_join_videos filename) (Some 0) [u] st)"
      by (rule downloadVideo_hop)
  next
    assume ne: "chain net n u \<noteq> []"
    then show "length (chain net n u) = Suc n"
      by (rule chain_length)
    from o ne show "downloadVideo net u filename st =
          downloadVideo net (last (chain net n u)) filename
            (effect (path_join_videos filename) (Some 0) (butlast (chain net n u)) st)"
      by (rule downloadVideo_hops)
  next
    assume "ends net (chain net n u)"
    with o show "\<exists>r content. downloadVideo net u filename st =
            Some (r, effect (path_join_videos filename) content (chain net n u) st)"
      by (rule downloadVideo_follows)
  }
qed

lemma net_chain_hops:
  "next_hop net_chain ''https://v/0'' = Some ''https://v/1''"
  "next_hop net_chain ''https://v/1'' = Some ''https://v/2''"
  "next_hop net_chain ''https://v/2'' = Some ''https://cdn/a''"
  "next_hop net_chain ''https://cdn/a'' = None"
  "\<not> stalls net_chain ''https://cdn/a''"
  by (simp_all add: next_hop_def stalls_def net_chain_def redirect_target_def https_address_def)

lemma net_chain_chain:
  "chain net_chain 3 ''https://v/0'' = [''https://v/0'', ''https://v/1'', ''https://v/2'', ''https://cdn/a'']"
  by (simp add: numeral_3_eq_3 net_chain_hops)

lemma net_chain_download:
  "downloadVideo net_chain ''https://v/0'' ''7_original.mp4'' st0 =
     Some (Inr ''videos/7_original.mp4'',
           \<lparr>files = [''videos/7_original.mp4'' \<mapsto> 2000], head_log = [],
            get_log = [''https://v/0'', ''https://v/1'', ''https://v/2'', ''https://cdn/a''],
            stderr = []\<rparr>)"
  by (simp add: downloadVideo_unfold net_chain_def redirect_target_def effect_def st0_def
        path_join_videos_def https_address_def)

theorem downloadVideo_follows_every_redirect_witness:
  "opens net_chain ''videos/7_original.mp4'' \<and>
   accepts net_chain ''https://v/0'' \<and>
   http_get net_chain ''https://v/0'' = GetResponse 302 (Some ''https://v/1'') (Finished 0) \<and>
   downloadVideo net_chain ''https://v/0'' ''7_original.mp4'' st0 =
     downloadVideo net_chain ''https://v/1'' ''7_original.mp4''
       (st0\<lparr>files := [''videos/7_original.mp4'' \<mapsto> 0], get_log := [''https://v/0'']\<rparr>) \<and>
   chain net_chain 3 ''https://v/0'' = [''https://v/0'', ''https://v/1'', ''https://v/2'', ''https://cdn/a''] \<and>
   downloadVideo net_chain ''https://v/0'' ''7_original.mp4'' st0 =
     downloadVideo net_chain ''https://cdn/a'' ''7_original.mp4''
       (st0\<lparr>files := [''videos/7_original.mp4'' \<mapsto> 0],
            get_log := [''https://v/0'', ''https://v/1'', ''https://v/2'']\<rparr>) \<and>
   ends net_chain [''https://v/0'', ''https://v/1'', ''https://v/2'', ''https://cdn/a''] \<and>
   downloadVideo net_chain ''https://v/0'' ''7_original.mp4'' st0 =
     Some (Inr ''videos/7_original.mp4'',
           \<lparr>files = [''videos/7_original.mp4'' \<mapsto> 2000], head_log = [],
            get_log = [''https://v/0'', ''https://v/1'', ''https://v/2'', ''https://cdn/a''],
            stderr = []\<rparr>)"
proof -
  have o: "opens net_chain (path_join_videos ''7_original.mp4'')"
    by (simp add: net_chain_def)
  have p: "path_join_videos ''7_original.mp4'' = ''videos/7_original.mp4''"
    by (simp add: path_join_videos_def)
  have a: "accepts net_chain ''https://v/0''"
    by (simp add: net_chain_def https_address_def)
  have g: "http_get net_chain ''https://v/0'' = GetResponse 302 (Some ''https://v/1'') (Finished 0)"
    by (simp add: net_chain_def)
  have ne: "chain net_chain 3 ''https://v/0'' \<noteq> []"
    by (simp add: net_chain_chain)
  have e: "ends net_chain (chain net_chain 3 ''https://v/0'')"
    by (simp add: net_chain_chain ends_def net_chain_hops)
  note T = downloadVideo_follows_every_redirect [where net = net_chain and n = 3
             and u = "''https://v/0''" and filename = "''7_original.mp4''" and st = st0
             and statusCode = 302 and location = "Some ''https://v/1''" and body = "Finished 0"
             and target = "''https://v/1''", THEN mp, OF o]
  have h1: "downloadVideo net_chain ''https://v/0'' ''7_original.mp4'' st0 =
     downloadVideo net_chain ''https://v/1'' ''7_original.mp4''
       (st0\<lparr>files := [''videos/7_original.mp4'' \<mapsto> 0], get_log := [''https://v/0'']\<rparr>)"
    using T [THEN conjunct1] a g by (simp add: p effect_def st0_def)
  have h2: "downloadVideo net_chain ''https://v/0'' ''7_original.mp4'' st0 =
     downloadVideo net_chain ''https://cdn/a'' ''7_original.mp4''
       (st0\<lparr>files := [''videos/7_original.mp4'' \<mapsto> 0],
            get_log := [''https://v/0'', ''https://v/1'', ''https://v/2'']\<rparr>)"
    using T [THEN conjunct2, THEN conjunct1, THEN mp, OF ne, THEN conjunct2]
    by (simp add: net_chain_chain p effect_def st0_def)
  from T [THEN conjunct2, THEN conjunct2, THEN mp, OF e]
  have "downloadVideo net_chain ''https://v/0'' ''7_original.mp4'' st0 \<noteq> None"
    by auto
  with o a g h1 h2 e net_chain_download show ?thesis
    by (simp add: net_chain_chain p)
qed

lemma net_loop_chain: "chain net_loop n ''https://cdn/a'' = replicate (Suc n) ''https://cdn/a''"
  by (induction n) (simp_all add: next_hop_def net_loop_def redirect_target_def https_address_def)

text \<open>
  The claim as stated (a fixed limit on the redirects followed, so that the download
  always ends) fails: \<^verbatim>\<open>downloadVideo\<close> counts no redirects. Where an address redirects to
  itself, every call of \<^verbatim>\<open>https.get\<close> is answered with a redirect and followed by the next
  call, and no number of calls settles the download.
\<close>

theorem redirect_loop_never_settles:
  "downloadVideo net_loop ''https://cdn/a'' ''7_original.mp4'' st0 = None"
proof (rule ccontr)
  assume "downloadVideo net_loop ''https://cdn/a'' ''7_original.mp4'' st0 \<noteq> None"
  then obtain y where "downloadVideo net_loop ''https://cdn/a'' ''7_original.mp4'' st0 = Some y"
    by blast
  from downloadVideo_settles_chain [OF this] obtain n where
    "ends net_loop (chain net_loop n ''https://cdn/a'')"
    by blast
  then have "next_hop net_loop ''https://cdn/a'' = None"
    by (simp add: net_loop_chain ends_def del: chain.simps replicate.simps)
  then show False
    by (simp add: next_hop_def net_loop_def redirect_target_def https_address_def)
qed

subsection \<open>The size of the file\<close>

text \<open>
  Claim C5. Whenever the download of an attempt is resolved, the file it names exists, and
  with \<open>n\<close> its size: if \<open>n\<close> is larger than 1024 the attempt is recorded in the results
  with that size and the file is kept; otherwise (also for exactly 1024 bytes) nothing is
  recorded and the file is removed.
\<close>

theorem artifact_size_threshold:
  "downloadVideo net (aurl a) (replaceFirst ''.mp4'' [] filename @ asuffix a @ ''.mp4'') st
     = Some (Inr filePath, st') \<longrightarrow>
   (\<exists>n. files st' filePath = Some n \<and>
        attempt_download net filename a results st =
          Some (if n > 1024
                then (results @ [\<lparr>dtype = aname a, dpath = filePath, dsize = n, durl = aurl a\<rparr>], st')
                else (results, st'\<lparr>files := (files st')(filePath := None)\<rparr>)))"
proof
  assume d: "downloadVideo net (aurl a) (replaceFirst ''.mp4'' [] filename @ asuffix a @ ''.mp4'') st
     = Some (Inr filePath, st')"
  from downloadVideo_effect [OF d] obtain content requests n where
    e: "downloadVideo net (aurl a) (replaceFirst ''.mp4'' [] filename @ asuffix a @ ''.mp4'') st =
          Some (Inr filePath, effect (attempt_path filename a) content (aurl a # requests) st)" and
    p: "filePath = attempt_path filename a" and n: "content = Some n"
    unfolding attempt_path_def by auto
  from e d have st': "st' = effect (attempt_path filename a) content (aurl a # requests) st"
    by simp
  then have f: "files st' filePath = Some n"
    by (simp add: p n files_effect)
  then have "attempt_download net filename a results st =
          Some (if n > 1024
                then (results @ [\<lparr>dtype = aname a, dpath = filePath, dsize = n, durl = aurl a\<rparr>], st')
                else (results, st'\<lparr>files := (files st')(filePath := None)\<rparr>))"
    by (simp add: attempt_download_def d statSync_def unlink_def)
  with f show "\<exists>n. files st' filePath = Some n \<and>
        attempt_download net filename a results st =
          Some (if n > 1024
                then (results @ [\<lparr>dtype = aname a, dpath = filePath, dsize = n, durl = aurl a\<rparr>], st')
                else (results, st'\<lparr>files := (files st')(filePath := None)\<rparr>))"
    by blast
qed

lemma net_sizes_downloads:
  "downloadVideo net_sizes ''https://v/big'' ''7_original.mp4'' st0 =
     Some (Inr ''videos/7_original.mp4'',
           \<lparr>files = [''videos/7_original.mp4'' \<mapsto> 1025], head_log = [],
            get_log = [''https://v/big''], stderr = []\<rparr>)"
  "downloadVideo net_sizes ''https://v/edge'' ''7_original.mp4'' st0 =
     Some (Inr ''videos/7_original.mp4'',
           \<lparr>files = [''videos/7_original.mp4'' \<mapsto> 1024], head_log = [],
            get_log = [''https://v/edge''], stderr = []\<rparr>)"
  "downloadVideo net_sizes ''https://v/small'' ''7_original.mp4'' st0 =
     Some (Inr ''videos/7_original.mp4'',
           \<lparr>files = [''videos/7_original.mp4'' \<mapsto> 1000], head_log = [],
            get_log = [''https://v/small''], stderr = []\<rparr>)"
  by (simp_all add: downloadVideo_unfold net_sizes_def redirect_target_def effect_def st0_def
        path_join_videos_def https_address_def)

theorem artifact_size_threshold_witness:
  "attempt_download net_sizes ''7.mp4''
      \<lparr>aurl = ''https://v/big'', aname = ''Original'', asuffix = ''_original''\<rparr> [] st0 =
     Some ([\<lparr>dtype = ''Original'', dpath = ''videos/7_original.mp4'', dsize = 1025,
             durl = ''https://v/big''\<rparr>],
           \<lparr>files = [''videos/7_original.mp4'' \<mapsto> 1025], head_log = [],
            get_log = [''https://v/big''], stderr = []\<rparr>) \<and>
   attempt_download net_sizes ''7.mp4''
      \<lparr>aurl = ''https://v/edge'', aname = ''Original'', asuffix = ''_original''\<rparr> [] st0 =
     Some ([], \<lparr>files = Map.empty, head_log = [], get_log = [''https://v/edge''], stderr = []\<rparr>) \<and>
   attempt_download net_sizes ''7.mp4''
      \<lparr>aurl = ''https://v/small'', aname = ''Original'', asuffix = ''_original''\<rparr> [] st0 =
     Some ([], \<lparr>files = Map.empty, head_log = [], get_log = [''https://v/small''], stderr = []\<rparr>)"
proof -
  have f: "replaceFirst ''.mp4'' [] ''7.mp4'' @ ''_original'' @ ''.mp4'' = ''7_original.mp4''"
    by simp
  note T = artifact_size_threshold [where net = net_sizes and filename = "''7.mp4''"
             and results = "[]" and st = st0 and filePath = "''videos/7_original.mp4''"]
  have a: "attempt_download net_sizes ''7.mp4''
      \<lparr>aurl = ''https://v/big'', aname = ''Original'', asuffix = ''_original''\<rparr> [] st0 =
     Some ([\<lparr>dtype = ''Original'', dpath = ''videos/7_original.mp4'', dsize = 1025,
             durl = ''https://v/big''\<rparr>],
           \<lparr>files = [''videos/7_original.mp4'' \<mapsto> 1025], head_log = [],
            get_log = [''https://v/big''], stderr = []\<rparr>)"
    using T [where a = "\<lparr>aurl = ''https://v/big'', aname = ''Original'', asuffix = ''_original''\<rparr>",
             THEN mp, unfolded attempt.simps f, OF net_sizes_downloads(1)]
    by simp
  have b: "attempt_download net_sizes ''7.mp4''
      \<lparr>aurl = ''https://v/edge'', aname = ''Original'', asuffix = ''_original''\<rparr> [] st0 =
     Some ([], \<lparr>files = Map.empty, head_log = [], get_log = [''https://v/edge''], stderr = []\<rparr>)"
    using T [where a = "\<lparr>aurl = ''https://v/edge'', aname = ''Original'', asuffix = ''_original''\<rparr>",
             THEN mp, unfolded attempt.simps f, OF net_sizes_downloads(2)]
    by simp
  have c: "attempt_download net_sizes ''7.mp4''
      \<lparr>aurl = ''https://v/small'', aname = ''Original'', asuffix = ''_original''\<rparr> [] st0 =
     Some ([], \<lparr>files = Map.empty, head_log = [], get_log = [''https://v/small''], stderr = []\<rparr>)"
    using T [where a = "\<lparr>aurl = ''https://v/small'', aname = ''Original'', asuffix = ''_original''\<rparr>",
             THEN mp, unfolded attempt.simps f, OF net_sizes_downloads(3)]
    by simp
  show ?thesis
    using a b c by simp
qed

subsection \<open>One attempt after the other\<close>

lemma run_downloads:
  assumes g: "getDownloadAddr net fetched st = (Some videoInfo, st1)"
      and s: "\<forall>a\<in>set (plan_attempts videoInfo). alone net (getVideoId pageUrl @ ''.mp4'') a \<noteq> None"
  shows "\<exists>st2. stderr st2 = stderr st1 \<and> run net fetched pageUrl st =
           Some (if \<forall>a\<in>set (plan_attempts videoInfo).
                      alone net (getVideoId pageUrl @ ''.mp4'') a = Some []
                 then (None, console_error ''Error in TikTok downloader:''
                               (Error ''All download attempts failed'') st2)
                 else (Some (getVideoId pageUrl), st2))"
proof -
  let ?f = "getVideoId pageUrl @ ''.mp4''"
  let ?rs = "concat (map (\<lambda>a. case alone net ?f a of Some ds \<Rightarrow> ds | None \<Rightarrow> [])
                        (plan_attempts videoInfo))"
  from download_attempts_Some [OF s, of "[]" st1] obtain st2 where
    d: "tryMultipleDownloads net videoInfo ?f st1 = Some (?rs, st2)" and e: "stderr st2 = stderr st1"
    by (auto simp: tryMultipleDownloads_def)
  have "(?rs = []) = (\<forall>a\<in>set (plan_attempts videoInfo). alone net ?f a = Some [])"
    using s by (auto split: option.splits)
  with d g e show ?thesis
    by (intro exI [of _ st2]) (simp add: run_def)
qed

lemma download_attempts_returns_iff:
  "(download_attempts net filename attempts results st \<noteq> None)
     = (\<forall>a\<in>set attempts. alone net filename a \<noteq> None)"
proof
  assume r: "download_attempts net filename attempts results st \<noteq> None"
  show "\<forall>a\<in>set attempts. alone net filename a \<noteq> None"
  proof (rule ccontr)
    assume "\<not> (\<forall>a\<in>set attempts. alone net filename a \<noteq> None)"
    then have "\<exists>a\<in>set attempts. alone net filename a = None"
      by simp
    from download_attempts_None [OF this] r show False
      by simp
  qed
next
  assume "\<forall>a\<in>set attempts. alone net filename a \<noteq> None"
  from download_attempts_Some [OF this, of results st]
  show "download_attempts net filename attempts results st \<noteq> None"
    by auto
qed

text \<open>
  Claim C6, as amended. The loop returns exactly when the download of every attempt, taken
  on its own, is settled (resolved or rejected). It then has run through all attempts
  whatever failed: \<^verbatim>\<open>https.get\<close> has been called with the address of every attempt, and
  the results are, in the order of the attempts, what each attempt gives on its own. An
  attempt gives nothing or one record of more than 1024 bytes. \<^verbatim>\<open>run\<close> then throws
  \<^verbatim>\<open>All download attempts failed\<close> (and returns \<^verbatim>\<open>null\<close>) exactly when every attempt failed,
  and returns the video id otherwise.
\<close>

theorem download_attempts_isolated:
  "((download_attempts net filename attempts results st \<noteq> None)
      = (\<forall>a\<in>set attempts. alone net filename a \<noteq> None)) \<and>
   ((\<forall>a\<in>set attempts. alone net filename a \<noteq> None) \<longrightarrow>
      (\<exists>st'. download_attempts net filename attempts results st =
               Some (results @ concat (map (\<lambda>a. case alone net filename a of
                                                   Some ds \<Rightarrow> ds | None \<Rightarrow> []) attempts), st') \<and>
             (\<exists>requests. get_log st' = get_log st @ requests \<and>
                          aurl ` set attempts \<subseteq> set requests))) \<and>
   (alone net filename a = Some ds \<longrightarrow>
      ds = [] \<or>
      (\<exists>n. n > 1024 \<and>
           ds = [\<lparr>dtype = aname a, dpath = attempt_path filename a, dsize = n, durl = aurl a\<rparr>])) \<and>
   (getDownloadAddr net fetched st = (Some videoInfo, st1) \<and>
    (\<forall>a\<in>set (plan_attempts videoInfo). alone net (getVideoId pageUrl @ ''.mp4'') a \<noteq> None) \<longrightarrow>
      (\<exists>st2. stderr st2 = stderr st1 \<and> run net fetched pageUrl st =
           Some (if \<forall>a\<in>set (plan_attempts videoInfo).
                      alone net (getVideoId pageUrl @ ''.mp4'') a = Some []
                 then (None, console_error ''Error in TikTok downloader:''
                               (Error ''All download attempts failed'') st2)
                 else (Some (getVideoId pageUrl), st2))))"
proof (intro conjI impI)
  show "(download_attempts net filename attempts results st \<noteq> None)
      = (\<forall>a\<in>set attempts. alone net filename a \<noteq> None)"
    by (rule download_attempts_returns_iff)
next
  assume "\<forall>a\<in>set attempts. alone net filename a \<noteq> None"
  from download_attempts_Some [OF this, of results st]
  show "\<exists>st'. download_attempts net filename attempts results st =
               Some (results @ concat (map (\<lambda>a. case alone net filename a of
                                                   Some ds \<Rightarrow> ds | None \<Rightarrow> []) attempts), st') \<and>
             (\<exists>requests. get_log st' = get_log st @ requests \<and>
                          aurl ` set attempts \<subseteq> set requests)"
    by blast
next
  assume "alone net filename a = Some ds"
  from alone_Some [OF this]
  show "ds = [] \<or>
      (\<exists>n. n > 1024 \<and>
           ds = [\<lparr>dtype = aname a, dpath = attempt_path filename a, dsize = n, durl = aurl a\<rparr>])"
    by blast
next
  assume "getDownloadAddr net fetched st = (Some videoInfo, st1) \<and>
    (\<forall>a\<in>set (plan_attempts videoInfo). alone net (getVideoId pageUrl @ ''.mp4'') a \<noteq> None)"
  then show "\<exists>st2. stderr st2 = stderr st1 \<and> run net fetched pageUrl st =
           Some (if \<forall>a\<in>set (plan_attempts videoInfo).
                      alone net (getVideoId pageUrl @ ''.mp4'') a = Some []
                 then (None, console_error ''Error in TikTok downloader:''
                               (Error ''All download attempts failed'') st2)
                 else (Some (getVideoId pageUrl), st2))"
    using run_downloads by blast
qed

lemma plan_info2: "plan_attempts info2 = attempts2"
  by (simp add: plan_attempts_def info2_def attempts2_def)

lemma net1_alone:
  "alone net1 ''7.mp4''
     \<lparr>aurl = ''https://v/a?watermark=1&logo=1'', aname = ''Original'', asuffix = ''_original''\<rparr> =
   Some [\<lparr>dtype = ''Original'', dpath = ''videos/7_original.mp4'', dsize = 2000,
          durl = ''https://v/a?watermark=1&logo=1''\<rparr>]"
  "alone net1 ''7.mp4''
      \<lparr>aurl = ''https://v/a?watermark=0&logo=1'', aname = ''Watermark Modified'',
       asuffix = ''_no_watermark''\<rparr> = Some []"
  "alone net1 ''7.mp4''
      \<lparr>aurl = ''https://v/a?watermark=0&logo=0'', aname = ''Full Parameter Modified'',
       asuffix = ''_full_modified''\<rparr> = Some []"
  by (simp_all add: alone_def attempt_download_def Let_def downloadVideo_unfold net1_def
        redirect_target_def effect_def st0_def path_join_videos_def statSync_def https_address_def)

lemma net1_source:
  "getDownloadAddr net1 (Inr md2) st0 = (Some info2, st0\<lparr>head_log := [''https://v/a?watermark=1&logo=1'']\<rparr>)"
  by (simp add: getDownloadAddr_def findBestVideoUrl_def md2_def collect_sources_def push_field_def
        select_source_def array_sort_def testVideoUrl_def net1_def st0_def info2_def escaped_amp_def
        https_address_def)

lemma video_id: "getVideoId ''https://www.tiktok.com/@u/video/7'' = ''7''"
  by (simp add: getVideoId_def)

lemma net_refused_alone:
  "alone net_refused ''7.mp4''
     \<lparr>aurl = ''https://v/a?watermark=1&logo=1'', aname = ''Original'', asuffix = ''_original''\<rparr> = Some []"
  "alone net_refused ''7.mp4''
      \<lparr>aurl = ''https://v/a?watermark=0&logo=1'', aname = ''Watermark Modified'',
       asuffix = ''_no_watermark''\<rparr> = Some []"
  "alone net_refused ''7.mp4''
      \<lparr>aurl = ''https://v/a?watermark=0&logo=0'', aname = ''Full Parameter Modified'',
       asuffix = ''_full_modified''\<rparr> = Some []"
  by (simp_all add: alone_def attempt_download_def Let_def downloadVideo_unfold net_refused_def
        https_address_def)

lemma net_refused_source:
  "getDownloadAddr net_refused (Inr md2) st0 =
     (Some info2, st0\<lparr>head_log := [''https://v/a?watermark=1&logo=1'']\<rparr>)"
  by (simp add: getDownloadAddr_def findBestVideoUrl_def md2_def collect_sources_def push_field_def
        select_source_def array_sort_def testVideoUrl_def net_refused_def st0_def info2_def
        escaped_amp_def https_address_def)

theorem download_attempts_isolated_witness:
  "alone net1 ''7.mp4''
     \<lparr>aurl = ''https://v/a?watermark=1&logo=1'', aname = ''Original'', asuffix = ''_original''\<rparr> =
     Some [\<lparr>dtype = ''Original'', dpath = ''videos/7_original.mp4'', dsize = 2000,
            durl = ''https://v/a?watermark=1&logo=1''\<rparr>] \<and>
   alone net1 ''7.mp4''
      \<lparr>aurl = ''https://v/a?watermark=0&logo=1'', aname = ''Watermark Modified'',
       asuffix = ''_no_watermark''\<rparr> = Some [] \<and>
   alone net1 ''7.mp4''
      \<lparr>aurl = ''https://v/a?watermark=0&logo=0'', aname = ''Full Parameter Modified'',
       asuffix = ''_full_modified''\<rparr> = Some [] \<and>
   map_option fst (download_attempts net1 ''7.mp4'' attempts2 [] st0) =
     Some [\<lparr>dtype = ''Original'', dpath = ''videos/7_original.mp4'', dsize = 2000,
            durl = ''https://v/a?watermark=1&logo=1''\<rparr>] \<and>
   map_option fst (run net1 (Inr md2) ''https://www.tiktok.com/@u/video/7'' st0) = Some (Some ''7'') \<and>
   map_option (\<lambda>x. (fst x, stderr (snd x)))
       (run net_refused (Inr md2) ''https://www.tiktok.com/@u/video/7'' st0) =
     Some (None, [(''Error in TikTok downloader:'', Error ''All download attempts failed'')])"
proof -
  have s1: "\<forall>a\<in>set attempts2. alone net1 ''7.mp4'' a \<noteq> None"
    by (simp add: attempts2_def net1_alone)
  have s1': "\<forall>a\<in>set (plan_attempts info2).
               alone net1 (getVideoId ''https://www.tiktok.com/@u/video/7'' @ ''.mp4'') a \<noteq> None"
    using s1 by (simp add: plan_info2 video_id)
  have s2: "\<forall>a\<in>set (plan_attempts info2).
               alone net_refused (getVideoId ''https://www.tiktok.com/@u/video/7'' @ ''.mp4'') a \<noteq> None"
    by (simp add: plan_info2 video_id attempts2_def net_refused_alone)
  have a: "map_option fst (download_attempts net1 ''7.mp4'' attempts2 [] st0) =
     Some [\<lparr>dtype = ''Original'', dpath = ''videos/7_original.mp4'', dsize = 2000,
            durl = ''https://v/a?watermark=1&logo=1''\<rparr>]"
    using download_attempts_isolated [where net = net1 and filename = "''7.mp4''"
            and attempts = attempts2 and results = "[]" and st = st0,
            THEN conjunct2, THEN conjunct1, THEN mp, OF s1]
    by (auto simp: attempts2_def net1_alone)
  have b: "map_option fst (run net1 (Inr md2) ''https://www.tiktok.com/@u/video/7'' st0) = Some (Some ''7'')"
    using download_attempts_isolated [where net = net1 and fetched = "Inr md2" and st = st0
            and pageUrl = "''https://www.tiktok.com/@u/video/7''" and videoInfo = info2,
            THEN conjunct2, THEN conjunct2, THEN conjunct2, THEN mp, OF conjI, OF net1_source s1']
    by (auto simp: plan_info2 video_id attempts2_def net1_alone)
  have c: "map_option (\<lambda>x. (fst x, stderr (snd x)))
       (run net_refused (Inr md2) ''https://www.tiktok.com/@u/video/7'' st0) =
     Some (None, [(''Error in TikTok downloader:'', Error ''All download attempts failed'')])"
  proof -
    from download_attempts_isolated [where net = net_refused and fetched = "Inr md2" and st = st0
            and pageUrl = "''https://www.tiktok.com/@u/video/7''" and videoInfo = info2,
            THEN conjunct2, THEN conjunct2, THEN conjunct2, THEN mp, OF conjI, OF net_refused_source s2]
    obtain st2 where e: "stderr st2 = stderr (st0\<lparr>head_log := [''https://v/a?watermark=1&logo=1'']\<rparr>)"
      and r: "run net_refused (Inr md2) ''https://www.tiktok.com/@u/video/7'' st0 =
        Some (None, console_error ''Error in TikTok downloader:''
                               (Error ''All download attempts failed'') st2)"
      by (auto simp: plan_info2 video_id attempts2_def net_refused_alone)
    from e have "stderr st2 = []"
      by (simp add: st0_def)
    with r show ?thesis
      by (simp add: console_error_def)
  qed
  show ?thesis
    using a b c by (simp add: net1_alone)
qed

lemma net_cut_source:
  "getDownloadAddr net_cut (Inr md2) st0 =
     (Some info2, st0\<lparr>head_log := [''https://v/a?watermark=1&logo=1'']\<rparr>)"
  by (simp add: getDownloadAddr_def findBestVideoUrl_def md2_def collect_sources_def push_field_def
        select_source_def array_sort_def testVideoUrl_def net_cut_def st0_def info2_def
        escaped_amp_def https_address_def)

text \<open>
  The claim as stated fails where a download is never settled. The body of the first
  attempt is cut off before its end, so its promise is neither resolved nor rejected; the
  other two attempts would each give a file of 2000 bytes, but the loop never comes to
  them, and neither \<^verbatim>\<open>tryMultipleDownloads\<close> nor \<^verbatim>\<open>run\<close> returns.
\<close>

theorem cut_body_stops_attempts:
  "tryMultipleDownloads net_cut info2 ''7.mp4'' st0 = None \<and>
   run net_cut (Inr md2) ''https://www.tiktok.com/@u/video/7'' st0 = None \<and>
   alone net_cut ''7.mp4''
      \<lparr>aurl = ''https://v/a?watermark=0&logo=1'', aname = ''Watermark Modified'',
       asuffix = ''_no_watermark''\<rparr> =
     Some [\<lparr>dtype = ''Watermark Modified'', dpath = ''videos/7_no_watermark.mp4'', dsize = 2000,
            durl = ''https://v/a?watermark=0&logo=1''\<rparr>] \<and>
   alone net_cut ''7.mp4''
      \<lparr>aurl = ''https://v/a?watermark=0&logo=0'', aname = ''Full Parameter Modified'',
       asuffix = ''_full_modified''\<rparr> =
     Some [\<lparr>dtype = ''Full Parameter Modified'', dpath = ''videos/7_full_modified.mp4'', dsize = 2000,
            durl = ''https://v/a?watermark=0&logo=0''\<rparr>]"
proof -
  have t: "tryMultipleDownloads net_cut info2 ''7.mp4'' st2 = None" for st2
    by (simp add: tryMultipleDownloads_def plan_info2 attempts2_def attempt_download_def Let_def
          downloadVideo_unfold net_cut_def redirect_target_def https_address_def)
  have r: "run net_cut (Inr md2) ''https://www.tiktok.com/@u/video/7'' st0 = None"
    by (simp add: run_def net_cut_source video_id t)
  have a: "alone net_cut ''7.mp4''
      \<lparr>aurl = ''https://v/a?watermark=0&logo=1'', aname = ''Watermark Modified'',
       asuffix = ''_no_watermark''\<rparr> =
     Some [\<lparr>dtype = ''Watermark Modified'', dpath = ''videos/7_no_watermark.mp4'', dsize = 2000,
            durl = ''https://v/a?watermark=0&logo=1''\<rparr>]"
    "alone net_cut ''7.mp4''
      \<lparr>aurl = ''https://v/a?watermark=0&logo=0'', aname = ''Full Parameter Modified'',
       asuffix = ''_full_modified''\<rparr> =
     Some [\<lparr>dtype = ''Full Parameter Modified'', dpath = ''videos/7_full_modified.mp4'', dsize = 2000,
            durl = ''https://v/a?watermark=0&logo=0''\<rparr>]"
    by (simp_all add: alone_def attempt_download_def Let_def downloadVideo_unfold net_cut_def
          redirect_target_def effect_def st0_def path_join_videos_def statSync_def https_address_def)
  show ?thesis
    using t r a by simp
qed

subsection \<open>Files of failed attempts\<close>

text \<open>
  Claim C8 does not hold of the code. In this run the first attempt succeeds, the second
  is answered with status 403 and the third fails with an error of the request. The file
  of the third is removed, but the file of the second, made by \<^verbatim>\<open>fs.createWriteStream\<close>
  before the request was sent, is still there, empty, when \<^verbatim>\<open>tryMultipleDownloads\<close>
  returns.
\<close>

theorem status_rejection_leaves_file:
  "tryMultipleDownloads net1 info2 ''7.mp4'' st0 =
     Some ([\<lparr>dtype = ''Original'', dpath = ''videos/7_original.mp4'', dsize = 2000,
             durl = ''https://v/a?watermark=1&logo=1''\<rparr>],
           \<lparr>files = [''videos/7_original.mp4'' \<mapsto> 2000, ''videos/7_no_watermark.mp4'' \<mapsto> 0],
            head_log = [],
            get_log = [''https://v/a?watermark=1&logo=1'', ''https://cdn/a'',
                       ''https://v/a?watermark=0&logo=1'', ''https://v/a?watermark=0&logo=0''],
            stderr = []\<rparr>)"
  by (simp add: tryMultipleDownloads_def plan_info2 attempts2_def attempt_download_def Let_def
        downloadVideo_unfold net1_def redirect_target_def effect_def st0_def path_join_videos_def
        statSync_def show_nat.simps digit_def https_address_def)

text \<open>
  In general: an attempt whose address is answered with a status other than 200 that is
  not a redirect, and an attempt whose address \<^verbatim>\<open>https.get\<close> does not accept, records
  nothing and leaves its file, empty, on disk.
\<close>

theorem rejected_status_keeps_file:
  "opens net (attempt_path filename a) \<and>
   (\<not> accepts net (aurl a) \<or>
    http_get net (aurl a) = GetResponse statusCode location body \<and>
    redirect_target statusCode location = None \<and> statusCode \<noteq> 200) \<longrightarrow>
   attempt_download net filename a results st =
     Some (results, effect (attempt_path filename a) (Some 0) [aurl a] st) \<and>
   files (effect (attempt_path filename a) (Some 0) [aurl a] st) (attempt_path filename a) = Some 0"
  by (auto simp: attempt_download_def Let_def downloadVideo_unfold attempt_path_def files_effect)

theorem rejected_status_keeps_file_witness:
  "opens net1 ''videos/7_no_watermark.mp4'' \<and>
   accepts net1 ''https://v/a?watermark=0&logo=1'' \<and>
   http_get net1 ''https://v/a?watermark=0&logo=1'' = GetResponse 403 None (Finished 0) \<and>
   redirect_target 403 None = None \<and>
   attempt_download net1 ''7.mp4''
      \<lparr>aurl = ''https://v/a?watermark=0&logo=1'', aname = ''Watermark Modified'',
       asuffix = ''_no_watermark''\<rparr> [] st0 =
     Some ([], \<lparr>files = [''videos/7_no_watermark.mp4'' \<mapsto> 0], head_log = [],
                get_log = [''https://v/a?watermark=0&logo=1''], stderr = []\<rparr>) \<and>
   \<not> accepts net1 ''/cdn/a'' \<and>
   attempt_download net1 ''7.mp4''
      \<lparr>aurl = ''/cdn/a'', aname = ''Original'', asuffix = ''_original''\<rparr> [] st0 =
     Some ([], \<lparr>files = [''videos/7_original.mp4'' \<mapsto> 0], head_log = [],
                get_log = [''/cdn/a''], stderr = []\<rparr>)"
proof -
  have o: "opens net1 p" for p
    by (simp add: net1_def)
  have y: "accepts net1 ''https://v/a?watermark=0&logo=1''" and n: "\<not> accepts net1 ''/cdn/a''"
    by (simp_all add: net1_def https_address_def)
  have g: "http_get net1 ''https://v/a?watermark=0&logo=1'' = GetResponse 403 None (Finished 0)"
    by (simp add: net1_def)
  have r: "redirect_target 403 None = None"
    by (simp add: redirect_target_def)
  have p: "attempt_path ''7.mp4''
      \<lparr>aurl = ''https://v/a?watermark=0&logo=1'', aname = ''Watermark Modified'',
       asuffix = ''_no_watermark''\<rparr> = ''videos/7_no_watermark.mp4''"
    "attempt_path ''7.mp4''
      \<lparr>aurl = ''/cdn/a'', aname = ''Original'', asuffix = ''_original''\<rparr> = ''videos/7_original.mp4''"
    by (simp_all add: attempt_path_def path_join_videos_def)
  from rejected_status_keeps_file [where net = net1 and filename = "''7.mp4''" and results = "[]"
         and st = st0 and statusCode = 403 and location = None and body = "Finished 0"
         and a = "\<lparr>aurl = ''https://v/a?watermark=0&logo=1'', aname = ''Watermark Modified'',
                   asuffix = ''_no_watermark''\<rparr>", THEN mp]
  have a: "attempt_download net1 ''7.mp4''
      \<lparr>aurl = ''https://v/a?watermark=0&logo=1'', aname = ''Watermark Modified'',
       asuffix = ''_no_watermark''\<rparr> [] st0 =
     Some ([], effect ''videos/7_no_watermark.mp4'' (Some 0) [''https://v/a?watermark=0&logo=1''] st0)"
    using g r o by (simp add: p)
  from rejected_status_keeps_file [where net = net1 and filename = "''7.mp4''" and results = "[]"
         and st = st0
         and a = "\<lparr>aurl = ''/cdn/a'', aname = ''Original'', asuffix = ''_original''\<rparr>", THEN mp]
  have b: "attempt_download net1 ''7.mp4''
      \<lparr>aurl = ''/cdn/a'', aname = ''Original'', asuffix = ''_original''\<rparr> [] st0 =
     Some ([], effect ''videos/7_original.mp4'' (Some 0) [''/cdn/a''] st0)"
    using n o by (simp add: p)
  show ?thesis
    using a b g r o y n by (simp add: effect_def st0_def)
qed

subsection \<open>The order of the sources collected\<close>

text \<open>
  The sources are collected in the order of their priorities already: sorting the
  sources of readable metadata does not move any of them.
\<close>

theorem collected_sources_in_order:
  "truthy videoData \<and>
   (\<forall>bitrate\<in>set (elements (field (field videoData ''video'') ''bitrateInfo'')).
       well_shaped bitrate) \<longrightarrow>
   (\<exists>videoSources. collect_sources videoData = Inr videoSources \<and>
        sorted (map priority videoSources) \<and>
        array_sort by_priority videoSources = videoSources)"
proof
  assume a: "truthy videoData \<and>
   (\<forall>bitrate\<in>set (elements (field (field videoData ''video'') ''bitrateInfo'')).
       well_shaped bitrate)"
  let ?video = "field videoData ''video''"
  let ?bs = "concat (map (\<lambda>(i, b). map (\<lambda>(j, u). bitrate_source i b j u)
                                               (enumerate 0 (mirror_urls b)))
                               (enumerate 0 (elements (field ?video ''bitrateInfo''))))"
  let ?cs = "if truthy ?video
             then field_source ?video ''downloadAddr'' 1 @ field_source ?video ''playAddrH264'' 2
                @ field_source ?video ''playAddr'' 3 @ ?bs
             else []"
  from a have c: "collect_sources videoData = Inr ?cs"
    using collect_sources_eq by blast
  have "sorted (map priority ?bs)" and "\<forall>c\<in>set ?bs. 4 \<le> priority c"
    using bitrate_sources_sorted [of 0 "elements (field ?video ''bitrateInfo'')"]
    by simp_all
  then have s: "sorted (map priority ?cs)"
    by (fastforce simp: field_source_def sorted_append)
  then have "array_sort by_priority ?cs = ?cs"
    by (simp only: array_sort_by_priority sort_key_id_if_sorted)
  with c s show "\<exists>videoSources. collect_sources videoData = Inr videoSources \<and>
        sorted (map priority videoSources) \<and>
        array_sort by_priority videoSources = videoSources"
    by blast
qed

theorem collected_sources_in_order_witness:
  "truthy md0 \<and>
   map priority (case collect_sources md0 of Inr cs \<Rightarrow> cs | Inl e \<Rightarrow> []) = [2, 3, 4, 4, 6] \<and>
   array_sort by_priority (case collect_sources md0 of Inr cs \<Rightarrow> cs | Inl e \<Rightarrow> [])
     = (case collect_sources md0 of Inr cs \<Rightarrow> cs | Inl e \<Rightarrow> [])"
proof -
  have t: "truthy md0"
    by (simp add: md0_def)
  have w: "\<forall>bitrate\<in>set (elements (field (field md0 ''video'') ''bitrateInfo'')). well_shaped bitrate"
    by (simp add: md0_def field_def well_shaped_def)
  from collected_sources_in_order [THEN mp, OF conjI, OF t w] obtain cs where
    c: "collect_sources md0 = Inr cs" and s: "array_sort by_priority cs = cs"
    by blast
  have "map priority (case collect_sources md0 of Inr cs \<Rightarrow> cs | Inl e \<Rightarrow> []) = [2, 3, 4, 4, 6]"
    by (simp add: md0_def collect_sources_def push_field_def)
  with t c s show ?thesis
    by simp
qed

end
